(* ===== verification/Prelude.thy ===== *)
theory Prelude
  imports Main "HOL-Library.Sublist" "HOL-Library.Char_ord"
begin

text \<open>
  Shared ground of the development: the named collections of hints, the result monad that every
  effectful operation of the model is written in, and the rules that carry invariants and
  postconditions through it.

  An operation of the program that can fail and that changes state is a function
  \<open>'s \<Rightarrow> ('e + 'a) \<times> 's\<close>: \<open>Inl e\<close> is an error return, \<open>Inr x\<close> a normal return, and the state is
  returned in both cases, because the Go code returns early with the effects already made.
  \<open>fmt.Errorf("...: %w", err)\<close> keeps the identity of the wrapped error under \<open>errors.Is\<close>, so
  wrapping is not a step of the model.
\<close>

named_theorems resp_intros \<open>rules that carry a step relation through the operations of the monad\<close>
named_theorems run_simps \<open>equations that run an operation on a state\<close>
named_theorems path_simps \<open>facts on slash-separated paths and their segments\<close>
named_theorems str_simps \<open>facts on the string functions of the standard library\<close>

section \<open>The result monad\<close>

type_synonym ('s, 'e, 'a) m = "'s \<Rightarrow> ('e + 'a) \<times> 's"

definition ret :: "'a \<Rightarrow> ('s, 'e, 'a) m" where
  "ret x = (\<lambda>s. (Inr x, s))"

definition throw :: "'e \<Rightarrow> ('s, 'e, 'a) m" where
  "throw e = (\<lambda>s. (Inl e, s))"

text \<open>\<open>bnd m f\<close>: run \<open>m\<close>; on \<open>err != nil\<close> return it, else go on with \<open>f\<close>.\<close>

definition bnd :: "('s, 'e, 'a) m \<Rightarrow> ('a \<Rightarrow> ('s, 'e, 'b) m) \<Rightarrow> ('s, 'e, 'b) m" where
  "bnd m f = (\<lambda>s. case m s of (Inl e, s') \<Rightarrow> (Inl e, s') | (Inr x, s') \<Rightarrow> f x s')"

definition seqm :: "('s, 'e, 'a) m \<Rightarrow> ('s, 'e, 'b) m \<Rightarrow> ('s, 'e, 'b) m" where
  "seqm m n = bnd m (\<lambda>_. n)"

text \<open>\<open>attempt m\<close>: the caller inspects \<open>err\<close> itself (\<open>if err == nil\<close>, \<open>switch\<close>).\<close>

definition attempt :: "('s, 'e, 'a) m \<Rightarrow> ('s, 'e, 'e + 'a) m" where
  "attempt m = (\<lambda>s. case m s of (r, s') \<Rightarrow> (Inr r, s'))"

text \<open>\<open>on_err m h\<close>: the caller replaces the error by another one.\<close>

definition on_err :: "('s, 'e, 'a) m \<Rightarrow> ('e \<Rightarrow> 'f) \<Rightarrow> ('s, 'f, 'a) m" where
  "on_err m h = (\<lambda>s. case m s of (Inl e, s') \<Rightarrow> (Inl (h e), s') | (Inr x, s') \<Rightarrow> (Inr x, s'))"

text \<open>\<open>ignore m\<close>: the result is dropped, \<open>_ = f()\<close>.\<close>

definition ignore :: "('s, 'e, 'a) m \<Rightarrow> ('s, 'e, unit) m" where
  "ignore m = (\<lambda>s. (Inr (), snd (m s)))"

definition gets :: "('s \<Rightarrow> 'a) \<Rightarrow> ('s, 'e, 'a) m" where
  "gets f = (\<lambda>s. (Inr (f s), s))"

definition modify :: "('s \<Rightarrow> 's) \<Rightarrow> ('s, 'e, unit) m" where
  "modify f = (\<lambda>s. (Inr (), f s))"

definition whenm :: "bool \<Rightarrow> ('s, 'e, unit) m \<Rightarrow> ('s, 'e, unit) m" where
  "whenm b m = (if b then m else ret ())"

definition failif :: "bool \<Rightarrow> 'e \<Rightarrow> ('s, 'e, unit) m" where
  "failif b e = (if b then throw e else ret ())"

fun eachm :: "('a \<Rightarrow> ('s, 'e, unit) m) \<Rightarrow> 'a list \<Rightarrow> ('s, 'e, unit) m" where
  "eachm f [] = ret ()"
| "eachm f (x # xs) = seqm (f x) (eachm f xs)"

subsection \<open>Running an operation\<close>

lemma run_ret [run_simps, simp]: "ret x s = (Inr x, s)"
  by (simp add: ret_def)

lemma run_throw [run_simps, simp]: "throw e s = (Inl e, s)"
  by (simp add: throw_def)

lemma run_gets [run_simps, simp]: "gets f s = (Inr (f s), s)"
  by (simp add: gets_def)

lemma run_modify [run_simps, simp]: "modify f s = (Inr (), f s)"
  by (simp add: modify_def)

lemma run_ignore [run_simps, simp]: "ignore m s = (Inr (), snd (m s))"
  by (simp add: ignore_def)

lemma run_attempt [run_simps, simp]: "attempt m s = (Inr (fst (m s)), snd (m s))"
  by (simp add: attempt_def split: prod.splits)

lemma run_failif [run_simps, simp]: "failif b e s = (if b then (Inl e, s) else (Inr (), s))"
  by (simp add: failif_def)

lemma run_whenm [run_simps, simp]: "whenm b m s = (if b then m s else (Inr (), s))"
  by (simp add: whenm_def)

lemma run_bnd [run_simps]:
  "bnd m f s = (case m s of (Inl e, s') \<Rightarrow> (Inl e, s') | (Inr x, s') \<Rightarrow> f x s')"
  by (simp add: bnd_def)

lemma run_seqm [run_simps]:
  "seqm m n s = (case m s of (Inl e, s') \<Rightarrow> (Inl e, s') | (Inr _, s') \<Rightarrow> n s')"
  by (simp add: seqm_def bnd_def)

lemma run_on_err [run_simps]:
  "on_err m h s = (case m s of (Inl e, s') \<Rightarrow> (Inl (h e), s') | (Inr x, s') \<Rightarrow> (Inr x, s'))"
  by (simp add: on_err_def)

lemma bnd_ret_left [simp]: "bnd (ret x) f = f x"
  by (simp add: bnd_def ret_def)

lemma bnd_throw [simp]: "bnd (throw e) f = throw e"
  by (simp add: bnd_def throw_def)

lemma bnd_assoc: "bnd (bnd m f) g = bnd m (\<lambda>x. bnd (f x) g)"
  by (rule ext) (simp add: bnd_def split: prod.splits sum.splits)

subsection \<open>Inversion of a successful or failed run\<close>

lemma bnd_InrE:
  assumes "bnd m f s = (Inr y, s')"
  obtains x s1 where "m s = (Inr x, s1)" and "f x s1 = (Inr y, s')"
  using assms by (auto simp: bnd_def split: prod.splits sum.splits)

lemma seqm_InrE:
  assumes "seqm m n s = (Inr y, s')"
  obtains x s1 where "m s = (Inr x, s1)" and "n s1 = (Inr y, s')"
  using assms by (auto simp: seqm_def elim: bnd_InrE)

lemma on_err_InrE:
  assumes "on_err m h s = (Inr y, s')"
  obtains "m s = (Inr y, s')"
  using assms by (auto simp: on_err_def split: prod.splits sum.splits)

lemma failif_InrE:
  assumes "failif b e s = (Inr y, s')"
  obtains "\<not> b" and "s' = s"
  using assms by (auto split: if_splits)

lemmas run_elims = bnd_InrE seqm_InrE on_err_InrE failif_InrE

subsection \<open>Postconditions of a successful run\<close>

text \<open>
  \<open>ensures P m Q\<close>: from a state with \<open>P\<close>, a run of \<open>m\<close> that returns normally with \<open>x\<close> in \<open>s'\<close>
  satisfies \<open>Q x s'\<close>. Nothing is said of an error return.
\<close>

definition ensures :: "('s \<Rightarrow> bool) \<Rightarrow> ('s, 'e, 'a) m \<Rightarrow> ('a \<Rightarrow> 's \<Rightarrow> bool) \<Rightarrow> bool" where
  "ensures P m Q \<longleftrightarrow> (\<forall>s x s'. P s \<longrightarrow> m s = (Inr x, s') \<longrightarrow> Q x s')"

lemma ensuresI:
  "(\<And>s x s'. P s \<Longrightarrow> m s = (Inr x, s') \<Longrightarrow> Q x s') \<Longrightarrow> ensures P m Q"
  by (simp add: ensures_def)

lemma ensuresD: "ensures P m Q \<Longrightarrow> P s \<Longrightarrow> m s = (Inr x, s') \<Longrightarrow> Q x s'"
  by (simp add: ensures_def)

lemma ensures_bnd:
  assumes "ensures P m Q" and "\<And>x. ensures (Q x) (f x) T"
  shows "ensures P (bnd m f) T"
  using assms by (auto intro!: ensuresI elim!: bnd_InrE dest: ensuresD)

lemma ensures_seqm:
  assumes "ensures P m (\<lambda>_. Q)" and "ensures Q n T"
  shows "ensures P (seqm m n) T"
  using assms unfolding seqm_def by (blast intro: ensures_bnd)

lemma ensures_on_err: "ensures P m Q \<Longrightarrow> ensures P (on_err m h) Q"
  by (auto intro!: ensuresI elim!: on_err_InrE dest: ensuresD)

lemma ensures_pre: "ensures P m Q \<Longrightarrow> (\<And>s. P' s \<Longrightarrow> P s) \<Longrightarrow> ensures P' m Q"
  by (auto simp: ensures_def)

lemma ensures_post: "ensures P m Q \<Longrightarrow> (\<And>x s. Q x s \<Longrightarrow> T x s) \<Longrightarrow> ensures P m T"
  by (auto simp: ensures_def)

lemma ensures_throw [simp]: "ensures P (throw e) Q"
  by (simp add: ensures_def)

lemma ensures_True [simp]: "ensures P m (\<lambda>_ _. True)"
  by (simp add: ensures_def)

lemma ensures_ret: "(\<And>s. P s \<Longrightarrow> Q x s) \<Longrightarrow> ensures P (ret x) Q"
  by (simp add: ensures_def)

section \<open>Step relations\<close>

text \<open>
  \<open>resp R m\<close>: whatever \<open>m\<close> returns, and whether it fails or not, the state it leaves is related
  by \<open>R\<close> to the state it started in. With \<open>R s t = (I s \<longrightarrow> I t)\<close> this is the preservation of
  the invariant \<open>I\<close>.
\<close>

definition resp :: "('s \<Rightarrow> 's \<Rightarrow> bool) \<Rightarrow> ('s, 'e, 'a) m \<Rightarrow> bool" where
  "resp R m \<longleftrightarrow> (\<forall>s. R s (snd (m s)))"

lemma respI: "(\<And>s. R s (snd (m s))) \<Longrightarrow> resp R m"
  by (simp add: resp_def)

lemma respD: "resp R m \<Longrightarrow> R s (snd (m s))"
  by (simp add: resp_def)

lemma respD_run: "resp R m \<Longrightarrow> m s = (r, s') \<Longrightarrow> R s s'"
  by (auto simp: resp_def dest: spec [of _ s])

locale step_rel =
  fixes R :: "'s \<Rightarrow> 's \<Rightarrow> bool"
  assumes refl: "R s s"
    and trans: "R s t \<Longrightarrow> R t u \<Longrightarrow> R s u"
begin

lemma resp_ret [resp_intros]: "resp R (ret x)"
  by (simp add: resp_def refl)

lemma resp_throw [resp_intros]: "resp R (throw e)"
  by (simp add: resp_def refl)

lemma resp_gets [resp_intros]: "resp R (gets f)"
  by (simp add: resp_def refl)

lemma resp_failif [resp_intros]: "resp R (failif b e)"
  by (simp add: resp_def refl)

lemma resp_bnd [resp_intros]:
  assumes m: "resp R m" and f: "\<And>x. resp R (f x)"
  shows "resp R (bnd m f)"
proof (rule respI)
  fix s
  show "R s (snd (bnd m f s))"
  proof (cases "m s")
    case (Pair r s1)
    then have s1: "R s s1" using respD [OF m, of s] by simp
    show ?thesis
    proof (cases r)
      case (Inl e)
      with Pair s1 show ?thesis by (simp add: run_bnd)
    next
      case (Inr x)
      with Pair have "snd (bnd m f s) = snd (f x s1)" by (simp add: run_bnd)
      with s1 respD [OF f, of s1 x] show ?thesis by (metis trans)
    qed
  qed
qed

lemma resp_seqm [resp_intros]: "resp R m \<Longrightarrow> resp R n \<Longrightarrow> resp R (seqm m n)"
  unfolding seqm_def by (rule resp_bnd)

lemma resp_attempt [resp_intros]: "resp R m \<Longrightarrow> resp R (attempt m)"
  by (simp add: resp_def)

lemma resp_ignore [resp_intros]: "resp R m \<Longrightarrow> resp R (ignore m)"
  by (simp add: resp_def)

lemma resp_on_err [resp_intros]: "resp R m \<Longrightarrow> resp R (on_err m h)"
  by (auto simp: resp_def on_err_def split: prod.splits sum.splits) (metis snd_conv)+

lemma resp_whenm [resp_intros]: "resp R m \<Longrightarrow> resp R (whenm b m)"
  by (simp add: resp_def refl)

lemma resp_eachm [resp_intros]: "(\<And>x. resp R (f x)) \<Longrightarrow> resp R (eachm f xs)"
  by (induction xs) (auto intro: resp_ret resp_seqm)

lemma resp_if [resp_intros]: "resp R m \<Longrightarrow> resp R n \<Longrightarrow> resp R (if b then m else n)"
  by simp

lemma resp_option [resp_intros]:
  "resp R n \<Longrightarrow> (\<And>x. resp R (f x)) \<Longrightarrow> resp R (case v of None \<Rightarrow> n | Some x \<Rightarrow> f x)"
  by (cases v) simp_all

lemma resp_sum [resp_intros]:
  "(\<And>e. resp R (g e)) \<Longrightarrow> (\<And>x. resp R (f x)) \<Longrightarrow> resp R (case v of Inl e \<Rightarrow> g e | Inr x \<Rightarrow> f x)"
  by (cases v) simp_all

lemma resp_list [resp_intros]:
  "resp R n \<Longrightarrow> (\<And>x xs. resp R (f x xs)) \<Longrightarrow> resp R (case v of [] \<Rightarrow> n | x # xs \<Rightarrow> f x xs)"
  by (cases v) simp_all

lemma resp_prod [resp_intros]:
  "(\<And>x y. resp R (f x y)) \<Longrightarrow> resp R (case v of (x, y) \<Rightarrow> f x y)"
  by (cases v) simp

lemma resp_Let [resp_intros]: "(\<And>x. resp R (f x)) \<Longrightarrow> resp R (let x = v in f x)"
  by simp

end

text \<open>A run that is known not to fail, as an equation.\<close>

lemma run_of_Inr: "\<not> isl (fst x) \<Longrightarrow> x = (Inr (projr (fst x)), snd x)"
  by (cases x) auto

text \<open>An invariant is the step relation "if it held before, it holds after".\<close>

definition keeps :: "('s \<Rightarrow> bool) \<Rightarrow> 's \<Rightarrow> 's \<Rightarrow> bool" where
  "keeps I s t \<longleftrightarrow> (I s \<longrightarrow> I t)"

interpretation keeps_rel: step_rel "keeps I"
  by unfold_locales (auto simp: keeps_def)

lemmas keeps_intros = keeps_rel.resp_ret keeps_rel.resp_throw keeps_rel.resp_gets keeps_rel.resp_failif
  keeps_rel.resp_bnd keeps_rel.resp_seqm keeps_rel.resp_attempt keeps_rel.resp_ignore
  keeps_rel.resp_on_err keeps_rel.resp_whenm keeps_rel.resp_eachm keeps_rel.resp_if
  keeps_rel.resp_option keeps_rel.resp_sum keeps_rel.resp_list keeps_rel.resp_prod keeps_rel.resp_Let

lemma keeps_run: "resp (keeps I) m \<Longrightarrow> I s \<Longrightarrow> I (snd (m s))"
  by (auto simp: resp_def keeps_def)

section \<open>The environment of an operation\<close>

text \<open>
  Every component's state extends this record. \<open>w_faults\<close> is the schedule of infrastructure
  failures: each call of the database or of the mailer takes its next entry and fails when it is
  True (a missing entry is no failure), so a theorem over all states covers every \<open>if err != nil\<close>
  branch. \<open>w_rand\<close> is the supply of random strings; a draw from the empty supply is the error
  branch of \<open>rand.Read\<close>. \<open>w_now\<close> is the clock in nanoseconds; it does not advance within one
  request.
\<close>

record env =
  w_faults :: "bool list"
  w_rand :: "string list"
  w_now :: int

definition fault_next :: "bool list \<Rightarrow> bool" where
  "fault_next fs = (case fs of [] \<Rightarrow> False | b # _ \<Rightarrow> b)"

definition io_call :: "'e \<Rightarrow> ('z env_scheme, 'e, 'a) m \<Rightarrow> ('z env_scheme, 'e, 'a) m" where
  "io_call e f = (\<lambda>w. let w' = w\<lparr>w_faults := tl (w_faults w)\<rparr> in
     if fault_next (w_faults w) then (Inl e, w') else f w')"

definition draw :: "'e \<Rightarrow> ('z env_scheme, 'e, string) m" where
  "draw e = (\<lambda>w. case w_rand w of [] \<Rightarrow> (Inl e, w) | r # rs \<Rightarrow> (Inr r, w\<lparr>w_rand := rs\<rparr>))"

text \<open>A database transaction: on an error the tables are as before, the consumed faults and
  random strings are not given back.\<close>

definition transaction :: "('z env_scheme, 'e, 'a) m \<Rightarrow> ('z env_scheme, 'e, 'a) m" where
  "transaction f = (\<lambda>w. case f w of
     (Inl e, w') \<Rightarrow> (Inl e, w\<lparr>w_faults := w_faults w', w_rand := w_rand w'\<rparr>)
   | (Inr x, w') \<Rightarrow> (Inr x, w'))"

lemma io_call_InrE:
  assumes "io_call e f w = (Inr x, w')"
  obtains "\<not> fault_next (w_faults w)" and "f (w\<lparr>w_faults := tl (w_faults w)\<rparr>) = (Inr x, w')"
  using assms by (auto simp: io_call_def Let_def split: if_splits)

lemma transaction_InrE:
  assumes "transaction f w = (Inr x, w')"
  obtains "f w = (Inr x, w')"
  using assms by (auto simp: transaction_def split: prod.splits sum.splits)

lemma io_call_no_fault [run_simps]:
  "w_faults w = [] \<Longrightarrow> io_call e f w = f w"
  by (cases w) (simp add: io_call_def fault_next_def Let_def)

lemma draw_InrE:
  assumes "draw e w = (Inr r, w')"
  obtains rs where "w_rand w = r # rs" and "w' = w\<lparr>w_rand := rs\<rparr>"
  using assms by (auto simp: draw_def split: list.splits)

text \<open>Step relations that ignore the environment: an operation respects one as soon as its
  statements do.\<close>

locale env_rel = step_rel R for R :: "'z env_scheme \<Rightarrow> 'z env_scheme \<Rightarrow> bool" +
  assumes env: "R w (w\<lparr>w_faults := fs, w_rand := rs\<rparr>)"
begin

lemma env_faults: "R w (w\<lparr>w_faults := fs\<rparr>)"
  using env [where w = w and fs = fs and rs = "w_rand w"] by (cases w) simp

lemma env_rand: "R w (w\<lparr>w_rand := rs\<rparr>)"
  using env [where w = w and fs = "w_faults w" and rs = rs] by (cases w) simp

lemma resp_io_call: "resp R f \<Longrightarrow> resp R (io_call e f)"
  by (rule respI) (auto simp: io_call_def Let_def env_faults intro: trans [OF env_faults] respD)

lemma resp_io_read: "(\<And>w. snd (f w) = w) \<Longrightarrow> resp R (io_call e f)"
  by (rule resp_io_call) (simp add: resp_def refl)

lemma resp_draw_env: "resp R (draw e)"
  by (rule respI) (auto simp: draw_def refl env_rand split: list.splits)

lemma resp_transaction:
  assumes "\<And>w x w'. f w = (Inr x, w') \<Longrightarrow> R w w'"
  shows "resp R (transaction f)"
proof (rule respI)
  fix w
  show "R w (snd (transaction f w))"
  proof (cases "f w")
    case (Pair r w')
    with assms [of w _ w'] env show ?thesis by (cases r) (simp_all add: transaction_def)
  qed
qed

lemma io_call_Inr:
  assumes "io_call e f w = (Inr x, w')"
  obtains w1 where "R w w1" and "f w1 = (Inr x, w')"
  using assms by (rule io_call_InrE) (rule that [OF env_faults])

end

section \<open>Insertion-ordered tables\<close>

text \<open>A database table is the list of its rows in insertion order; \<open>desc_by\<close> is
  \<open>ORDER BY key DESC\<close> with later rows first among equals, \<open>asc_by\<close> is \<open>ORDER BY key ASC\<close>.\<close>

definition desc_by :: "('a \<Rightarrow> 'k::linorder) \<Rightarrow> 'a list \<Rightarrow> 'a list" where
  "desc_by f xs = rev (sort_key f xs)"

definition asc_by :: "('a \<Rightarrow> 'k::linorder) \<Rightarrow> 'a list \<Rightarrow> 'a list" where
  "asc_by f xs = sort_key f xs"

lemma set_desc_by [simp]: "set (desc_by f xs) = set xs"
  by (simp add: desc_by_def)

lemma set_asc_by [simp]: "set (asc_by f xs) = set xs"
  by (simp add: asc_by_def)

lemma desc_by_Nil_iff [simp]: "desc_by f xs = [] \<longleftrightarrow> xs = []"
  by (simp add: desc_by_def) (metis set_empty set_sort)

definition update_where :: "('a \<Rightarrow> bool) \<Rightarrow> ('a \<Rightarrow> 'a) \<Rightarrow> 'a list \<Rightarrow> 'a list" where
  "update_where P f xs = map (\<lambda>x. if P x then f x else x) xs"

definition delete_where :: "('a \<Rightarrow> bool) \<Rightarrow> 'a list \<Rightarrow> 'a list" where
  "delete_where P xs = filter (\<lambda>x. \<not> P x) xs"

lemma set_delete_where [simp]: "set (delete_where P xs) = {x \<in> set xs. \<not> P x}"
  by (simp add: delete_where_def)

lemma set_update_where: "set (update_where P f xs) = (\<lambda>x. if P x then f x else x) ` set xs"
  by (simp add: update_where_def)

lemma map_update_where:
  "(\<And>x. g (f x) = g x) \<Longrightarrow> map g (update_where P f xs) = map g xs"
  by (simp add: update_where_def)

lemma filter_update_where:
  "(\<And>x. P x \<Longrightarrow> P (f x)) \<Longrightarrow> filter (\<lambda>x. \<not> P x) (update_where P f xs) = filter (\<lambda>x. \<not> P x) xs"
  by (induction xs) (auto simp: update_where_def)

lemma distinct_map_delete_where: "distinct (map g xs) \<Longrightarrow> distinct (map g (delete_where P xs))"
  by (simp add: delete_where_def distinct_map_filter)

lemma find_SomeD: "find P xs = Some x \<Longrightarrow> x \<in> set xs \<and> P x"
  by (auto simp: find_Some_iff in_set_conv_nth)

lemma find_NoneD: "find P xs = None \<Longrightarrow> x \<in> set xs \<Longrightarrow> \<not> P x"
  by (auto simp: find_None_iff)

lemma find_snoc: "find P xs = None \<Longrightarrow> find P (xs @ [x]) = (if P x then Some x else None)"
  by (induction xs) (auto split: if_splits)

lemma find_unique:
  "distinct (map g xs) \<Longrightarrow> x \<in> set xs \<Longrightarrow> find (\<lambda>y. g y = g x) xs = Some x"
  by (induction xs) (auto simp: image_iff)

end
