(* ===== verification/GoStrings.thy ===== *)
theory GoStrings
  imports Prelude
begin

text \<open>
  The functions of Go's \<open>strings\<close> package that the program uses, on byte strings
  (\<open>char list\<close>). Case mapping and white space are those of ASCII: bytes from 128 up are
  letters without case and are not white space, which is what \<open>strings.ToLower\<close> and
  \<open>strings.TrimSpace\<close> do on ASCII text.
\<close>

section \<open>Case and white space\<close>

definition lower_char :: "char \<Rightarrow> char" where
  "lower_char c = (if CHR ''A'' \<le> c \<and> c \<le> CHR ''Z'' then char_of ((of_char c :: nat) + 32) else c)"

definition upper_char :: "char \<Rightarrow> char" where
  "upper_char c = (if CHR ''a'' \<le> c \<and> c \<le> CHR ''z'' then char_of ((of_char c :: nat) - 32) else c)"

definition to_lower :: "string \<Rightarrow> string" where
  "to_lower s = map lower_char s"

definition to_upper :: "string \<Rightarrow> string" where
  "to_upper s = map upper_char s"

definition is_space :: "char \<Rightarrow> bool" where
  "is_space c \<longleftrightarrow> (let n = (of_char c :: nat) in n = 32 \<or> (9 \<le> n \<and> n \<le> 13))"

definition trim_left :: "(char \<Rightarrow> bool) \<Rightarrow> string \<Rightarrow> string" where
  "trim_left P s = dropWhile P s"

definition trim_right :: "(char \<Rightarrow> bool) \<Rightarrow> string \<Rightarrow> string" where
  "trim_right P s = rev (dropWhile P (rev s))"

definition trim_both :: "(char \<Rightarrow> bool) \<Rightarrow> string \<Rightarrow> string" where
  "trim_both P s = trim_right P (trim_left P s)"

definition trim_space :: "string \<Rightarrow> string" where
  "trim_space s = trim_both is_space s"

lemma lower_char_range:
  assumes "CHR ''A'' \<le> c" and "c \<le> CHR ''Z''"
  shows "(of_char c :: nat) \<in> {65..90}"
  using assms by (simp add: less_eq_char_def)

lemma lower_char_idem [str_simps, simp]: "lower_char (lower_char c) = lower_char c"
proof (cases "CHR ''A'' \<le> c \<and> c \<le> CHR ''Z''")
  case True
  then have "(of_char c :: nat) \<in> {65..90}" using lower_char_range by blast
  with True show ?thesis by (auto simp: lower_char_def less_eq_char_def)
next
  case False
  then have "lower_char c = c" by (simp only: lower_char_def if_False)
  then show ?thesis by simp
qed

lemma is_space_lower_char [str_simps, simp]: "is_space (lower_char c) = is_space c"
proof (cases "CHR ''A'' \<le> c \<and> c \<le> CHR ''Z''")
  case True
  then have "(of_char c :: nat) \<in> {65..90}" using lower_char_range by blast
  with True show ?thesis by (auto simp: lower_char_def is_space_def Let_def)
next
  case False
  then show ?thesis by (simp only: lower_char_def if_False)
qed

lemma lower_char_fixes:
  assumes "lower_char c = d" and "(of_char d :: nat) < 97"
  shows "c = d"
proof (cases "CHR ''A'' \<le> c \<and> c \<le> CHR ''Z''")
  case True
  then have r: "(of_char c :: nat) \<in> {65..90}" using lower_char_range by blast
  have "lower_char c = char_of ((of_char c :: nat) + 32)" using True by (simp add: lower_char_def)
  with assms(1) have "(of_char d :: nat) = of_char c + 32" using r by auto
  with r assms(2) show ?thesis by simp
next
  case False
  with assms(1) show ?thesis by (simp only: lower_char_def if_False)
qed

lemma to_lower_idem [str_simps, simp]: "to_lower (to_lower s) = to_lower s"
  by (simp add: to_lower_def)

lemma to_lower_append [str_simps]: "to_lower (s @ t) = to_lower s @ to_lower t"
  by (simp add: to_lower_def)

lemma length_to_lower [str_simps, simp]: "length (to_lower s) = length s"
  by (simp add: to_lower_def)

lemma to_lower_Nil_iff [str_simps, simp]: "to_lower s = [] \<longleftrightarrow> s = []"
  by (simp add: to_lower_def)

lemma dropWhile_idem [simp]: "dropWhile P (dropWhile P xs) = dropWhile P xs"
  by (induction xs) auto

lemma trim_left_trim_right_comm:
  "trim_left P (trim_right P s) = trim_right P (trim_left P s)"
proof (induction s)
  case Nil
  then show ?case by (simp add: trim_left_def trim_right_def)
next
  case (Cons c s)
  show ?case
  proof (cases "\<forall>x \<in> set (c # s). P x")
    case True
    then have "dropWhile P (rev (c # s)) = []" and "dropWhile P (c # s) = []"
      by (auto simp: dropWhile_eq_Nil_conv)
    then show ?thesis by (simp only: trim_left_def trim_right_def) simp
  next
    case nall: False
    show ?thesis
    proof (cases "P c")
      case True
      with nall have ex: "\<exists>x \<in> set (rev s). \<not> P x" by auto
      then have "dropWhile P (rev s @ [c]) = dropWhile P (rev s) @ [c]"
        by (auto simp: dropWhile_append1)
      with True Cons.IH show ?thesis by (simp add: trim_left_def trim_right_def)
    next
      case False
      then have "hd (trim_right P (c # s)) = c \<and> trim_right P (c # s) \<noteq> []"
        by (simp add: trim_right_def dropWhile_append split: if_splits)
      with False show ?thesis
        by (cases "trim_right P (c # s)") (auto simp: trim_left_def)
    qed
  qed
qed

lemma trim_left_idem [simp]: "trim_left P (trim_left P s) = trim_left P s"
  by (simp add: trim_left_def)

lemma trim_right_idem [simp]: "trim_right P (trim_right P s) = trim_right P s"
  by (simp add: trim_right_def)

lemma trim_both_idem [str_simps, simp]: "trim_both P (trim_both P s) = trim_both P s"
  unfolding trim_both_def by (metis trim_left_idem trim_right_idem trim_left_trim_right_comm)

lemma trim_space_idem [str_simps, simp]: "trim_space (trim_space s) = trim_space s"
  by (simp add: trim_space_def)

lemma dropWhile_map_same: "(\<And>c. P (f c) = P c) \<Longrightarrow> dropWhile P (map f s) = map f (dropWhile P s)"
  by (induction s) auto

lemma trim_space_to_lower [str_simps]: "trim_space (to_lower s) = to_lower (trim_space s)"
  by (simp add: trim_space_def trim_both_def trim_left_def trim_right_def to_lower_def
      dropWhile_map_same rev_map)

lemma trim_left_hd: "trim_left P s \<noteq> [] \<Longrightarrow> \<not> P (hd (trim_left P s))"
  by (simp add: trim_left_def hd_dropWhile)

lemma trim_left_id: "(s = [] \<or> \<not> P (hd s)) \<Longrightarrow> trim_left P s = s"
  by (cases s) (auto simp: trim_left_def)

lemma trim_right_id: "(s = [] \<or> \<not> P (last s)) \<Longrightarrow> trim_right P s = s"
  by (cases s rule: rev_cases) (auto simp: trim_right_def)

lemma set_trim_space: "set (trim_space s) \<subseteq> set s"
proof
  fix x assume "x \<in> set (trim_space s)"
  then have "x \<in> set (dropWhile is_space (rev (dropWhile is_space s)))"
    by (simp add: trim_space_def trim_both_def trim_left_def trim_right_def)
  then have "x \<in> set (dropWhile is_space s)" using set_dropWhileD by fastforce
  then show "x \<in> set s" by (rule set_dropWhileD)
qed

lemma trim_space_id:
  "(s = [] \<or> (\<not> is_space (hd s) \<and> \<not> is_space (last s))) \<Longrightarrow> trim_space s = s"
  by (auto simp: trim_space_def trim_both_def trim_left_id trim_right_id)

section \<open>Prefixes and substrings\<close>

definition has_prefix :: "string \<Rightarrow> string \<Rightarrow> bool" where
  "has_prefix s p = prefix p s"

definition has_suffix :: "string \<Rightarrow> string \<Rightarrow> bool" where
  "has_suffix s p = suffix p s"

definition contains :: "string \<Rightarrow> string \<Rightarrow> bool" where
  "contains s sub = sublist sub s"

definition trim_prefix :: "string \<Rightarrow> string \<Rightarrow> string" where
  "trim_prefix s p = (if has_prefix s p then drop (length p) s else s)"

lemma has_prefix_append [str_simps]: "has_prefix s p \<longleftrightarrow> (\<exists>t. s = p @ t)"
  by (auto simp: has_prefix_def prefix_def)

lemma has_prefix_refl [str_simps, simp]: "has_prefix s s"
  by (simp add: has_prefix_def)

lemma has_prefix_trans: "has_prefix s p \<Longrightarrow> has_prefix p q \<Longrightarrow> has_prefix s q"
  by (auto simp: has_prefix_def)

section \<open>Split and join on a separator byte\<close>

fun split_on :: "char \<Rightarrow> string \<Rightarrow> string list" where
  "split_on c [] = [[]]"
| "split_on c (x # xs) =
     (if x = c then [] # split_on c xs
      else (case split_on c xs of [] \<Rightarrow> [[x]] | p # ps \<Rightarrow> (x # p) # ps))"

fun join_on :: "char \<Rightarrow> string list \<Rightarrow> string" where
  "join_on c [] = []"
| "join_on c [p] = p"
| "join_on c (p # q # ps) = p @ c # join_on c (q # ps)"

lemma split_on_not_Nil [simp]: "split_on c s \<noteq> []"
  by (induction s) (auto split: list.splits)

lemma join_split [str_simps, simp]: "join_on c (split_on c s) = s"
proof (induction s)
  case Nil
  then show ?case by simp
next
  case (Cons x s)
  obtain p ps where ps: "split_on c s = p # ps" by (cases "split_on c s") auto
  with Cons.IH show ?case by (cases ps) auto
qed

lemma split_on_no_sep: "c \<notin> set s \<Longrightarrow> split_on c s = [s]"
  by (induction s) auto

lemma split_on_sep: "c \<notin> set p \<Longrightarrow> split_on c (p @ c # s) = p # split_on c s"
  by (induction p) auto

lemma split_on_no_sep_part: "p \<in> set (split_on c s) \<Longrightarrow> c \<notin> set p"
  by (induction s arbitrary: p) (auto split: list.splits if_splits)

lemma split_join [str_simps]:
  "ps \<noteq> [] \<Longrightarrow> \<forall>p \<in> set ps. c \<notin> set p \<Longrightarrow> split_on c (join_on c ps) = ps"
  by (induction c ps rule: join_on.induct) (auto simp: split_on_no_sep split_on_sep)

lemma split_on_append_sep: "split_on c (s @ c # t) = split_on c s @ split_on c t"
proof (induction s)
  case Nil
  then show ?case by simp
next
  case (Cons x s)
  then show ?case by (auto split: list.splits)
qed

lemma join_on_append:
  "ps \<noteq> [] \<Longrightarrow> qs \<noteq> [] \<Longrightarrow> join_on c (ps @ qs) = join_on c ps @ c # join_on c qs"
proof (induction c ps rule: join_on.induct)
  case (2 c p)
  then show ?case by (cases qs) auto
qed auto

lemma join_on_eq_Nil: "join_on c ps = [] \<longleftrightarrow> ps = [] \<or> ps = [[]]"
  by (induction c ps rule: join_on.induct) auto

lemma set_join_on: "set (join_on c ps) \<subseteq> insert c (\<Union>p \<in> set ps. set p)"
  by (induction c ps rule: join_on.induct) auto

lemma set_split_on_part: "p \<in> set (split_on c s) \<Longrightarrow> set p \<subseteq> set s"
proof (induction s arbitrary: p)
  case (Cons x s)
  then show ?case by (cases "split_on c s") (fastforce split: if_splits)+
qed simp

end
