(* ===== verification/GoPath.thy ===== *)
theory GoPath
  imports GoStrings
begin

text \<open>
  The parts of \<open>net/url\<close> and \<open>path/filepath\<close> (Unix) the program relies on: percent-decoding and
  encoding of one path segment, lexical cleaning of a rooted path, and the file extension.
\<close>

section \<open>Percent encoding (url.PathEscape, url.PathUnescape)\<close>

definition hex_val :: "char \<Rightarrow> nat option" where
  "hex_val c = (let n = (of_char c :: nat) in
     if 48 \<le> n \<and> n \<le> 57 then Some (n - 48)
     else if 97 \<le> n \<and> n \<le> 102 then Some (n - 87)
     else if 65 \<le> n \<and> n \<le> 70 then Some (n - 55)
     else None)"

fun path_unescape :: "string \<Rightarrow> string option" where
  "path_unescape [] = Some []"
| "path_unescape (c # s) =
     (if c = CHR ''%'' then
        (case s of
           a # b # r \<Rightarrow>
             (case (hex_val a, hex_val b) of
                (Some i, Some j) \<Rightarrow> map_option ((#) (char_of (16 * i + j))) (path_unescape r)
              | _ \<Rightarrow> None)
         | _ \<Rightarrow> None)
      else map_option ((#) c) (path_unescape s))"

text \<open>The bytes \<open>url.PathEscape\<close> leaves alone: letters, digits, \<open>-_.~\<close> and \<open>$&+:=@\<close>.\<close>

definition path_unreserved :: "char \<Rightarrow> bool" where
  "path_unreserved c \<longleftrightarrow> (let n = (of_char c :: nat) in
     (48 \<le> n \<and> n \<le> 57) \<or> (65 \<le> n \<and> n \<le> 90) \<or> (97 \<le> n \<and> n \<le> 122) \<or>
     c \<in> set ''-_.~$&+:=@'')"

definition hex_digit :: "nat \<Rightarrow> char" where
  "hex_digit n = (if n < 10 then char_of (n + 48) else char_of (n + 55))"

definition path_escape :: "string \<Rightarrow> string" where
  "path_escape s = concat (map (\<lambda>c. if path_unreserved c then [c]
     else [CHR ''%'', hex_digit ((of_char c :: nat) div 16), hex_digit ((of_char c :: nat) mod 16)]) s)"

lemma hex_val_hex_digit: "n < 16 \<Longrightarrow> hex_val (hex_digit n) = Some n"
  by (auto simp: hex_val_def hex_digit_def Let_def)

lemma percent_reserved: "path_unreserved c \<Longrightarrow> c \<noteq> CHR ''%''"
  by (auto simp: path_unreserved_def Let_def)

lemma of_char_div_16: "(of_char c :: nat) div 16 < 16"
proof -
  have "(of_char c :: nat) < 256" by (cases c) (simp add: of_char_def horner_sum_simps)
  then show ?thesis by (simp add: less_mult_imp_div_less)
qed

lemma path_unescape_escape [str_simps]: "path_unescape (path_escape s) = Some s"
proof (induction s)
  case Nil
  then show ?case by (simp add: path_escape_def)
next
  case (Cons c s)
  show ?case
  proof (cases "path_unreserved c")
    case True
    then have "path_escape (c # s) = c # path_escape s" by (simp add: path_escape_def)
    with Cons.IH percent_reserved [OF True] show ?thesis by simp
  next
    case False
    then have "path_escape (c # s) =
      CHR ''%'' # hex_digit (of_char c div 16) # hex_digit (of_char c mod 16) # path_escape s"
      by (simp add: path_escape_def)
    moreover have "char_of (16 * ((of_char c :: nat) div 16) + of_char c mod 16) = c"
      by (simp add: mult_div_mod_eq)
    ultimately show ?thesis
      using Cons.IH of_char_div_16 [of c] by (simp add: hex_val_hex_digit)
  qed
qed

lemma path_unescape_length: "path_unescape s = Some t \<Longrightarrow> length t \<le> length s"
proof (induction s arbitrary: t rule: path_unescape.induct)
  case 1
  then show ?case by simp
next
  case (2 c s)
  then show ?case
    by (fastforce split: if_splits list.splits option.splits)
qed

lemma path_unescape_id: "CHR ''%'' \<notin> set s \<Longrightarrow> path_unescape s = Some s"
  by (induction s rule: path_unescape.induct) auto

lemma path_unescape_shrinks:
  "path_unescape s = Some t \<Longrightarrow> CHR ''%'' \<in> set s \<Longrightarrow> length t < length s"
proof (induction s arbitrary: t rule: path_unescape.induct)
  case 1
  then show ?case by simp
next
  case (2 c s)
  then show ?case
    by (fastforce split: if_splits list.splits option.splits dest: path_unescape_length)
qed

lemma path_unescape_fixed: "path_unescape s = Some s \<longleftrightarrow> CHR ''%'' \<notin> set s"
  using path_unescape_id path_unescape_shrinks by fastforce

section \<open>Lexical cleaning (filepath.Clean of a rooted path)\<close>

text \<open>
  \<open>clean_segs acc ss\<close> is the loop of \<open>Clean\<close> over the elements of a path that starts with a
  slash: empty elements and \<open>.\<close> are dropped, \<open>..\<close> removes the element before it and is dropped
  at the root. \<open>acc\<close> holds the elements written so far, last first.
\<close>

fun clean_segs :: "string list \<Rightarrow> string list \<Rightarrow> string list" where
  "clean_segs acc [] = rev acc"
| "clean_segs acc (s # ss) =
     (if s = [] \<or> s = ''.'' then clean_segs acc ss
      else if s = ''..'' then clean_segs (tl acc) ss
      else clean_segs (s # acc) ss)"

definition clean_rooted :: "string \<Rightarrow> string" where
  "clean_rooted p = CHR ''/'' # join_on CHR ''/'' (clean_segs [] (split_on CHR ''/'' p))"

definition good_seg :: "string \<Rightarrow> bool" where
  "good_seg s \<longleftrightarrow> s \<noteq> [] \<and> s \<noteq> ''.'' \<and> s \<noteq> ''..'' \<and> CHR ''/'' \<notin> set s"

text \<open>A safe relative path: empty, or non-empty elements none of which is \<open>.\<close> or \<open>..\<close>.\<close>

definition safe_rel :: "string \<Rightarrow> bool" where
  "safe_rel p \<longleftrightarrow> p = [] \<or> (\<forall>s \<in> set (split_on CHR ''/'' p). good_seg s)"

lemma good_segD:
  assumes "good_seg s"
  shows "s \<noteq> []" and "s \<noteq> ''.''" and "s \<noteq> ''..''" and "CHR ''/'' \<notin> set s"
  using assms unfolding good_seg_def by blast+

lemma bad_segs [simp]: "\<not> good_seg []" "\<not> good_seg ''.''" "\<not> good_seg ''..''"
  by (simp_all add: good_seg_def)

lemma clean_segs_good:
  "\<forall>s \<in> set acc. good_seg s \<Longrightarrow> \<forall>s \<in> set ss. CHR ''/'' \<notin> set s \<Longrightarrow>
   \<forall>s \<in> set (clean_segs acc ss). good_seg s"
proof (induction acc ss rule: clean_segs.induct)
  case (1 acc)
  then show ?case by simp
next
  case (2 acc s ss)
  have tl_good: "\<forall>t \<in> set (tl acc). good_seg t" using "2.prems"(1) by (cases acc) auto
  have rest: "\<forall>t \<in> set ss. CHR ''/'' \<notin> set t" and s: "CHR ''/'' \<notin> set s"
    using "2.prems"(2) by simp_all
  consider "s = [] \<or> s = ''.''" | "s = ''..''" | "good_seg s"
    using s by (auto simp only: good_seg_def)
  then show ?case
  proof cases
    case 1
    with "2.IH"(1) "2.prems"(1) rest show ?thesis by simp
  next
    case 2
    with "2.IH"(2) tl_good rest show ?thesis by simp
  next
    case 3
    then have ne: "\<not> (s = [] \<or> s = ''.'')" "s \<noteq> ''..''" using good_segD [of s] by blast+
    have "\<forall>t \<in> set (s # acc). good_seg t" using 3 "2.prems"(1) by simp
    then have "\<forall>t \<in> set (clean_segs (s # acc) ss). good_seg t"
      by (rule "2.IH"(3) [OF ne _ rest])
    moreover have "clean_segs acc (s # ss) = clean_segs (s # acc) ss"
      using ne by (simp only: clean_segs.simps if_False)
    ultimately show ?thesis by (simp only:)
  qed
qed

lemma clean_segs_id: "\<forall>s \<in> set ss. good_seg s \<Longrightarrow> clean_segs acc ss = rev acc @ ss"
  by (induction ss arbitrary: acc) (auto simp: good_segD)

lemma set_clean_segs: "set (clean_segs acc ss) \<subseteq> set acc \<union> set ss"
proof (induction acc ss rule: clean_segs.induct)
  case (2 acc s ss)
  moreover have "set (tl acc) \<subseteq> set acc" by (cases acc) auto
  ultimately show ?case by (auto split: if_splits)
qed simp

lemma clean_split_good: "\<forall>s \<in> set (clean_segs [] (split_on CHR ''/'' p)). good_seg s"
  by (rule clean_segs_good) (auto dest: split_on_no_sep_part)

lemma safe_rel_join: "\<forall>s \<in> set ss. good_seg s \<Longrightarrow> safe_rel (join_on CHR ''/'' ss)"
  by (cases "ss = []") (auto simp: safe_rel_def good_segD split_join)

lemma clean_segs_cons_empty: "clean_segs acc ([] # ss) = clean_segs acc ss"
  by simp

lemma safe_rel_clean: "safe_rel (join_on CHR ''/'' (clean_segs [] (split_on CHR ''/'' p)))"
  by (rule safe_rel_join) (rule clean_split_good)

lemma clean_safe_id:
  "safe_rel p \<Longrightarrow> join_on CHR ''/'' (clean_segs [] (split_on CHR ''/'' p)) = p"
  by (cases "p = []") (auto simp: safe_rel_def clean_segs_id)

lemma safe_rel_Nil [simp]: "safe_rel []"
  by (simp add: safe_rel_def)

lemma safe_rel_seg: "safe_rel p \<Longrightarrow> p \<noteq> [] \<Longrightarrow> s \<in> set (split_on CHR ''/'' p) \<Longrightarrow> good_seg s"
  by (simp add: safe_rel_def)

lemma safe_rel_no_lead: "safe_rel p \<Longrightarrow> p \<noteq> [] \<Longrightarrow> hd p \<noteq> CHR ''/''"
  using safe_rel_seg [of p "[]"] by (cases p) auto

lemma safe_rel_not_parent: "safe_rel p \<Longrightarrow> p \<noteq> ''..''"
  using safe_rel_seg [of p "''..''"] by auto

lemma safe_rel_no_parent_prefix: "safe_rel p \<Longrightarrow> \<not> has_prefix p ''../''"
  using safe_rel_seg [of p "''..''"] by (auto simp: has_prefix_append)

lemma safe_rel_no_parent_inside: "safe_rel p \<Longrightarrow> \<not> contains p ''/../''"
proof
  assume safe: "safe_rel p" and "contains p ''/../''"
  then obtain a b where p: "p = a @ CHR ''/'' # ''..'' @ CHR ''/'' # b"
    by (auto simp: contains_def sublist_def)
  have "split_on CHR ''/'' (''..'' @ CHR ''/'' # b) = ''..'' # split_on CHR ''/'' b"
    by (rule split_on_sep) simp
  then have "split_on CHR ''/'' p = split_on CHR ''/'' a @ ''..'' # split_on CHR ''/'' b"
    by (simp only: p split_on_append_sep)
  then have "''..'' \<in> set (split_on CHR ''/'' p)" by simp
  with safe p show False using safe_rel_seg [of p "''..''"] by simp
qed

text \<open>The interface of a function that turns a request path into a media-relative path: its result
  is safe, and a safe path is left as it is.\<close>

locale media_cleaner =
  fixes norm :: "string \<Rightarrow> string"
  assumes norm_safe: "safe_rel (norm p)"
    and norm_id: "safe_rel p \<Longrightarrow> norm p = p"
begin

lemma norm_idem: "norm (norm p) = norm p"
  by (rule norm_id) (rule norm_safe)

lemma norm_no_escape:
  "\<not> (norm p = ''..'' \<or> has_prefix (norm p) ''../'' \<or> contains (norm p) ''/../'')"
  using norm_safe safe_rel_not_parent safe_rel_no_parent_prefix safe_rel_no_parent_inside by blast

lemma norm_relative: "norm p \<noteq> [] \<Longrightarrow> hd (norm p) \<noteq> CHR ''/''"
  by (rule safe_rel_no_lead) (rule norm_safe)

end

section \<open>Extension and last element\<close>

definition path_ext :: "string \<Rightarrow> string" where
  "path_ext p = (let r = rev p; t = takeWhile (\<lambda>c. c \<noteq> CHR ''.'' \<and> c \<noteq> CHR ''/'') r in
     case drop (length t) r of
       [] \<Rightarrow> []
     | c # _ \<Rightarrow> if c = CHR ''.'' then c # rev t else [])"

lemma path_ext_no_slash: "CHR ''/'' \<notin> set (path_ext p)"
  by (auto simp: path_ext_def Let_def split: list.splits dest: set_takeWhileD)

end
