(* ===== verification/AccessPath.thy ===== *)
theory AccessPath
  imports GoPath
begin

text \<open>
  Media paths and their owning library: \<open>internal/access/path.go\<close> and \<open>types.go\<close>. A request path
  is canonicalised before any permission is looked up, and the library with the longest matching
  root decides. The lemmas show that a canonical path cannot climb out of the media root, when
  canonicalisation is stable, and that \<open>MatchLibrary\<close> picks a longest root, which is the only
  matching one when roots do not overlap.
\<close>

section \<open>Types and errors\<close>

datatype access_err =
    ErrInvalidPath
  | ErrInvalidLibraryType
  | ErrLibraryNotFound
  | ErrInvalidLibraryRoot
  | ErrLibraryRootConflict
  | ErrLibraryRootNotFound
  | ErrLibrarySlugConflict
  | ErrUnknownLibrary
  | ErrAdminGrantsImmutable
  | ErrInvalidLibraryName
  | ErrInvalidLibraryPatch
  | AccessDbError

text \<open>\<open>LibraryType\<close> is a Go string; \<open>TypeUnset\<close> is its zero value.\<close>

datatype library_type = TypeUnset | TypeFilm | TypeSeries | TypeMusic | TypePhotos | TypeOther

definition parse_library_type :: "string \<Rightarrow> access_err + library_type" where
  "parse_library_type raw =
     (if raw = ''film'' then Inr TypeFilm
      else if raw = ''series'' then Inr TypeSeries
      else if raw = ''music'' then Inr TypeMusic
      else if raw = ''photos'' then Inr TypePhotos
      else if raw = ''other'' then Inr TypeOther
      else Inl ErrInvalidLibraryType)"

record library =
  lib_id :: string
  lib_slug :: string
  lib_rel_path :: string
  lib_name :: string
  lib_type :: library_type
  lib_roots :: "string list"

section \<open>Canonical paths\<close>

definition normalize_rel_path :: "string \<Rightarrow> string" where
  "normalize_rel_path raw =
     (let cleaned = trim_prefix (trim_space raw) ''/''
      in if cleaned = [] \<or> cleaned = ''.'' then [] else cleaned)"

definition has_residual_path_encoding :: "string \<Rightarrow> bool" where
  "has_residual_path_encoding v =
     (let lower = to_lower v in contains lower ''%2e'' \<or> contains lower ''%2f'')"

definition nul :: char where
  "nul = CHR 0x00"

fun unescape_rounds :: "nat \<Rightarrow> string \<Rightarrow> access_err + string" where
  "unescape_rounds 0 current = Inr current"
| "unescape_rounds (Suc n) current =
     (case path_unescape current of
        None \<Rightarrow> Inl ErrInvalidPath
      | Some unescaped \<Rightarrow>
          if unescaped = current then Inr current else unescape_rounds n unescaped)"

definition max_unescape_rounds :: nat where
  "max_unescape_rounds = 2"

definition unescape_path_limited :: "string \<Rightarrow> access_err + string" where
  "unescape_path_limited p =
     (case unescape_rounds max_unescape_rounds p of
        Inl e \<Rightarrow> Inl e
      | Inr current \<Rightarrow>
          if has_residual_path_encoding current \<or> contains current [nul]
          then Inl ErrInvalidPath else Inr current)"

definition clean_media_rel_path :: "string \<Rightarrow> string" where
  "clean_media_rel_path p =
     (let clean = clean_rooted (CHR ''/'' # p)
      in if clean = ''.'' \<or> clean = ''/'' then [] else trim_prefix clean ''/'')"

definition canonical_rel_path :: "string \<Rightarrow> access_err + string" where
  "canonical_rel_path raw =
     (let trimmed = normalize_rel_path raw
      in if trimmed = [] then Inr []
         else case unescape_path_limited trimmed of
           Inl e \<Rightarrow> Inl e
         | Inr v \<Rightarrow>
             (let rel = clean_media_rel_path v
              in if rel = ''..'' \<or> has_prefix rel ''../'' \<or> contains rel ''/../''
                 then Inl ErrInvalidPath else Inr rel))"

section \<open>Roots and matching\<close>

definition root_paths :: "library \<Rightarrow> string list" where
  "root_paths l =
     (if lib_roots l \<noteq> [] then lib_roots l
      else if trim_space (lib_rel_path l) \<noteq> [] then [lib_rel_path l]
      else [])"

definition path_within_root :: "string \<Rightarrow> string \<Rightarrow> bool" where
  "path_within_root rel root =
     (let rel' = normalize_rel_path rel; root' = normalize_rel_path root
      in if rel' = [] \<or> root' = [] then False
         else if rel' = root' then True
         else has_prefix rel' (root' @ ''/''))"

definition roots_overlap :: "string \<Rightarrow> string \<Rightarrow> bool" where
  "roots_overlap left right \<longleftrightarrow> path_within_root left right \<or> path_within_root right left"

definition is_hidden_rel_path :: "string \<Rightarrow> bool" where
  "is_hidden_rel_path rel =
     (let p = normalize_rel_path rel
      in p \<noteq> [] \<and> (\<exists>part \<in> set (split_on CHR ''/'' p). has_prefix part ''.''))"

definition is_trash_rel_path :: "string \<Rightarrow> bool" where
  "is_trash_rel_path rel =
     (let p = normalize_rel_path rel in p = ''.trash'' \<or> has_prefix p ''.trash/'')"

text \<open>The two nested loops of \<open>MatchLibrary\<close>: \<open>best\<close> and \<open>bestLen\<close> are the state.\<close>

fun best_root :: "string \<Rightarrow> library \<Rightarrow> string list \<Rightarrow> library option \<times> int \<Rightarrow> library option \<times> int" where
  "best_root p l [] st = st"
| "best_root p l (r # rs) (best, n) =
     best_root p l rs
       (if path_within_root p r \<and> int (length r) > n then (Some l, int (length r)) else (best, n))"

fun best_library :: "string \<Rightarrow> library list \<Rightarrow> library option \<times> int \<Rightarrow> library option \<times> int" where
  "best_library p [] st = st"
| "best_library p (l # ls) st = best_library p ls (best_root p l (root_paths l) st)"

definition match_library :: "library list \<Rightarrow> string \<Rightarrow> library option" where
  "match_library libraries raw =
     (case canonical_rel_path raw of
        Inl _ \<Rightarrow> None
      | Inr rel \<Rightarrow> if rel = [] then None else fst (best_library rel libraries (None, -1)))"

section \<open>Cleaning\<close>

lemma clean_media_join:
  "clean_media_rel_path p = join_on CHR ''/'' (clean_segs [] (split_on CHR ''/'' p))"
  by (simp add: clean_media_rel_path_def clean_rooted_def Let_def trim_prefix_def has_prefix_def)

interpretation request_cleaner: media_cleaner clean_media_rel_path
  by unfold_locales (simp_all add: clean_media_join safe_rel_clean clean_safe_id)

lemma canonical_cases:
  "canonical_rel_path raw =
     (if normalize_rel_path raw = [] then Inr []
      else case unescape_path_limited (normalize_rel_path raw) of
        Inl e \<Rightarrow> Inl e | Inr v \<Rightarrow> Inr (clean_media_rel_path v))"
  using request_cleaner.norm_no_escape
  by (simp add: canonical_rel_path_def Let_def split: sum.splits)

lemma sublist_sep_iff:
  assumes "c \<notin> set pat"
  shows "sublist pat (xs @ c # ys) \<longleftrightarrow> sublist pat xs \<or> sublist pat ys"
proof
  assume "sublist pat (xs @ c # ys)"
  then obtain a b where "xs @ c # ys = a @ pat @ b" by (auto simp: sublist_def)
  then obtain us where us: "xs = a @ us \<and> us @ c # ys = pat @ b \<or> xs @ us = a \<and> c # ys = us @ pat @ b"
    by (auto simp: append_eq_append_conv2)
  then show "sublist pat xs \<or> sublist pat ys"
  proof
    assume "xs = a @ us \<and> us @ c # ys = pat @ b"
    then obtain vs where "xs = a @ us" and
      "us = pat @ vs \<and> vs @ c # ys = b \<or> us @ vs = pat \<and> c # ys = vs @ b"
      by (auto simp: append_eq_append_conv2)
    with assms show ?thesis
      by (cases vs) (auto simp: sublist_def, metis append.assoc append_Nil2)
  next
    assume "xs @ us = a \<and> c # ys = us @ pat @ b"
    with assms show ?thesis
      by (cases us; cases pat) (auto simp: sublist_def)
  qed
next
  assume "sublist pat xs \<or> sublist pat ys"
  then show "sublist pat (xs @ c # ys)"
  proof
    assume "sublist pat xs"
    then obtain a b where "xs @ c # ys = a @ pat @ (b @ c # ys)" by (auto simp: sublist_def)
    then show ?thesis unfolding sublist_def by blast
  next
    assume "sublist pat ys"
    then obtain a b where "xs @ c # ys = (xs @ c # a) @ pat @ b" by (auto simp: sublist_def)
    then show ?thesis unfolding sublist_def by blast
  qed
qed

lemma sublist_join_part:
  "c \<notin> set pat \<Longrightarrow> ps \<noteq> [] \<Longrightarrow> sublist pat (join_on c ps) \<Longrightarrow> \<exists>p \<in> set ps. sublist pat p"
  by (induction c ps rule: join_on.induct) (auto simp: sublist_sep_iff)

lemma split_part_sublist: "p \<in> set (split_on c s) \<Longrightarrow> sublist p s"
proof (induction s arbitrary: p rule: length_induct)
  case (1 s)
  show ?case
  proof (cases "c \<in> set s")
    case False
    with 1 show ?thesis by (simp add: split_on_no_sep)
  next
    case True
    then obtain a b where s: "s = a @ c # b" and a: "c \<notin> set a" by (meson split_list_first)
    then have "p = a \<or> p \<in> set (split_on c b)" using "1.prems" by (simp add: split_on_sep)
    then have "sublist p a \<or> sublist p b" using "1.IH" s by auto
    then obtain u v where "s = u @ p @ v"
    proof
      assume "sublist p a"
      then obtain x y where "s = x @ p @ (y @ c # b)" using s by (auto simp: sublist_def)
      then show ?thesis by (rule that)
    next
      assume "sublist p b"
      then obtain x y where "s = (a @ c # x) @ p @ y" using s by (auto simp: sublist_def)
      then show ?thesis by (rule that)
    qed
    then show ?thesis unfolding sublist_def by blast
  qed
qed

lemma to_lower_join: "to_lower (join_on CHR ''/'' ps) = join_on CHR ''/'' (map to_lower ps)"
  by (induction "CHR ''/''" ps rule: join_on.induct)
    (auto simp: to_lower_def lower_char_def less_eq_char_def)

lemma to_lower_sublist:
  assumes "sublist p s"
  shows "sublist (to_lower p) (to_lower s)"
proof -
  from assms obtain a b where "s = a @ p @ b" by (auto simp: sublist_def)
  then have "to_lower s = to_lower a @ to_lower p @ to_lower b" by (simp add: to_lower_append)
  then show ?thesis unfolding sublist_def by blast
qed

lemma contains_clean:
  assumes "contains (to_lower (clean_media_rel_path v)) pat" and "CHR ''/'' \<notin> set pat" and "pat \<noteq> []"
  shows "contains (to_lower v) pat"
proof -
  let ?ps = "clean_segs [] (split_on CHR ''/'' v)"
  have sub: "sublist pat (join_on CHR ''/'' (map to_lower ?ps))"
    using assms(1) by (simp add: contains_def clean_media_join to_lower_join)
  with assms(3) have "?ps \<noteq> []" by auto
  with sub assms(2) obtain p where p: "p \<in> set ?ps" "sublist pat (to_lower p)"
    using sublist_join_part [of "CHR ''/''" pat "map to_lower ?ps"] by auto
  then have "p \<in> set (split_on CHR ''/'' v)" using set_clean_segs [of "[]"] by auto
  then show ?thesis
    using p(2) split_part_sublist to_lower_sublist sublist_order.order_trans
    unfolding contains_def by blast
qed

lemma nul_clean: "nul \<notin> set v \<Longrightarrow> nul \<notin> set (clean_media_rel_path v)"
proof -
  assume v: "nul \<notin> set v"
  have "set (clean_media_rel_path v) \<subseteq> insert CHR ''/'' (set v)"
    using set_join_on [of "CHR ''/''" "clean_segs [] (split_on CHR ''/'' v)"]
      set_clean_segs [of "[]" "split_on CHR ''/'' v"] set_split_on_part [of _ "CHR ''/''" v]
    by (fastforce simp: clean_media_join)
  with v show ?thesis by (auto simp: nul_def)
qed

section \<open>Matching\<close>

lemma best_root_eq_fold:
  "best_root p l rs st = fold (\<lambda>r (b, n). if path_within_root p r \<and> int (length r) > n
     then (Some l, int (length r)) else (b, n)) rs st"
  by (induction rs arbitrary: st) (auto split: prod.splits)

text \<open>What the loops keep: the state names the root with the largest length seen so far.\<close>

definition best_inv :: "string \<Rightarrow> (library \<times> string) list \<Rightarrow> library option \<times> int \<Rightarrow> bool" where
  "best_inv p seen st = (case st of
     (None, n) \<Rightarrow> n = -1 \<and> (\<forall>(l, r) \<in> set seen. \<not> path_within_root p r)
   | (Some l, n) \<Rightarrow> (\<exists>r. (l, r) \<in> set seen \<and> path_within_root p r \<and> n = int (length r)) \<and>
       (\<forall>(l', r') \<in> set seen. path_within_root p r' \<longrightarrow> int (length r') \<le> n))"

lemma best_root_inv:
  "best_inv p seen st \<Longrightarrow> best_inv p (seen @ map (Pair l) rs) (best_root p l rs st)"
proof (induction rs arbitrary: seen st)
  case Nil
  then show ?case by simp
next
  case (Cons r rs)
  obtain b n where st: "st = (b, n)" by (cases st)
  let ?st' = "if path_within_root p r \<and> int (length r) > n then (Some l, int (length r)) else (b, n)"
  have "best_inv p (seen @ [(l, r)]) ?st'"
  proof (cases b)
    case None
    with Cons.prems show ?thesis by (auto simp: st best_inv_def)
  next
    case (Some a)
    with Cons.prems show ?thesis by (auto simp: st best_inv_def)
  qed
  from Cons.IH [OF this] show ?case by (simp add: st)
qed

lemma best_library_inv:
  "best_inv p seen st \<Longrightarrow>
   best_inv p (seen @ concat (map (\<lambda>l. map (Pair l) (root_paths l)) ls)) (best_library p ls st)"
proof (induction ls arbitrary: seen st)
  case Nil
  then show ?case by simp
next
  case (Cons l ls)
  from Cons.IH [OF best_root_inv [OF Cons.prems]] show ?case by simp
qed

definition lib_roots_of :: "library list \<Rightarrow> (library \<times> string) list" where
  "lib_roots_of ls = concat (map (\<lambda>l. map (Pair l) (root_paths l)) ls)"

lemma lib_roots_of_iff: "(l, r) \<in> set (lib_roots_of ls) \<longleftrightarrow> l \<in> set ls \<and> r \<in> set (root_paths l)"
  by (auto simp: lib_roots_of_def)

lemma best_library_result: "best_inv p (lib_roots_of ls) (best_library p ls (None, -1))"
  using best_library_inv [of p "[]" "(None, -1)" ls] by (simp add: best_inv_def lib_roots_of_def)

lemma match_library_Some:
  assumes "match_library ls raw = Some l"
  obtains p r where "canonical_rel_path raw = Inr p" and "p \<noteq> []"
    and "l \<in> set ls" and "r \<in> set (root_paths l)" and "path_within_root p r"
    and "\<And>l' r'. l' \<in> set ls \<Longrightarrow> r' \<in> set (root_paths l') \<Longrightarrow> path_within_root p r' \<Longrightarrow>
           length r' \<le> length r"
proof -
  from assms obtain p where p: "canonical_rel_path raw = Inr p" "p \<noteq> []"
    and best: "fst (best_library p ls (None, -1)) = Some l"
    by (auto simp: match_library_def split: sum.splits if_splits)
  then obtain n where n: "best_library p ls (None, -1) = (Some l, n)"
    by (cases "best_library p ls (None, -1)") auto
  from best_library_result [of p ls] n obtain r where "(l, r) \<in> set (lib_roots_of ls)"
    "path_within_root p r" "n = int (length r)"
    "\<forall>(l', r') \<in> set (lib_roots_of ls). path_within_root p r' \<longrightarrow> int (length r') \<le> n"
    by (auto simp: best_inv_def)
  with p show ?thesis by (intro that [of p r]) (auto simp: lib_roots_of_iff)
qed

lemma match_library_None:
  "match_library ls raw = None \<longleftrightarrow>
     (\<forall>p. canonical_rel_path raw = Inr p \<longrightarrow> p \<noteq> [] \<longrightarrow>
        (\<forall>l \<in> set ls. \<forall>r \<in> set (root_paths l). \<not> path_within_root p r))"
proof (cases "canonical_rel_path raw")
  case (Inl e)
  then show ?thesis by (simp add: match_library_def)
next
  case (Inr p)
  obtain b n where bn: "best_library p ls (None, -1) = (b, n)" by fastforce
  show ?thesis
  proof (cases b)
    case None
    with bn best_library_result [of p ls] Inr show ?thesis
      by (auto simp: match_library_def best_inv_def lib_roots_of_iff)
  next
    case (Some a)
    with bn best_library_result [of p ls] obtain r where
      "a \<in> set ls" "r \<in> set (root_paths a)" "path_within_root p r"
      by (auto simp: best_inv_def lib_roots_of_iff)
    with bn Some Inr show ?thesis by (auto simp: match_library_def)
  qed
qed

subsection \<open>Roots of one path are comparable\<close>

lemma path_within_root_cases:
  "path_within_root p r \<longleftrightarrow> normalize_rel_path p \<noteq> [] \<and> normalize_rel_path r \<noteq> [] \<and>
     (normalize_rel_path p = normalize_rel_path r \<or>
      (\<exists>t. normalize_rel_path p = normalize_rel_path r @ CHR ''/'' # t))"
  by (auto simp: path_within_root_def Let_def has_prefix_append)

lemma same_path_prefixes:
  assumes "a @ CHR ''/'' # s = b @ CHR ''/'' # t"
  shows "a = b \<or> (\<exists>u. a = b @ CHR ''/'' # u) \<or> (\<exists>u. b = a @ CHR ''/'' # u)"
proof -
  from assms consider us where "a = b @ us" "us @ CHR ''/'' # s = CHR ''/'' # t"
    | us where "a @ us = b" "CHR ''/'' # s = us @ CHR ''/'' # t"
    by (auto simp: append_eq_append_conv2)
  then show ?thesis
  proof cases
    case (1 us)
    then show ?thesis by (cases us) auto
  next
    case (2 us)
    then show ?thesis by (cases us) auto
  qed
qed

lemma within_same_overlap:
  assumes "path_within_root p r" and "path_within_root p r'"
  shows "roots_overlap r r'"
proof -
  let ?n = normalize_rel_path
  from assms have ne: "?n r \<noteq> []" "?n r' \<noteq> []" by (auto simp: path_within_root_cases)
  from assms consider "?n r = ?n r'" | (l) t where "?n r = ?n r' @ CHR ''/'' # t"
    | (r) t where "?n r' = ?n r @ CHR ''/'' # t"
    using same_path_prefixes [of "?n r" _ "?n r'"] by (auto simp: path_within_root_cases) metis+
  then show ?thesis
    using ne by cases (auto simp: roots_overlap_def path_within_root_cases)
qed

lemma roots_overlap_sym: "roots_overlap a b \<longleftrightarrow> roots_overlap b a"
  by (auto simp: roots_overlap_def)

lemma roots_overlap_refl_iff: "roots_overlap r r \<longleftrightarrow> normalize_rel_path r \<noteq> []"
  by (auto simp: roots_overlap_def path_within_root_cases)

lemma path_within_root_trans:
  "path_within_root p r \<Longrightarrow> path_within_root r r' \<Longrightarrow> path_within_root p r'"
  by (auto simp: path_within_root_cases)

section \<open>Segments\<close>

lemma normalize_safe:
  "safe_rel p \<Longrightarrow> trim_space p = p \<Longrightarrow> normalize_rel_path p = p"
  using safe_rel_seg [of p "''.''"] safe_rel_no_lead [of p]
  by (cases p) (auto simp: normalize_rel_path_def Let_def trim_prefix_def has_prefix_append)

lemma prefix_split_iff:
  assumes "p \<noteq> []" and "r \<noteq> []"
  shows "prefix (split_on CHR ''/'' r) (split_on CHR ''/'' p) \<longleftrightarrow> p = r \<or> has_prefix p (r @ ''/'')"
proof
  assume "prefix (split_on CHR ''/'' r) (split_on CHR ''/'' p)"
  then obtain qs where qs: "split_on CHR ''/'' p = split_on CHR ''/'' r @ qs"
    by (auto simp: prefix_def)
  show "p = r \<or> has_prefix p (r @ ''/'')"
  proof (cases "qs = []")
    case True
    with qs have "join_on CHR ''/'' (split_on CHR ''/'' p) = join_on CHR ''/'' (split_on CHR ''/'' r)"
      by simp
    then show ?thesis by simp
  next
    case False
    then have "join_on CHR ''/'' (split_on CHR ''/'' r @ qs) = r @ CHR ''/'' # join_on CHR ''/'' qs"
      by (simp add: join_on_append)
    with qs have "p = r @ CHR ''/'' # join_on CHR ''/'' qs" by (metis join_split)
    then show ?thesis by (auto simp: has_prefix_append)
  qed
next
  assume "p = r \<or> has_prefix p (r @ ''/'')"
  then show "prefix (split_on CHR ''/'' r) (split_on CHR ''/'' p)"
    by (auto simp: has_prefix_append split_on_append_sep prefix_def)
qed

section \<open>Properties\<close>

text \<open>C8. Whatever a client sends, with any amount of percent-encoding, an accepted canonical path is
  empty or a slash-separated list of non-empty elements none of which is \<open>.\<close> or \<open>..\<close>; it holds no
  null byte and no residual \<open>%2e\<close> or \<open>%2f\<close>.\<close>

theorem canonical_rel_path_safe:
  assumes "canonical_rel_path raw = Inr p"
  shows "safe_rel p \<and> nul \<notin> set p \<and> \<not> has_residual_path_encoding p"
proof (cases "normalize_rel_path raw = []")
  case True
  with assms show ?thesis
    by (auto simp: canonical_cases has_residual_path_encoding_def contains_def Let_def to_lower_def)
next
  case False
  with assms obtain v where v: "unescape_path_limited (normalize_rel_path raw) = Inr v"
    and p: "p = clean_media_rel_path v"
    by (auto simp: canonical_cases split: sum.splits)
  then have "\<not> has_residual_path_encoding v" and "\<not> contains v [nul]"
    by (auto simp: unescape_path_limited_def split: sum.splits if_splits)
  moreover from this(2) have "nul \<notin> set v"
    by (auto simp: contains_def sublist_def in_set_conv_decomp)
  ultimately show ?thesis
    using contains_clean [of v] nul_clean [of v] request_cleaner.norm_safe
    by (auto simp: p has_residual_path_encoding_def Let_def)
qed

theorem canonical_rel_path_safe_witness:
  "canonical_rel_path ''/lib/..%2fother//./file'' = Inr ''other/file'' \<and> safe_rel ''other/file''"
proof -
  have "canonical_rel_path ''/lib/..%2fother//./file'' = Inr ''other/file''" by code_simp
  with canonical_rel_path_safe [OF this] show ?thesis by simp
qed

text \<open>The only paths \<open>CanonicalRelPath\<close> refuses are those whose percent-encoding is malformed or
  still hides a dot, a slash or a null byte after two rounds: the later check for \<open>..\<close> in the cleaned
  path can never fire, because cleaning the rooted path has already removed every \<open>..\<close>.\<close>

lemma canonical_rel_path_refuses:
  "(\<exists>e. canonical_rel_path raw = Inl e) \<longleftrightarrow>
     normalize_rel_path raw \<noteq> [] \<and>
     (case unescape_rounds 2 (normalize_rel_path raw) of
        Inl _ \<Rightarrow> True
      | Inr v \<Rightarrow> has_residual_path_encoding v \<or> nul \<in> set v)"
proof -
  have "contains v [nul] \<longleftrightarrow> nul \<in> set v" for v
    by (auto simp: contains_def sublist_def in_set_conv_decomp)
  then show ?thesis
    by (simp add: canonical_cases unescape_path_limited_def max_unescape_rounds_def split: sum.splits)
qed

text \<open>Canonicalising a canonical path again leaves it as it is, provided it holds no percent sign
  and does not begin or end with white space. Every permission check canonicalises its path once in
  the HTTP layer and again in the service and in \<open>MatchLibrary\<close>.\<close>

lemma canonical_rel_path_stable:
  assumes "canonical_rel_path raw = Inr p" and "CHR ''%'' \<notin> set p" and "trim_space p = p"
  shows "canonical_rel_path p = Inr p"
proof (cases "p = []")
  case True
  have "canonical_rel_path [] = Inr []" by code_simp
  with True show ?thesis by simp
next
  case False
  from canonical_rel_path_safe [OF assms(1)] have safe: "safe_rel p" and nul: "nul \<notin> set p"
    and res: "\<not> has_residual_path_encoding p" by auto
  have norm: "normalize_rel_path p = p" by (rule normalize_safe [OF safe assms(3)])
  have "\<not> contains p [nul]" using nul by (auto simp: contains_def sublist_def)
  then have "unescape_path_limited p = Inr p"
    using path_unescape_id [OF assms(2)] res
    by (simp add: unescape_path_limited_def max_unescape_rounds_def numeral_2_eq_2)
  with norm False request_cleaner.norm_id [OF safe] show ?thesis by (simp add: canonical_cases)
qed

theorem canonical_rel_path_stable_witness:
  "canonical_rel_path ''movies/a%20b/../c.mkv'' = Inr ''movies/c.mkv'' \<and>
   canonical_rel_path ''movies/c.mkv'' = Inr ''movies/c.mkv''"
proof -
  have h: "canonical_rel_path ''movies/a%20b/../c.mkv'' = Inr ''movies/c.mkv''" by code_simp
  have "trim_space ''movies/c.mkv'' = ''movies/c.mkv''" by code_simp
  with h canonical_rel_path_stable [OF h] show ?thesis by simp
qed

text \<open>Without those two provisos a second canonicalisation changes the path: an encoded leading
  blank and a doubly encoded percent sign each survive the first pass and are removed by the second,
  so the library looked up need not be the one of the canonical path.\<close>

lemma canonical_rel_path_not_idempotent:
  "canonical_rel_path ''%20lib/f.mkv'' = Inr '' lib/f.mkv'' \<and>
   canonical_rel_path '' lib/f.mkv'' = Inr ''lib/f.mkv'' \<and>
   canonical_rel_path ''%25252561/f.mkv'' = Inr ''%2561/f.mkv'' \<and>
   canonical_rel_path ''%2561/f.mkv'' = Inr ''a/f.mkv''"
  by code_simp

text \<open>\<open>PathWithinRoot\<close> compares whole path elements: for cleaned paths it holds exactly when the
  elements of the root are a prefix of the elements of the path, so \<open>movies2/x\<close> is not within
  \<open>movies\<close>.\<close>

lemma path_within_root_elements:
  assumes "safe_rel p" and "safe_rel r" and "trim_space p = p" and "trim_space r = r"
  shows "path_within_root p r \<longleftrightarrow>
     p \<noteq> [] \<and> r \<noteq> [] \<and> prefix (split_on CHR ''/'' r) (split_on CHR ''/'' p)"
  using assms prefix_split_iff [of p r]
  by (auto simp: path_within_root_def normalize_safe Let_def)

theorem path_within_root_elements_witness:
  "path_within_root ''movies/a/b.mkv'' ''movies/a'' \<and> \<not> path_within_root ''movies2/b.mkv'' ''movies''"
proof -
  have t: "trim_space ''movies/a/b.mkv'' = ''movies/a/b.mkv''" "trim_space ''movies/a'' = ''movies/a''"
    "trim_space ''movies2/b.mkv'' = ''movies2/b.mkv''" "trim_space ''movies'' = ''movies''"
    by code_simp+
  have s: "safe_rel ''movies/a/b.mkv''" "safe_rel ''movies/a''" "safe_rel ''movies2/b.mkv''"
    "safe_rel ''movies''" by (simp_all add: safe_rel_def good_seg_def)
  show ?thesis
    using path_within_root_elements [OF s(1,2) t(1,2)] path_within_root_elements [OF s(3,4) t(3,4)]
    by simp
qed

text \<open>\<open>MatchLibrary\<close> answers with a library one of whose roots contains the canonical path and no
  root of any library that contains the path is longer; it answers that there is no library exactly
  when the path is refused, is the media root, or lies under no root.\<close>

lemma match_library_longest_root:
  "(case match_library ls raw of
      Some l \<Rightarrow> \<exists>p r. canonical_rel_path raw = Inr p \<and> p \<noteq> [] \<and>
        l \<in> set ls \<and> r \<in> set (root_paths l) \<and> path_within_root p r \<and>
        (\<forall>l' \<in> set ls. \<forall>r' \<in> set (root_paths l'). path_within_root p r' \<longrightarrow> length r' \<le> length r)
    | None \<Rightarrow> \<forall>p. canonical_rel_path raw = Inr p \<longrightarrow> p \<noteq> [] \<longrightarrow>
        (\<forall>l \<in> set ls. \<forall>r \<in> set (root_paths l). \<not> path_within_root p r))"
proof (cases "match_library ls raw")
  case None
  show ?thesis
    unfolding None option.case by (rule match_library_None [THEN iffD1]) (rule None)
next
  case (Some l)
  then obtain p r where "canonical_rel_path raw = Inr p" "p \<noteq> []" "l \<in> set ls"
    "r \<in> set (root_paths l)" "path_within_root p r"
    "\<And>l' r'. l' \<in> set ls \<Longrightarrow> r' \<in> set (root_paths l') \<Longrightarrow> path_within_root p r' \<Longrightarrow> length r' \<le> length r"
    by (rule match_library_Some) blast
  with Some show ?thesis by auto
qed

theorem match_library_longest_root_witness:
  "match_library [\<lparr>lib_id = ''1'', lib_slug = [], lib_rel_path = [], lib_name = [], lib_type = TypeFilm, lib_roots = [''tv'']\<rparr>,
      \<lparr>lib_id = ''2'', lib_slug = [], lib_rel_path = [], lib_name = [], lib_type = TypeFilm, lib_roots = [''tv/kids'']\<rparr>]
      ''tv/kids/a.mkv'' \<noteq> None \<and>
   (\<exists>p. canonical_rel_path ''tv/kids/a.mkv'' = Inr p \<and> p \<noteq> [])"
proof -
  let ?ls = "[\<lparr>lib_id = ''1'', lib_slug = [], lib_rel_path = [], lib_name = [], lib_type = TypeFilm, lib_roots = [''tv'']\<rparr>,
      \<lparr>lib_id = ''2'', lib_slug = [], lib_rel_path = [], lib_name = [], lib_type = TypeFilm, lib_roots = [''tv/kids'']\<rparr>]"
  have "match_library ?ls ''tv/kids/a.mkv'' \<noteq> None" by code_simp
  with match_library_longest_root [where ls = ?ls and raw = "''tv/kids/a.mkv''"] show ?thesis by auto
qed

end
