(* ===== verification/AccessStore.thy ===== *)
theory AccessStore
  imports Complex_Main AccessPath "HOL-Library.List_Lexorder"
begin

text \<open>
  The library registry: \<open>internal/access/postgres/store.go\<close> over the tables of
  \<open>internal/db/migrations\<close>. A statement is one database call that can fail by the fault schedule; a
  violated constraint is the error \<open>AccessDbError\<close>, as for any driver error; \<open>transaction\<close> undoes the
  statements of a failed \<open>Transaction\<close> body. Metadata is kept by its key and an
  opaque body. Text is compared bytewise where the code sorts by name or root.
\<close>

section \<open>Tables\<close>

record lib_row =
  lr_id :: string
  lr_slug :: string
  lr_name :: string
  lr_type :: library_type

record root_row =
  rr_lib :: string
  rr_path :: string

record permissions =
  p_create :: bool
  p_read :: bool
  p_update :: bool
  p_delete :: bool

definition perms_empty :: "permissions \<Rightarrow> bool" where
  "perms_empty p \<longleftrightarrow> \<not> p_create p \<and> \<not> p_read p \<and> \<not> p_update p \<and> \<not> p_delete p"

record grant_row =
  gr_user :: string
  gr_lib :: string
  gr_perms :: permissions

record grant_input =
  gi_lib :: string
  gi_perms :: permissions

text \<open>The key of \<open>media_metadata\<close> (no user), \<open>watch_state\<close> and \<open>favorites\<close>, and their rows.
  Seconds are rationals where the code has \<open>float64\<close>, times are nanoseconds.\<close>

record media_row =
  mr_user :: string
  mr_lib :: string
  mr_path :: string

record meta_row = media_row +
  mt_body :: string

record watch_row = media_row +
  wr_watched :: bool
  wr_position :: "rat option"
  wr_duration :: "rat option"
  wr_watched_at :: int
  wr_updated_at :: int

record fav_row = media_row +
  fv_created_at :: int

record access_world = env +
  libs :: "lib_row list"
  roots :: "root_row list"
  grants :: "grant_row list"
  accounts :: "string list"
  metas :: "meta_row list"
  watches :: "watch_row list"
  favs :: "fav_row list"

type_synonym 'a acc_m = "(access_world, access_err, 'a) m"

definition adb :: "'a acc_m \<Rightarrow> 'a acc_m" where
  "adb f = io_call AccessDbError f"

section \<open>Reading libraries\<close>

definition roots_of :: "access_world \<Rightarrow> string \<Rightarrow> string list" where
  "roots_of w i = sort (map rr_path (filter (\<lambda>r. rr_lib r = i) (roots w)))"

definition library_from_model :: "access_world \<Rightarrow> lib_row \<Rightarrow> library" where
  "library_from_model w r = (let rs = roots_of w (lr_id r) in
     \<lparr>lib_id = lr_id r, lib_slug = lr_slug r, lib_rel_path = (case rs of [] \<Rightarrow> [] | x # _ \<Rightarrow> x),
      lib_name = lr_name r, lib_type = lr_type r, lib_roots = rs\<rparr>)"

definition store_list_libraries :: "library list acc_m" where
  "store_list_libraries = adb (gets (\<lambda>w. map (library_from_model w) (asc_by lr_name (libs w))))"

definition store_get_library :: "string \<Rightarrow> library acc_m" where
  "store_get_library i = adb (\<lambda>w. case find (\<lambda>r. lr_id r = i) (libs w) of
     None \<Rightarrow> (Inl ErrLibraryNotFound, w) | Some r \<Rightarrow> (Inr (library_from_model w r), w))"

definition library_id_for_exact_root :: "string \<Rightarrow> string acc_m" where
  "library_id_for_exact_root rel = adb (gets (\<lambda>w. case find (\<lambda>r. rr_path r = rel) (roots w) of
     None \<Rightarrow> [] | Some r \<Rightarrow> rr_lib r))"

definition conflicting_library_id :: "string \<Rightarrow> string \<Rightarrow> string acc_m" where
  "conflicting_library_id dest rel = adb (gets (\<lambda>w.
     case find (\<lambda>r. rr_lib r \<noteq> dest \<and> roots_overlap (rr_path r) rel) (roots w) of
       None \<Rightarrow> [] | Some r \<Rightarrow> rr_lib r))"

section \<open>Patterns of LIKE\<close>

fun like :: "string \<Rightarrow> string \<Rightarrow> bool" where
  "like [] s \<longleftrightarrow> s = []"
| "like (c # p) s \<longleftrightarrow>
     (if c = CHR ''%'' then like p s \<or> (case s of [] \<Rightarrow> False | _ # t \<Rightarrow> like (c # p) t)
      else if c = CHR ''_'' then (case s of [] \<Rightarrow> False | _ # t \<Rightarrow> like p t)
      else if c = CHR 0x5C then
        (case p of [] \<Rightarrow> False | d # q \<Rightarrow> (case s of [] \<Rightarrow> False | x # t \<Rightarrow> x = d \<and> like q t))
      else (case s of [] \<Rightarrow> False | x # t \<Rightarrow> x = c \<and> like p t))"

section \<open>Slugs\<close>

fun decimal :: "nat \<Rightarrow> string" where
  "decimal n = (if n < 10 then [char_of (48 + n)] else decimal (n div 10) @ [char_of (48 + n mod 10)])"

declare decimal.simps [simp del]

definition allocate_slug :: "string \<Rightarrow> string acc_m" where
  "allocate_slug base = (let slug = (if base = [] then ''library'' else base) in
     bnd (adb (gets (\<lambda>w. filter (\<lambda>s. s = slug \<or> like (slug @ ''-%'') s) (map lr_slug (libs w))))) (\<lambda>used.
     if slug \<notin> set used then ret slug
     else case find (\<lambda>i. slug @ ''-'' @ decimal i \<notin> set used) [2..<1000] of
       Some i \<Rightarrow> ret (slug @ ''-'' @ decimal i)
     | None \<Rightarrow> throw ErrLibrarySlugConflict))"

section \<open>Writing libraries\<close>

text \<open>The identity is drawn by the database (\<open>gen_random_uuid\<close>): never empty and never taken.\<close>

definition insert_library :: "string \<Rightarrow> string \<Rightarrow> library_type \<Rightarrow> string acc_m" where
  "insert_library slug name ty = adb (bnd (draw AccessDbError) (\<lambda>i w.
     if i = [] \<or> (\<exists>r \<in> set (libs w). lr_id r = i \<or> lr_slug r = slug) \<or> ty = TypeUnset then (Inl AccessDbError, w)
     else (Inr i, w\<lparr>libs := libs w @ [\<lparr>lr_id = i, lr_slug = slug, lr_name = name, lr_type = ty\<rparr>]\<rparr>)))"

definition store_create_library :: "library \<Rightarrow> library acc_m" where
  "store_create_library l = bnd (allocate_slug (lib_slug l)) (\<lambda>slug.
     bnd (insert_library slug (lib_name l) (if lib_type l = TypeUnset then TypeOther else lib_type l)) (\<lambda>i.
     store_get_library i))"

text \<open>Deleting a library row cascades to everything that references it.\<close>

definition drop_library :: "string \<Rightarrow> access_world \<Rightarrow> access_world" where
  "drop_library i w = w\<lparr>libs := delete_where (\<lambda>r. lr_id r = i) (libs w),
     roots := delete_where (\<lambda>r. rr_lib r = i) (roots w),
     grants := delete_where (\<lambda>g. gr_lib g = i) (grants w),
     metas := delete_where (\<lambda>r. mr_lib r = i) (metas w),
     watches := delete_where (\<lambda>r. mr_lib r = i) (watches w),
     favs := delete_where (\<lambda>r. mr_lib r = i) (favs w)\<rparr>"

definition store_delete_library :: "string \<Rightarrow> unit acc_m" where
  "store_delete_library i = adb (\<lambda>w. if \<forall>r \<in> set (libs w). lr_id r \<noteq> i then (Inl ErrLibraryNotFound, w)
     else (Inr (), drop_library i w))"

definition delete_library_if_empty :: "string \<Rightarrow> unit acc_m" where
  "delete_library_if_empty i = bnd (adb (gets (\<lambda>w. length (filter (\<lambda>r. rr_lib r = i) (roots w))))) (\<lambda>n.
     if n > 0 then ret () else adb (modify (drop_library i)))"

definition update_library_row :: "string \<Rightarrow> string option \<Rightarrow> library_type option \<Rightarrow> unit acc_m" where
  "update_library_row i name ty = adb (\<lambda>w.
     if \<forall>r \<in> set (libs w). lr_id r \<noteq> i then (Inl ErrLibraryNotFound, w)
     else if ty = Some TypeUnset then (Inl AccessDbError, w)
     else (Inr (), w\<lparr>libs := update_where (\<lambda>r. lr_id r = i)
       (\<lambda>r. r\<lparr>lr_name := (case name of None \<Rightarrow> lr_name r | Some n \<Rightarrow> n),
              lr_type := (case ty of None \<Rightarrow> lr_type r | Some t \<Rightarrow> t)\<rparr>) (libs w)\<rparr>))"

definition store_update_library :: "string \<Rightarrow> string option \<Rightarrow> library_type option \<Rightarrow> library acc_m" where
  "store_update_library i name ty =
     (if name = None \<and> ty = None then throw ErrInvalidLibraryPatch
      else seqm (update_library_row i name ty) (store_get_library i))"

section \<open>Moving and deleting the rows under a root\<close>

definition under_prefix :: "string \<Rightarrow> string \<Rightarrow> 'z media_row_scheme \<Rightarrow> bool" where
  "under_prefix lib pre r \<longleftrightarrow> mr_lib r = lib \<and> (mr_path r = pre \<or> like (pre @ ''/%'') (mr_path r))"

definition reassign_rows :: "string \<Rightarrow> string \<Rightarrow> string
    \<Rightarrow> 'z media_row_scheme list \<Rightarrow> 'z media_row_scheme list" where
  "reassign_rows src dest pre rows = update_where
     (\<lambda>r. under_prefix src pre r \<and>
        \<not> (\<exists>d \<in> set rows. mr_lib d = dest \<and> mr_user d = mr_user r \<and> mr_path d = mr_path r))
     (\<lambda>r. r\<lparr>mr_lib := dest\<rparr>) rows"

definition delete_prefix_rows :: "string \<Rightarrow> string \<Rightarrow> unit acc_m" where
  "delete_prefix_rows lib pre =
     seqm (adb (modify (\<lambda>w. w\<lparr>metas := delete_where (under_prefix lib pre) (metas w)\<rparr>)))
    (seqm (adb (modify (\<lambda>w. w\<lparr>watches := delete_where (under_prefix lib pre) (watches w)\<rparr>)))
          (adb (modify (\<lambda>w. w\<lparr>favs := delete_where (under_prefix lib pre) (favs w)\<rparr>))))"

definition reassign_prefix :: "string \<Rightarrow> string \<Rightarrow> string \<Rightarrow> unit acc_m" where
  "reassign_prefix src dest pre =
     seqm (adb (modify (\<lambda>w. w\<lparr>metas := reassign_rows src dest pre (metas w)\<rparr>)))
    (seqm (adb (modify (\<lambda>w. w\<lparr>watches := reassign_rows src dest pre (watches w)\<rparr>)))
    (seqm (adb (modify (\<lambda>w. w\<lparr>favs := reassign_rows src dest pre (favs w)\<rparr>)))
          (delete_prefix_rows src pre)))"

section \<open>Roots\<close>

definition delete_root :: "string \<Rightarrow> string \<Rightarrow> unit acc_m" where
  "delete_root lib rel = adb (modify (\<lambda>w.
     w\<lparr>roots := delete_where (\<lambda>r. rr_lib r = lib \<and> rr_path r = rel) (roots w)\<rparr>))"

definition insert_root :: "string \<Rightarrow> string \<Rightarrow> unit acc_m" where
  "insert_root lib rel = adb (\<lambda>w.
     if (\<exists>r \<in> set (roots w). rr_path r = rel) \<or> (\<forall>l \<in> set (libs w). lr_id l \<noteq> lib)
     then (Inl AccessDbError, w)
     else (Inr (), w\<lparr>roots := roots w @ [\<lparr>rr_lib = lib, rr_path = rel\<rparr>]\<rparr>))"

text \<open>The first loop of \<open>AddRoot\<close>: True when the library already has the root.\<close>

fun check_dest_roots :: "string \<Rightarrow> string list \<Rightarrow> access_err + bool" where
  "check_dest_roots rel [] = Inr False"
| "check_dest_roots rel (e # es) =
     (if e = rel then Inr True
      else if path_within_root rel e then Inl ErrLibraryRootConflict
      else check_dest_roots rel es)"

definition claim_root :: "string \<Rightarrow> string \<Rightarrow> string \<Rightarrow> unit acc_m" where
  "claim_root lib rel owner =
     (if owner \<noteq> [] \<and> owner \<noteq> lib
      then seqm (reassign_prefix owner lib rel) (seqm (delete_root owner rel) (delete_library_if_empty owner))
      else if owner = []
      then bnd (conflicting_library_id lib rel) (\<lambda>c. failif (c \<noteq> []) ErrLibraryRootConflict)
      else ret ())"

definition add_root_txn :: "string \<Rightarrow> string \<Rightarrow> unit acc_m" where
  "add_root_txn lib rel = bnd (store_get_library lib) (\<lambda>dest.
     case check_dest_roots rel (root_paths dest) of
       Inl e \<Rightarrow> throw e
     | Inr present \<Rightarrow>
         if present then ret ()
         else bnd (library_id_for_exact_root rel) (\<lambda>owner.
           seqm (claim_root lib rel owner)
          (seqm (eachm (\<lambda>e. whenm (path_within_root e rel \<and> e \<noteq> rel) (delete_root lib e)) (root_paths dest))
            (insert_root lib rel))))"

definition store_add_root :: "string \<Rightarrow> string \<Rightarrow> library acc_m" where
  "store_add_root lib rel = seqm (transaction (add_root_txn lib rel)) (store_get_library lib)"

definition remove_root_txn :: "string \<Rightarrow> string \<Rightarrow> nat acc_m" where
  "remove_root_txn lib rel =
     seqm (adb (\<lambda>w. if \<forall>r \<in> set (roots w). \<not> (rr_lib r = lib \<and> rr_path r = rel)
        then (Inl ErrLibraryRootNotFound, w)
        else (Inr (), w\<lparr>roots := delete_where (\<lambda>r. rr_lib r = lib \<and> rr_path r = rel) (roots w)\<rparr>)))
    (seqm (delete_prefix_rows lib rel)
    (bnd (adb (gets (\<lambda>w. length (filter (\<lambda>r. rr_lib r = lib) (roots w))))) (\<lambda>n.
       seqm (whenm (n = 0) (adb (modify (drop_library lib)))) (ret n))))"

definition store_remove_root :: "string \<Rightarrow> string \<Rightarrow> library acc_m" where
  "store_remove_root lib rel = bnd (transaction (remove_root_txn lib rel)) (\<lambda>n.
     if n = 0 then throw ErrLibraryNotFound else store_get_library lib)"

definition store_upsert_library :: "library \<Rightarrow> library acc_m" where
  "store_upsert_library l =
     (let r0 = normalize_rel_path (lib_rel_path l);
          root = (if r0 = [] then (case lib_roots l of [] \<Rightarrow> [] | x # _ \<Rightarrow> normalize_rel_path x) else r0)
      in if root = [] then throw ErrInvalidLibraryRoot
         else bnd (library_id_for_exact_root root) (\<lambda>existing.
           if existing \<noteq> [] then store_get_library existing
           else bnd (store_create_library
               (l\<lparr>lib_slug := (if lib_slug l = [] then root else lib_slug l),
                  lib_name := (if lib_name l = [] then root else lib_name l)\<rparr>)) (\<lambda>created.
             store_add_root (lib_id created) root)))"

section \<open>Grants\<close>

definition get_user_grant_map :: "string \<Rightarrow> (string \<rightharpoonup> permissions) acc_m" where
  "get_user_grant_map uid = adb (gets (\<lambda>w. map_of (rev (map (\<lambda>g. (gr_lib g, gr_perms g))
     (filter (\<lambda>g. gr_user g = uid) (grants w))))))"

definition insert_grant :: "string \<Rightarrow> grant_input \<Rightarrow> unit acc_m" where
  "insert_grant uid g = adb (\<lambda>w.
     if (\<exists>x \<in> set (grants w). gr_user x = uid \<and> gr_lib x = gi_lib g) \<or>
        (\<forall>l \<in> set (libs w). lr_id l \<noteq> gi_lib g) \<or> uid \<notin> set (accounts w) \<or> perms_empty (gi_perms g)
     then (Inl AccessDbError, w)
     else (Inr (), w\<lparr>grants := grants w @ [\<lparr>gr_user = uid, gr_lib = gi_lib g, gr_perms = gi_perms g\<rparr>]\<rparr>))"

definition replace_user_grants :: "string \<Rightarrow> grant_input list \<Rightarrow> unit acc_m" where
  "replace_user_grants uid gs = transaction (seqm
     (adb (modify (\<lambda>w. w\<lparr>grants := delete_where (\<lambda>g. gr_user g = uid) (grants w)\<rparr>)))
     (eachm (\<lambda>g. if perms_empty (gi_perms g) then ret () else insert_grant uid g) gs))"

end
