(* ===== verification/MediaFs.thy ===== *)
theory MediaFs
  imports AccessPath
begin

text \<open>
  The media file system service: \<open>internal/mediafs/service.go\<close>, \<open>page.go\<close> and the path checks of
  \<open>trash.go\<close>. The disk is not modelled: what \<open>filepath.EvalSymlinks\<close> answers for an absolute path
  is the argument \<open>eval\<close> of \<open>resolve\<close>, an arbitrary function, so the confinement theorem holds for
  every set of symbolic links.
\<close>

section \<open>Joining paths (path.Join, filepath.Join)\<close>

text \<open>\<open>Clean\<close> of a relative path keeps the \<open>..\<close> elements it cannot resolve.\<close>

fun clean_rel_segs :: "string list \<Rightarrow> string list \<Rightarrow> string list" where
  "clean_rel_segs acc [] = rev acc"
| "clean_rel_segs acc (s # ss) =
     (if s = [] \<or> s = ''.'' then clean_rel_segs acc ss
      else if s = ''..'' then
        (case acc of
           [] \<Rightarrow> clean_rel_segs [s] ss
         | a # acc' \<Rightarrow> if a = ''..'' then clean_rel_segs (s # acc) ss else clean_rel_segs acc' ss)
      else clean_rel_segs (s # acc) ss)"

definition clean_path :: "string \<Rightarrow> string" where
  "clean_path p =
     (if has_prefix p ''/'' then clean_rooted p
      else let ss = clean_rel_segs [] (split_on CHR ''/'' p)
           in if ss = [] then ''.'' else join_on CHR ''/'' ss)"

definition path_join :: "string list \<Rightarrow> string" where
  "path_join elems =
     (let es = filter (\<lambda>e. e \<noteq> []) elems
      in if es = [] then [] else clean_path (join_on CHR ''/'' es))"

section \<open>Resolving a request path\<close>

datatype media_err = MediaInvalidPath | MediaPathOutsideRoot | MediaSymlinkError

datatype symlink_result = SymTarget string | SymNotExist | SymFailed

definition is_within_root :: "string \<Rightarrow> string \<Rightarrow> bool" where
  "is_within_root root candidate =
     (if candidate = root then True
      else let prefix = (if has_suffix root ''/'' then root else root @ ''/'')
           in has_prefix candidate prefix)"

definition resolve_rel :: "string \<Rightarrow> string" where
  "resolve_rel v =
     (let clean = clean_rooted (CHR ''/'' # v)
      in if clean = ''.'' \<or> clean = ''/'' then [] else trim_prefix clean ''/'')"

definition resolve :: "(string \<Rightarrow> symlink_result) \<Rightarrow> string \<Rightarrow> string \<Rightarrow> media_err + string \<times> string" where
  "resolve eval root raw =
     (case path_unescape (trim_prefix raw ''/'') of
        None \<Rightarrow> Inl MediaInvalidPath
      | Some v \<Rightarrow>
          if contains v [nul] then Inl MediaInvalidPath
          else let rel = resolve_rel v; abs = path_join [root, rel] in
            if \<not> is_within_root root abs then Inl MediaPathOutsideRoot
            else (case eval abs of
              SymFailed \<Rightarrow> Inl MediaSymlinkError
            | SymTarget target \<Rightarrow>
                (if is_within_root root target then Inr (target, rel) else Inl MediaPathOutsideRoot)
            | SymNotExist \<Rightarrow>
                (if is_within_root root abs then Inr (abs, rel) else Inl MediaPathOutsideRoot)))"

interpretation fs_cleaner: media_cleaner resolve_rel
  by unfold_locales
    (simp_all add: resolve_rel_def clean_rooted_def Let_def trim_prefix_def has_prefix_def
      safe_rel_clean clean_safe_id)

section \<open>Actions, breadcrumbs and names\<close>

definition is_video_extension :: "string \<Rightarrow> bool" where
  "is_video_extension ext =
     (to_lower ext \<in> set [''.mp4'', ''.mkv'', ''.webm'', ''.avi'', ''.mov'', ''.m4v'', ''.wmv'',
        ''.mpg'', ''.mpeg''])"

definition escape_path_segments :: "string \<Rightarrow> string" where
  "escape_path_segments rel =
     (if rel = [] then [] else join_on CHR ''/'' (map path_escape (split_on CHR ''/'' rel)))"

record action =
  act_play :: string
  act_thumbnail :: string
  act_download :: string
  act_can_delete :: bool

text \<open>An entry of a listing; \<open>it_watched\<close> and \<open>it_favorited\<close> are the optional flags.\<close>

datatype item = Item (it_name: string) (it_path: string) (it_is_dir: bool) (it_size: int)
  (it_extension: string) (it_mime: string) (it_watched: "bool option") (it_favorited: "bool option")
  (it_actions: action) (it_children: "item list")

definition build_actions :: "string \<Rightarrow> string \<Rightarrow> string \<Rightarrow> bool \<Rightarrow> action" where
  "build_actions rel mime ext is_dir =
     (if is_dir then \<lparr>act_play = [], act_thumbnail = [], act_download = [], act_can_delete = False\<rparr>
      else let escaped = escape_path_segments rel;
               a0 = \<lparr>act_play = [], act_thumbnail = [], act_download = ''/api/download/'' @ escaped,
                        act_can_delete = False\<rparr>;
               a1 = (if has_prefix mime ''video/'' \<or> is_video_extension ext
                     then a0\<lparr>act_play := ''/api/play/'' @ escaped @ ''/master.m3u8'',
                             act_thumbnail := ''/api/thumbnail/'' @ escaped\<rparr>
                     else a0)
           in if has_prefix mime ''image/''
              then a1\<lparr>act_thumbnail := ''/api/thumbnail/'' @ escaped\<rparr> else a1)"

fun breadcrumb_loop :: "string \<Rightarrow> string list \<Rightarrow> (string \<times> string) list" where
  "breadcrumb_loop current [] = []"
| "breadcrumb_loop current (part # parts) =
     (let current' = (if current = [] then part else path_join [current, part])
      in (part, current') # breadcrumb_loop current' parts)"

definition build_breadcrumbs :: "string \<Rightarrow> (string \<times> string) list" where
  "build_breadcrumbs rel =
     (''media'', []) # (if rel = [] then [] else breadcrumb_loop [] (split_on CHR ''/'' rel))"

definition folder_name :: "string \<Rightarrow> string" where
  "folder_name rel = (if rel = [] then ''media'' else last (split_on CHR ''/'' rel))"

section \<open>Pages\<close>

record page_opts =
  po_limit :: int
  po_offset :: int

record page_meta =
  pm_total :: int
  pm_limit :: int
  pm_offset :: int

definition normalize_page_opts :: "page_opts \<Rightarrow> page_opts" where
  "normalize_page_opts o1 =
     (let o2 = (if po_limit o1 \<le> 0 then o1\<lparr>po_limit := 28\<rparr> else o1);
          o3 = (if po_limit o2 > 100 then o2\<lparr>po_limit := 100\<rparr> else o2)
      in if po_offset o3 < 0 then o3\<lparr>po_offset := 0\<rparr> else o3)"

definition slice_page :: "'a list \<Rightarrow> page_opts \<Rightarrow> 'a list \<times> page_meta" where
  "slice_page items opts0 =
     (let opts = normalize_page_opts opts0; total = int (length items);
          meta = \<lparr>pm_total = total, pm_limit = po_limit opts, pm_offset = po_offset opts\<rparr>
      in if po_offset opts \<ge> total then ([], meta)
         else let end_ix = min (po_offset opts + po_limit opts) total
              in (take (nat (end_ix - po_offset opts)) (drop (nat (po_offset opts)) items), meta))"

section \<open>Trash paths\<close>

definition is_trash_path :: "string \<Rightarrow> bool" where
  "is_trash_path rel =
     (let p = trim_prefix rel ''/'' in p = ''.trash'' \<or> has_prefix p ''.trash/'')"

definition validate_trash_item_id :: "string \<Rightarrow> media_err + unit" where
  "validate_trash_item_id i =
     (if i = [] \<or> contains i ''/'' \<or> contains i ''..'' then Inl MediaInvalidPath else Inr ())"

section \<open>Lemmas\<close>

lemma clean_rooted_rooted: "has_prefix (clean_rooted p) ''/''"
  by (simp add: clean_rooted_def has_prefix_def)

lemma join_rooted_split:
  "split_on CHR ''/'' (CHR ''/'' # s) = [] # split_on CHR ''/'' s"
  by simp

text \<open>A media root is a cleaned absolute path other than the root directory.\<close>

definition media_root :: "string \<Rightarrow> bool" where
  "media_root root \<longleftrightarrow> (\<exists>ss. ss \<noteq> [] \<and> (\<forall>s \<in> set ss. good_seg s) \<and> root = CHR ''/'' # join_on CHR ''/'' ss)"

lemma path_join_root:
  assumes "media_root root" and "safe_rel rel"
  shows "path_join [root, rel] = (if rel = [] then root else root @ CHR ''/'' # rel)"
proof -
  from assms(1) obtain ss where ss: "ss \<noteq> []" "\<forall>s \<in> set ss. good_seg s"
    and root: "root = CHR ''/'' # join_on CHR ''/'' ss" by (auto simp: media_root_def)
  then have no_sep: "\<forall>s \<in> set ss. CHR ''/'' \<notin> set s" using good_segD(4) by blast
  with ss have split: "split_on CHR ''/'' root = [] # ss"
    by (simp only: root join_rooted_split) (simp add: split_join)
  show ?thesis
  proof (cases "rel = []")
    case True
    with root ss split show ?thesis
      by (simp add: path_join_def clean_path_def has_prefix_def clean_rooted_def clean_segs_id)
  next
    case False
    let ?qs = "split_on CHR ''/'' rel"
    have qs: "\<forall>s \<in> set ?qs. good_seg s" using assms(2) False by (simp add: safe_rel_def)
    have "path_join [root, rel] = clean_rooted (root @ CHR ''/'' # rel)"
      using False root by (simp add: path_join_def clean_path_def has_prefix_def)
    also have "\<dots> = CHR ''/'' # join_on CHR ''/'' (ss @ ?qs)"
      using ss qs by (simp add: clean_rooted_def split_on_append_sep split clean_segs_id ball_Un)
    also have "\<dots> = root @ CHR ''/'' # rel"
      using ss by (simp add: join_on_append root)
    finally show ?thesis using False by simp
  qed
qed

lemma media_root_no_trailing: "media_root root \<Longrightarrow> \<not> has_suffix root ''/''"
proof
  assume "media_root root" and suf: "has_suffix root ''/''"
  then obtain ss where ss: "ss \<noteq> []" "\<forall>s \<in> set ss. good_seg s"
    and root: "root = CHR ''/'' # join_on CHR ''/'' ss" by (auto simp: media_root_def)
  then have "split_on CHR ''/'' root = [] # ss"
    using good_segD(4) by (simp only: root join_rooted_split) (auto simp: split_join)
  moreover from suf obtain t where "root = t @ CHR ''/'' # []"
    by (auto simp: has_suffix_def suffix_def)
  then have "split_on CHR ''/'' root = split_on CHR ''/'' t @ [[]]"
    by (metis split_on_append_sep split_on.simps(1))
  ultimately have "last ([] # ss) = []" by (metis last_snoc)
  with ss have "[] \<in> set ss" by (metis last.simps last_in_set)
  with ss(2) show False by auto
qed

lemma within_root_self [simp]: "is_within_root root root"
  by (simp add: is_within_root_def)

lemma within_root_below: "\<not> has_suffix root ''/'' \<Longrightarrow> is_within_root root (root @ CHR ''/'' # rel)"
  by (simp add: is_within_root_def Let_def has_prefix_def)

lemma resolve_Inr:
  assumes "resolve eval root raw = Inr (full, rel)"
  obtains v where "path_unescape (trim_prefix raw ''/'') = Some v" and "nul \<notin> set v"
    and "rel = resolve_rel v" and "is_within_root root full"
    and "is_within_root root (path_join [root, rel])"
    and "eval (path_join [root, rel]) = SymTarget full \<or>
         eval (path_join [root, rel]) = SymNotExist \<and> full = path_join [root, rel]"
proof -
  from assms obtain v where v: "path_unescape (trim_prefix raw ''/'') = Some v"
    by (auto simp: resolve_def split: option.splits)
  with assms have "\<not> contains v [nul]" by (auto simp: resolve_def split: if_splits)
  then have "nul \<notin> set v" by (auto simp: contains_def sublist_def in_set_conv_decomp)
  with assms v that show ?thesis
    by (auto simp: resolve_def Let_def split: if_splits symlink_result.splits)
qed

lemma escape_split: "split_on CHR ''/'' (escape_path_segments rel) =
   (if rel = [] then [[]] else map path_escape (split_on CHR ''/'' rel))"
proof -
  have "CHR ''/'' \<notin> set (path_escape s)" for s
  proof
    assume "CHR ''/'' \<in> set (path_escape s)"
    then obtain c where "CHR ''/'' = hex_digit ((of_char c :: nat) div 16) \<or>
        CHR ''/'' = hex_digit ((of_char c :: nat) mod 16) \<or> path_unreserved CHR ''/''"
      by (auto simp: path_escape_def split: if_splits)
    moreover have "hex_val CHR ''/'' = None" by (simp add: hex_val_def)
    moreover have "\<not> path_unreserved CHR ''/''" by (simp add: path_unreserved_def)
    ultimately show False
      using hex_val_hex_digit of_char_div_16 [of c] by (metis mod_less_divisor option.distinct(1) zero_less_numeral)
  qed
  then show ?thesis by (simp add: escape_path_segments_def split_join)
qed

lemma path_unescape_escape_append:
  "path_unescape (path_escape s @ CHR ''/'' # t) = map_option (\<lambda>u. s @ CHR ''/'' # u) (path_unescape t)"
proof (induction s)
  case Nil
  then show ?case by (simp add: path_escape_def)
next
  case (Cons c s)
  show ?case
  proof (cases "path_unreserved c")
    case True
    then have "path_escape (c # s) = c # path_escape s" by (simp add: path_escape_def)
    with Cons.IH percent_reserved [OF True] show ?thesis by (simp add: option.map_comp comp_def)
  next
    case False
    then have "path_escape (c # s) =
      CHR ''%'' # hex_digit (of_char c div 16) # hex_digit (of_char c mod 16) # path_escape s"
      by (simp add: path_escape_def)
    moreover have "char_of (16 * ((of_char c :: nat) div 16) + of_char c mod 16) = c"
      by (simp add: mult_div_mod_eq)
    ultimately show ?thesis
      using Cons.IH of_char_div_16 [of c]
      by (simp add: hex_val_hex_digit option.map_comp comp_def)
  qed
qed

lemma path_unescape_join_escape:
  "path_unescape (join_on CHR ''/'' (map path_escape ps)) = Some (join_on CHR ''/'' ps)"
  by (induction "CHR ''/''" ps rule: join_on.induct)
    (simp_all add: path_unescape_escape path_unescape_escape_append)

lemma path_unescape_escape_segments: "path_unescape (escape_path_segments rel) = Some rel"
  by (simp add: escape_path_segments_def path_unescape_join_escape)

lemma escape_segments_no_lead:
  assumes "safe_rel rel"
  shows "trim_prefix (escape_path_segments rel) ''/'' = escape_path_segments rel"
proof (cases "rel = []")
  case True
  then show ?thesis by (simp add: escape_path_segments_def trim_prefix_def has_prefix_def)
next
  case False
  have "\<not> has_prefix (escape_path_segments rel) ''/''"
  proof
    assume "has_prefix (escape_path_segments rel) ''/''"
    then obtain t where "escape_path_segments rel = CHR ''/'' # t" by (auto simp: has_prefix_append)
    then have "hd (split_on CHR ''/'' (escape_path_segments rel)) = []" by simp
    then have "path_escape (hd (split_on CHR ''/'' rel)) = []"
      using False by (simp add: escape_split hd_map)
    then have "hd (split_on CHR ''/'' rel) = []"
      by (cases "hd (split_on CHR ''/'' rel)") (auto simp: path_escape_def split: if_splits)
    then have "[] \<in> set (split_on CHR ''/'' rel)" by (metis hd_in_set split_on_not_Nil)
    with safe_rel_seg [OF assms False, of "[]"] show False by simp
  qed
  then show ?thesis by (simp add: trim_prefix_def)
qed

section \<open>Properties\<close>



lemma resolve_run:
  assumes "media_root root" and "path_unescape (trim_prefix raw ''/'') = Some v" and "nul \<notin> set v"
  shows "resolve eval root raw =
     (let rel = resolve_rel v; abs = (if rel = [] then root else root @ CHR ''/'' # rel)
      in case eval abs of
           SymFailed \<Rightarrow> Inl MediaSymlinkError
         | SymNotExist \<Rightarrow> Inr (abs, rel)
         | SymTarget t \<Rightarrow> (if is_within_root root t then Inr (t, rel) else Inl MediaPathOutsideRoot))"
proof -
  have "\<not> contains v [nul]" using assms(3) by (auto simp: contains_def sublist_def)
  moreover have "path_join [root, resolve_rel v] =
      (if resolve_rel v = [] then root else root @ CHR ''/'' # resolve_rel v)"
    by (rule path_join_root [OF assms(1) fs_cleaner.norm_safe])
  moreover have "is_within_root root (if resolve_rel v = [] then root else root @ CHR ''/'' # resolve_rel v)"
    using within_root_below media_root_no_trailing [OF assms(1)] by simp
  ultimately show ?thesis
    using assms(2)
    by (cases "resolve_rel v = []") (simp_all add: resolve_def Let_def split: symlink_result.splits)
qed

text \<open>Completeness of the same check: under a cleaned media root a well-encoded path without a null
  byte always resolves when the file does not exist or is reached without leaving the root; the error
  \<open>ErrPathOutsideRoot\<close> is returned only for a symbolic link whose target is outside.\<close>

lemma resolve_complete:
  assumes "media_root root" and "path_unescape (trim_prefix raw ''/'') = Some v" and "nul \<notin> set v"
  shows "resolve eval root raw =
     (let rel = resolve_rel v; abs = (if rel = [] then root else root @ CHR ''/'' # rel)
      in case eval abs of
           SymFailed \<Rightarrow> Inl MediaSymlinkError
         | SymNotExist \<Rightarrow> Inr (abs, rel)
         | SymTarget t \<Rightarrow> (if is_within_root root t then Inr (t, rel) else Inl MediaPathOutsideRoot))"
  using assms by (rule resolve_run)

theorem resolve_complete_witness:
  "resolve (\<lambda>_. SymNotExist) ''/media'' ''/tv/a.mkv'' = Inr (''/media/tv/a.mkv'', ''tv/a.mkv'')"
proof -
  have root: "media_root ''/media''"
    unfolding media_root_def by (rule exI [of _ "[''media'']"]) (simp add: good_seg_def)
  have v: "path_unescape (trim_prefix ''/tv/a.mkv'' ''/'') = Some ''tv/a.mkv''" by code_simp
  have n: "nul \<notin> set ''tv/a.mkv''" by (simp add: nul_def)
  have "resolve_rel ''tv/a.mkv'' = ''tv/a.mkv''" by code_simp
  with resolve_complete [OF root v n, of "\<lambda>_. SymNotExist"] show ?thesis by (simp add: Let_def)
qed

text \<open>The permission check and the file access agree: the file service resolves a canonical path
  without percent signs to that very path, so the library whose grant was checked is the library the
  file is served from.\<close>

lemma acl_path_is_file_path:
  assumes "canonical_rel_path raw = Inr p" and "CHR ''%'' \<notin> set p"
    and "resolve eval root p = Inr (full, rel)"
  shows "rel = p"
proof -
  from canonical_rel_path_safe [OF assms(1)] have safe: "safe_rel p" by simp
  have "trim_prefix p ''/'' = p"
    using safe_rel_no_lead [OF safe] by (cases p) (auto simp: trim_prefix_def has_prefix_append)
  then have "path_unescape (trim_prefix p ''/'') = Some p" using path_unescape_id [OF assms(2)] by simp
  with assms(3) have "rel = resolve_rel p" by (auto elim: resolve_Inr)
  with fs_cleaner.norm_id [OF safe] show ?thesis by simp
qed

theorem acl_path_is_file_path_witness:
  "canonical_rel_path ''/tv//a%20b.mkv'' = Inr ''tv/a b.mkv'' \<and>
   resolve (\<lambda>_. SymNotExist) ''/media'' ''tv/a b.mkv'' = Inr (''/media/tv/a b.mkv'', ''tv/a b.mkv'')"
proof -
  have h: "canonical_rel_path ''/tv//a%20b.mkv'' = Inr ''tv/a b.mkv''"
    "CHR ''%'' \<notin> set ''tv/a b.mkv''" by code_simp+
  obtain full rel where r: "resolve (\<lambda>_. SymNotExist) ''/media'' ''tv/a b.mkv'' = Inr (full, rel)"
    and f: "full = ''/media/tv/a b.mkv''" by (rule that) code_simp+
  from acl_path_is_file_path [OF h r] r f h(1) show ?thesis by simp
qed

text \<open>The two sides decode the raw request path a different number of times: for a doubly encoded
  path the permission is looked up for \<open>x\<close> while the file service opens another file.\<close>

lemma acl_and_file_paths_diverge:
  "canonical_rel_path ''lib/%252e%252e/x'' = Inr ''x'' \<and>
   resolve (\<lambda>_. SymNotExist) ''/media'' ''lib/%252e%252e/x'' =
     Inr (''/media/lib/%2e%2e/x'', ''lib/%2e%2e/x'')"
  by code_simp

text \<open>A link the API hands out leads back to the same file: resolving the escaped form of a safe
  media path without null bytes gives that path.\<close>

lemma escaped_link_roundtrip:
  assumes "media_root root" and "safe_rel rel" and "nul \<notin> set rel"
  shows "resolve (\<lambda>_. SymNotExist) root (escape_path_segments rel) =
     Inr (if rel = [] then root else root @ CHR ''/'' # rel, rel)"
proof -
  have "path_unescape (trim_prefix (escape_path_segments rel) ''/'') = Some rel"
    by (simp add: escape_segments_no_lead [OF assms(2)] path_unescape_escape_segments)
  moreover have "resolve_rel rel = rel" by (rule fs_cleaner.norm_id [OF assms(2)])
  moreover have "path_join [root, rel] = (if rel = [] then root else root @ CHR ''/'' # rel)"
    by (rule path_join_root [OF assms(1,2)])
  moreover have "\<not> contains rel [nul]" using assms(3) by (auto simp: contains_def sublist_def)
  ultimately show ?thesis
    using within_root_below media_root_no_trailing [OF assms(1)] by (simp add: resolve_def Let_def)
qed

theorem escaped_link_roundtrip_witness:
  "resolve (\<lambda>_. SymNotExist) ''/media'' (escape_path_segments ''tv/100% a;b.mkv'') =
     Inr (''/media/tv/100% a;b.mkv'', ''tv/100% a;b.mkv'')"
proof -
  have root: "media_root ''/media''"
    unfolding media_root_def by (rule exI [of _ "[''media'']"]) (simp add: good_seg_def)
  have safe: "safe_rel ''tv/100% a;b.mkv''" by (simp add: safe_rel_def good_seg_def)
  have "nul \<notin> set ''tv/100% a;b.mkv''" by (simp add: nul_def)
  from escaped_link_roundtrip [OF root safe this] show ?thesis by simp
qed

text \<open>A directory listing passes each name on disk through the same decoding: a file whose name
  holds a percent sign that is not followed by two hexadecimal digits is refused, so it never appears
  in a listing and cannot be moved to the trash.\<close>

lemma percent_names_unreachable:
  "resolve eval root ''100% Wolf.mkv'' = Inl MediaInvalidPath \<and>
   resolve eval root ''movies/50%'' = Inl MediaInvalidPath"
proof -
  have "path_unescape (trim_prefix ''100% Wolf.mkv'' ''/'') = None" by code_simp
  moreover have "path_unescape (trim_prefix ''movies/50%'' ''/'') = None" by code_simp
  ultimately show ?thesis by (simp add: resolve_def)
qed

text \<open>A page holds between 1 and 100 items (fewer only at the end), it is the slice of the list
  that starts at the offset, and walking the offset by the limit visits every item once: a page
  followed by the rest of the list from the next offset is the list from this offset.\<close>

lemma slice_page_exact:
  "let opts' = normalize_page_opts opts; (page, meta) = slice_page items opts in
     1 \<le> po_limit opts' \<and> po_limit opts' \<le> 100 \<and> 0 \<le> po_offset opts' \<and>
     page = take (nat (po_limit opts')) (drop (nat (po_offset opts')) items) \<and>
     page @ drop (nat (po_offset opts' + po_limit opts')) items = drop (nat (po_offset opts')) items \<and>
     meta = \<lparr>pm_total = int (length items), pm_limit = po_limit opts', pm_offset = po_offset opts'\<rparr>"
proof -
  let ?o = "normalize_page_opts opts"
  have b: "1 \<le> po_limit ?o" "po_limit ?o \<le> 100" "0 \<le> po_offset ?o"
    by (auto simp: normalize_page_opts_def Let_def)
  have page: "fst (slice_page items opts) = take (nat (po_limit ?o)) (drop (nat (po_offset ?o)) items)"
    using b by (auto simp: slice_page_def Let_def min_def nat_diff_distrib nat_add_distrib)
  have "nat (po_offset ?o + po_limit ?o) = nat (po_limit ?o) + nat (po_offset ?o)"
    using b by (simp add: nat_add_distrib)
  then have "take (nat (po_limit ?o)) (drop (nat (po_offset ?o)) items) @
      drop (nat (po_offset ?o + po_limit ?o)) items = drop (nat (po_offset ?o)) items"
    by (metis append_take_drop_id drop_drop)
  moreover have "snd (slice_page items opts) =
      \<lparr>pm_total = int (length items), pm_limit = po_limit ?o, pm_offset = po_offset ?o\<rparr>"
    by (simp add: slice_page_def Let_def)
  ultimately show ?thesis
    using b page by (simp add: Let_def case_prod_unfold)
qed

end
