(* ===== verification/AuthTypes.thy ===== *)
theory AuthTypes
  imports GoStrings
begin

text \<open>
  The data of the authentication package: \<open>internal/auth/types.go\<close>, \<open>roles.go\<close>, \<open>settings.go\<close>, the
  \<open>User\<close>, \<open>SessionRecord\<close> and \<open>SessionIdentity\<close> types, and the state of its PostgreSQL tables
  (\<open>internal/auth/postgres/models.go\<close> and \<open>internal/db/migrations\<close>). Times are nanoseconds, a nullable
  column is an option, and a nullable text column that Go reads as the empty string is the empty
  string. The cryptography (SHA-256, bcrypt, TOTP codes, AES-GCM) and the gin-jwt token generator are
  fields of the record \<open>service\<close>: arguments of the model with no definition of their own.
\<close>

section \<open>Errors\<close>

datatype auth_err =
    ErrInvalidCredentials | ErrUserDisabled | ErrInvitePending | ErrSessionNotFound
  | ErrSessionExpired | ErrInvalidToken | ErrTokenExpired | ErrTokenUsed | ErrForbidden
  | ErrUserExists | ErrMissingCredentials | ErrManagedUserNotFound | ErrMissingEmail
  | ErrResendConfirmUnavailable | ErrPasswordUnchanged | ErrUserNotDisabled
  | ErrTwoFactorRequired | ErrTwoFactorNotConfigured | ErrTOTPNotConfigured
  | ErrInvalidTwoFactorCode | ErrTwoFactorAlreadyEnabled | ErrInvalidBackupCodeIndex
  | ErrInvalidRole | ErrTVWebAuth | ErrTVInviteForbidden
  | RefreshTokenNotFound | RefreshTokenExpired
  | ErrNoRow | ErrConstraint | ErrDb | ErrMail | ErrRandom | ErrHash | ErrCrypto | ErrIssuer

section \<open>Roles and settings\<close>

abbreviation RoleAdmin :: string where "RoleAdmin \<equiv> ''admin''"
abbreviation RoleUser :: string where "RoleUser \<equiv> ''user''"
abbreviation RoleTV :: string where "RoleTV \<equiv> ''tv''"

definition valid_role :: "string \<Rightarrow> bool" where
  "valid_role role \<longleftrightarrow> role = RoleAdmin \<or> role = RoleUser \<or> role = RoleTV"

definition allows_web_login :: "string \<Rightarrow> bool" where
  "allows_web_login role \<longleftrightarrow> role \<noteq> RoleTV"

definition normalize_role :: "string \<Rightarrow> auth_err + string" where
  "normalize_role role =
     (if role = [] then Inr RoleUser
      else if \<not> valid_role role then Inl ErrInvalidRole
      else Inr role)"

record auth_settings =
  email_confirmation_required :: bool
  two_factor_required :: bool

definition default_settings :: auth_settings where
  "default_settings = \<lparr>email_confirmation_required = False, two_factor_required = False\<rparr>"

datatype purpose = PInvite | PResetPassword | PConfirmEmail | PLogin2FA | PChangeEmail

section \<open>Accounts, tokens, sessions\<close>

record user =
  usr_id :: string
  usr_email :: string
  usr_role :: string
  usr_enabled :: bool
  usr_verified_at :: "int option"
  usr_must_change :: bool

record public_user =
  pub_id :: string
  pub_email :: string
  pub_role :: string
  pub_must_change :: bool

definition public_of :: "user \<Rightarrow> public_user" where
  "public_of u = \<lparr>pub_id = usr_id u, pub_email = usr_email u, pub_role = usr_role u,
     pub_must_change = usr_must_change u\<rparr>"

record token =
  tok_id :: string
  tok_user :: string
  tok_email :: string
  tok_purpose :: purpose
  tok_hash :: string
  tok_role :: string
  tok_invited_by :: string
  tok_expires :: int
  tok_used :: "int option"
  tok_created :: int

record session_meta =
  meta_ip :: string
  meta_agent :: string

record session_record =
  ses_id :: string
  ses_user :: string
  ses_hash :: string
  ses_ip :: string
  ses_agent :: string
  ses_created :: int
  ses_expires :: int

record session_identity =
  sid_session :: string
  sid_user_id :: string
  sid_user :: public_user
  sid_meta :: session_meta

record token_pair =
  tp_access :: string
  tp_refresh :: string

record totp_record =
  totp_user :: string
  totp_secret :: string
  totp_enabled_at :: int
  totp_backup :: "string list"

record user_patch =
  up_enabled :: "bool option"
  up_role :: "string option"
  up_email :: "string option"

record admin_user =
  adm_id :: string
  adm_email :: string
  adm_role :: string
  adm_enabled :: bool
  adm_verified :: bool
  adm_status :: string
  adm_must_change :: bool
  adm_has_2fa :: bool
  adm_last_login :: "int option"
  adm_created :: int

record login_outcome =
  lo_status :: string
  lo_user :: public_user
  lo_access :: string
  lo_refresh :: string
  lo_pending :: string

section \<open>Tables\<close>

record user_row =
  ur_id :: string
  ur_email :: string
  ur_hash :: string
  ur_role :: string
  ur_enabled :: bool
  ur_verified_at :: "int option"
  ur_must_change :: bool
  ur_last_login :: "int option"
  ur_created :: int

record totp_row =
  tr_user :: string
  tr_secret :: string
  tr_enabled_at :: "int option"
  tr_backup :: "string list"

record mail =
  mail_to :: string
  mail_subject :: string
  mail_link :: string

record auth_world = env +
  users :: "user_row list"
  tokens :: "token list"
  sessions :: "session_record list"
  totps :: "totp_row list"
  settings :: "auth_settings option"
  outbox :: "mail list"

type_synonym 'a auth_m = "(auth_world, auth_err, 'a) m"

section \<open>The service value\<close>

record service =
  sv_base_url :: string
  sv_invite_ttl :: int
  sv_confirm_ttl :: int
  sv_reset_ttl :: int
  sv_leeway :: int
  sv_sha :: "string \<Rightarrow> string"
  sv_bcrypt :: "string \<Rightarrow> string \<Rightarrow> string option"
  sv_bcrypt_ok :: "string \<Rightarrow> string \<Rightarrow> bool"
  sv_totp_ok :: "string \<Rightarrow> string \<Rightarrow> int \<Rightarrow> nat \<Rightarrow> bool"
  sv_totp_key :: "string \<Rightarrow> string \<Rightarrow> (string \<times> string) option"
  sv_encrypt :: "string \<Rightarrow> string \<Rightarrow> string option"
  sv_decrypt :: "string \<Rightarrow> string option"
  sv_issue :: "session_identity \<Rightarrow> token_pair auth_m"
  sv_issue_rotate :: "session_identity \<Rightarrow> string \<Rightarrow> token_pair auth_m"

text \<open>\<open>normalizeConfig\<close>: the operator's configuration with its defaults and bounds. The time-to-live
  fields are hours here and nanoseconds in the service.\<close>

record config =
  cfg_base_url :: string
  cfg_invite_hours :: int
  cfg_confirm_hours :: int
  cfg_reset_hours :: int
  cfg_leeway :: int

definition normalize_config :: "config \<Rightarrow> config" where
  "normalize_config c0 =
     (let c1 = (if trim_space (cfg_base_url c0) = [] then c0\<lparr>cfg_base_url := ''http://localhost:8080''\<rparr> else c0);
          c2 = c1\<lparr>cfg_base_url := trim_right (\<lambda>c. c = CHR ''/'') (trim_space (cfg_base_url c1))\<rparr>;
          c3 = (if cfg_invite_hours c2 \<le> 0 then c2\<lparr>cfg_invite_hours := 24\<rparr> else c2);
          c4 = (if cfg_confirm_hours c3 \<le> 0 then c3\<lparr>cfg_confirm_hours := 24\<rparr> else c3);
          c5 = (if cfg_reset_hours c4 \<le> 0 then c4\<lparr>cfg_reset_hours := 24\<rparr> else c4);
          c6 = (if cfg_leeway c5 \<le> 0 then c5\<lparr>cfg_leeway := 30\<rparr> else c5)
      in if cfg_leeway c6 > 120 then c6\<lparr>cfg_leeway := 120\<rparr> else c6)"

text \<open>An email address as every entry point and every token query normalises it.\<close>

definition norm_email :: "string \<Rightarrow> string" where
  "norm_email e = trim_space (to_lower e)"

lemma norm_email_idem [str_simps, simp]: "norm_email (norm_email e) = norm_email e"
  by (simp add: norm_email_def trim_space_to_lower)

lemma norm_email_alt: "to_lower (trim_space e) = norm_email e"
  by (simp add: norm_email_def trim_space_to_lower)

lemma normalize_role_valid: "normalize_role r = Inr r' \<Longrightarrow> valid_role r'"
  by (auto simp: normalize_role_def valid_role_def split: if_splits)

end
