(* ===== verification/AccessService.thy ===== *)
theory AccessService
  imports AccessStore MediaFs AuthTypes
begin

text \<open>
  \<open>internal/access/service.go\<close>: who may read, create, update or delete under a media path, and the
  administration of libraries, roots and grants. Wrapped errors (\<open>fmt.Errorf\<close> with \<open>%w\<close>) keep their
  identity. Text is ASCII in \<open>slugify\<close>. \<open>os.Stat\<close> is a parameter: \<open>is_dir root\<close> tells whether the
  folder of a root exists and is a directory.
\<close>

section \<open>Permissions of a path\<close>

definition is_admin :: "public_user \<Rightarrow> bool" where
  "is_admin u \<longleftrightarrow> pub_role u = ''admin''"

definition permissions_for_path :: "string \<Rightarrow> string \<Rightarrow> permissions option acc_m" where
  "permissions_for_path uid raw =
     (case canonical_rel_path raw of
        Inl e \<Rightarrow> throw e
      | Inr canonical \<Rightarrow>
          if canonical = [] then ret None
          else bnd store_list_libraries (\<lambda>libraries.
            case match_library libraries canonical of
              None \<Rightarrow> ret None
            | Some l \<Rightarrow> bnd (get_user_grant_map uid) (\<lambda>gs. ret (gs (lib_id l)))))"

definition check_permission :: "public_user \<Rightarrow> string \<Rightarrow> (permissions \<Rightarrow> bool) \<Rightarrow> bool acc_m" where
  "check_permission u raw check =
     (if is_admin u then ret True
      else bnd (permissions_for_path (pub_id u) raw) (\<lambda>ps.
        case ps of None \<Rightarrow> ret False | Some p \<Rightarrow> ret (check p)))"

definition can_read :: "public_user \<Rightarrow> string \<Rightarrow> bool acc_m" where
  "can_read u raw =
     (if is_admin u then ret True
      else bnd (permissions_for_path (pub_id u) raw) (\<lambda>ps.
        case ps of None \<Rightarrow> ret False | Some p \<Rightarrow> ret (p_read p)))"

definition can_create :: "public_user \<Rightarrow> string \<Rightarrow> bool acc_m" where
  "can_create u raw = check_permission u raw p_create"

definition can_update :: "public_user \<Rightarrow> string \<Rightarrow> bool acc_m" where
  "can_update u raw = check_permission u raw p_update"

definition can_delete :: "public_user \<Rightarrow> string \<Rightarrow> bool acc_m" where
  "can_delete u raw = check_permission u raw p_delete"

definition can_browse :: "public_user \<Rightarrow> string \<Rightarrow> bool acc_m" where
  "can_browse u raw =
     (if is_admin u then ret True
      else case canonical_rel_path raw of
        Inl e \<Rightarrow> throw e
      | Inr canonical \<Rightarrow> if canonical = [] then ret True else can_read u canonical)"

fun filter_children :: "public_user \<Rightarrow> library list \<Rightarrow> item list \<Rightarrow> item list acc_m" where
  "filter_children u libraries [] = ret []"
| "filter_children u libraries (c # cs) =
     (if match_library libraries (it_path c) = None then filter_children u libraries cs
      else if is_admin u then bnd (filter_children u libraries cs) (\<lambda>rest. ret (c # rest))
      else bnd (can_read u (it_path c)) (\<lambda>allowed.
        bnd (filter_children u libraries cs) (\<lambda>rest. ret (if allowed then c # rest else rest))))"

definition filter_browse_response :: "public_user \<Rightarrow> item list \<Rightarrow> item list acc_m" where
  "filter_browse_response u children =
     bnd store_list_libraries (\<lambda>libraries. filter_children u libraries children)"

section \<open>Libraries\<close>

definition list_libraries :: "library list acc_m" where
  "list_libraries = store_list_libraries"

definition get_library :: "string \<Rightarrow> library acc_m" where
  "get_library i = store_get_library i"

definition library_for_rel_path :: "string \<Rightarrow> library option acc_m" where
  "library_for_rel_path raw = bnd store_list_libraries (\<lambda>ls. ret (match_library ls raw))"

definition is_letter_or_digit :: "char \<Rightarrow> bool" where
  "is_letter_or_digit c \<longleftrightarrow> (let n = of_char c :: nat
     in 97 \<le> n \<and> n \<le> 122 \<or> 65 \<le> n \<and> n \<le> 90 \<or> 48 \<le> n \<and> n \<le> 57)"

text \<open>The loop of \<open>slugify\<close>: the builder so far and \<open>prevDash\<close>.\<close>

fun slug_loop :: "string \<Rightarrow> bool \<Rightarrow> string \<Rightarrow> string" where
  "slug_loop b dash [] = b"
| "slug_loop b dash (c # cs) =
     (if is_letter_or_digit c then slug_loop (b @ [c]) False cs
      else if \<not> dash \<and> b \<noteq> [] then slug_loop (b @ ''-'') True cs
      else slug_loop b dash cs)"

definition slugify :: "string \<Rightarrow> string" where
  "slugify v = trim_both (\<lambda>c. c = CHR ''-'') (slug_loop [] False (to_lower (trim_space v)))"

definition create_library :: "string \<Rightarrow> string \<Rightarrow> string \<Rightarrow> library acc_m" where
  "create_library name slug type_raw =
     (let trimmed = trim_space name in
      if trimmed = [] then throw ErrInvalidLibraryName
      else case (if trim_space type_raw \<noteq> [] then parse_library_type type_raw else Inr TypeOther) of
        Inl e \<Rightarrow> throw e
      | Inr ty \<Rightarrow>
          let s = (if trim_space slug = [] then slugify trimmed else slugify (trim_space slug)) in
          if s = [] then throw ErrInvalidLibraryName
          else store_create_library \<lparr>lib_id = [], lib_slug = s, lib_rel_path = [],
                 lib_name = trimmed, lib_type = ty, lib_roots = []\<rparr>)"

definition validate_root_path :: "string \<Rightarrow> access_err + string" where
  "validate_root_path rel = (let cleaned = normalize_rel_path rel in
     if cleaned = [] \<or> cleaned = ''..'' \<or> contains cleaned ''/../'' then Inl ErrInvalidLibraryRoot
     else if is_hidden_rel_path cleaned \<or> is_trash_rel_path cleaned then Inl ErrInvalidLibraryRoot
     else Inr cleaned)"

text \<open>The loops of \<open>AddRoot\<close>: what the first root equal to or overlapping the new one decides.\<close>

datatype root_decision = KeepLibrary library | MergeRoot | RootConflict

fun scan_roots :: "string \<Rightarrow> string \<Rightarrow> library \<Rightarrow> string list \<Rightarrow> root_decision option" where
  "scan_roots i rel l [] = None"
| "scan_roots i rel l (r # rs) =
     (if r = rel then Some (if lib_id l = i then KeepLibrary l else MergeRoot)
      else if roots_overlap r rel then Some RootConflict
      else scan_roots i rel l rs)"

fun scan_libraries :: "string \<Rightarrow> string \<Rightarrow> library list \<Rightarrow> root_decision option" where
  "scan_libraries i rel [] = None"
| "scan_libraries i rel (l # ls) =
     (case scan_roots i rel l (root_paths l) of
        Some d \<Rightarrow> Some d
      | None \<Rightarrow> scan_libraries i rel ls)"

definition decide_root :: "string \<Rightarrow> string \<Rightarrow> root_decision option \<Rightarrow> library acc_m" where
  "decide_root i rel d = (case d of
     None \<Rightarrow> store_add_root i rel
   | Some d' \<Rightarrow> (case d' of
       KeepLibrary l \<Rightarrow> ret l
     | MergeRoot \<Rightarrow> store_add_root i rel
     | RootConflict \<Rightarrow> throw ErrLibraryRootConflict))"

definition add_root :: "string \<Rightarrow> string \<Rightarrow> library acc_m" where
  "add_root i rel =
     (case validate_root_path rel of
        Inl e \<Rightarrow> throw e
      | Inr cleaned \<Rightarrow> seqm (store_get_library i) (bnd store_list_libraries (\<lambda>libraries.
          decide_root i cleaned (scan_libraries i cleaned libraries))))"

definition remove_root :: "string \<Rightarrow> string \<Rightarrow> library acc_m" where
  "remove_root i rel = (let cleaned = normalize_rel_path rel in
     if cleaned = [] then throw ErrInvalidLibraryRoot else store_remove_root i cleaned)"

definition delete_library :: "string \<Rightarrow> unit acc_m" where
  "delete_library i = store_delete_library i"

definition update_library :: "string \<Rightarrow> string option \<Rightarrow> string option \<Rightarrow> library acc_m" where
  "update_library i name type_raw =
     (if name = None \<and> type_raw = None then throw ErrInvalidLibraryPatch
      else if (case name of None \<Rightarrow> False | Some n \<Rightarrow> trim_space n = []) then throw ErrInvalidLibraryName
      else case (case type_raw of None \<Rightarrow> Inr None
                 | Some t \<Rightarrow> (case parse_library_type t of Inl e \<Rightarrow> Inl e | Inr ty \<Rightarrow> Inr (Some ty))) of
        Inl e \<Rightarrow> throw e
      | Inr ty \<Rightarrow> store_update_library i (map_option trim_space name) ty)"

section \<open>Pruning roots whose folder is gone\<close>

fun prune_library_roots :: "(string \<Rightarrow> bool) \<Rightarrow> string \<Rightarrow> string list \<Rightarrow> library \<Rightarrow> nat
    \<Rightarrow> (library option \<times> nat) acc_m" where
  "prune_library_roots is_dir i [] current removed = ret (Some current, removed)"
| "prune_library_roots is_dir i (r # rs) current removed =
     (if is_dir r then prune_library_roots is_dir i rs current removed
      else bnd (attempt (store_remove_root i r)) (\<lambda>res. case res of
        Inl e \<Rightarrow> (if e = ErrLibraryNotFound then ret (None, removed + 1) else throw e)
      | Inr updated \<Rightarrow> prune_library_roots is_dir i rs updated (removed + 1)))"

record sync_result =
  sync_libraries :: "library list"
  sync_added :: nat
  sync_removed :: nat
  sync_kept :: nat

fun prune_loop :: "(string \<Rightarrow> bool) \<Rightarrow> library list \<Rightarrow> library list \<Rightarrow> nat \<Rightarrow> (library list \<times> nat) acc_m" where
  "prune_loop is_dir [] kept removed = ret (kept, removed)"
| "prune_loop is_dir (l # ls) kept removed =
     bnd (prune_library_roots is_dir (lib_id l) (root_paths l) l 0) (\<lambda>(pruned, dropped).
       prune_loop is_dir ls
         (case pruned of None \<Rightarrow> kept | Some p \<Rightarrow> if lib_id p = [] then kept else kept @ [p])
         (removed + dropped))"

definition prune_missing_roots :: "(string \<Rightarrow> bool) \<Rightarrow> sync_result acc_m" where
  "prune_missing_roots is_dir = bnd store_list_libraries (\<lambda>libraries.
     bnd (prune_loop is_dir libraries [] 0) (\<lambda>(kept, removed).
       ret \<lparr>sync_libraries = kept, sync_added = 0, sync_removed = removed, sync_kept = length kept\<rparr>))"

definition sync_all_libraries :: "(string \<Rightarrow> bool) \<Rightarrow> sync_result acc_m" where
  "sync_all_libraries is_dir = prune_missing_roots is_dir"

section \<open>Grants\<close>

definition no_permissions :: permissions where
  "no_permissions = \<lparr>p_create = False, p_read = False, p_update = False, p_delete = False\<rparr>"

definition get_user_grants :: "string \<Rightarrow> (library \<times> permissions) list acc_m" where
  "get_user_grants uid = bnd store_list_libraries (\<lambda>libraries.
     bnd (get_user_grant_map uid) (\<lambda>gs.
       ret (map (\<lambda>l. (l, case gs (lib_id l) of None \<Rightarrow> no_permissions | Some p \<Rightarrow> p)) libraries)))"

definition list_readable_libraries :: "public_user \<Rightarrow> library list acc_m" where
  "list_readable_libraries u = bnd store_list_libraries (\<lambda>libraries.
     if is_admin u then ret libraries
     else bnd (get_user_grant_map (pub_id u)) (\<lambda>gs.
       ret (filter (\<lambda>l. case gs (lib_id l) of None \<Rightarrow> False | Some p \<Rightarrow> p_read p) libraries)))"

definition validate_grant_inputs :: "library list \<Rightarrow> grant_input list \<Rightarrow> access_err option" where
  "validate_grant_inputs libraries gs =
     (if \<exists>g \<in> set gs. gi_lib g \<notin> lib_id ` set libraries then Some ErrUnknownLibrary else None)"

definition set_user_grants :: "string \<Rightarrow> string \<Rightarrow> grant_input list \<Rightarrow> unit acc_m" where
  "set_user_grants uid role gs =
     (if role = ''admin'' then throw ErrAdminGrantsImmutable
      else bnd store_list_libraries (\<lambda>libraries.
        case validate_grant_inputs libraries gs of
          Some e \<Rightarrow> throw e
        | None \<Rightarrow> replace_user_grants uid gs))"

end
