(* ===== verification/AccessRegistry.thy ===== *)
theory AccessRegistry
  imports AccessService
begin

text \<open>
  The registry of roots as an abstract map from paths to the owning library, and the proof that every
  operation of the access service is a step of that map: \<open>owner_of\<close> is the abstraction, \<open>reg_step\<close> the
  steps (assign, release, drop), \<open>registry_ok\<close> the invariant of the tables under which the
  abstraction is defined. \<open>registry_contract\<close> is what the service needs of the store.
\<close>

section \<open>The invariant and the abstraction\<close>

definition disjoint_roots :: "root_row list \<Rightarrow> bool" where
  "disjoint_roots rs \<longleftrightarrow>
     sorted_wrt (\<lambda>r s. rr_path r \<noteq> rr_path s \<and> \<not> roots_overlap (rr_path r) (rr_path s)) rs"

definition lib_ids :: "access_world \<Rightarrow> string set" where
  "lib_ids w = lr_id ` set (libs w)"

definition registry_ok :: "access_world \<Rightarrow> bool" where
  "registry_ok w \<longleftrightarrow> disjoint_roots (roots w) \<and> rr_lib ` set (roots w) \<subseteq> lib_ids w \<and> [] \<notin> lib_ids w \<and>
     distinct (map lr_id (libs w)) \<and> distinct (map lr_slug (libs w)) \<and>
     distinct (map (\<lambda>g. (gr_user g, gr_lib g)) (grants w)) \<and> gr_lib ` set (grants w) \<subseteq> lib_ids w \<and>
     list_all (\<lambda>g. \<not> perms_empty (gr_perms g)) (grants w)"

definition owner_of :: "access_world \<Rightarrow> string \<rightharpoonup> string" where
  "owner_of w p = map_option rr_lib (find (\<lambda>r. path_within_root p (rr_path r)) (roots w))"

inductive reg_step :: "(string \<rightharpoonup> string) \<Rightarrow> (string \<rightharpoonup> string) \<Rightarrow> bool" where
  reg_assign: "(\<forall>q. path_within_root q rel \<longrightarrow> ow q = None \<or> ow q = Some i) \<or>
      (\<exists>j. \<forall>q. path_within_root q rel \<longrightarrow> ow q = Some j) \<Longrightarrow>
    reg_step ow (\<lambda>p. if path_within_root p rel then Some i else ow p)"
| reg_release: "(\<And>q. path_within_root q rel \<Longrightarrow> ow q = Some i) \<Longrightarrow>
    reg_step ow (\<lambda>p. if path_within_root p rel then None else ow p)"
| reg_drop: "reg_step ow (\<lambda>p. if ow p = Some i then None else ow p)"

inductive_cases reg_stepE: "reg_step ow ow'"

lemma disjoint_roots_Nil [simp]: "disjoint_roots []"
  by (simp add: disjoint_roots_def)

lemma disjoint_roots_snoc:
  "disjoint_roots (rs @ [r]) \<longleftrightarrow> disjoint_roots rs \<and>
     (\<forall>s \<in> set rs. rr_path s \<noteq> rr_path r \<and> \<not> roots_overlap (rr_path s) (rr_path r))"
  by (auto simp: disjoint_roots_def sorted_wrt_append)

lemma disjoint_roots_delete: "disjoint_roots rs \<Longrightarrow> disjoint_roots (delete_where P rs)"
  unfolding disjoint_roots_def delete_where_def by (rule sorted_wrt_filter)

lemma disjoint_rootsD:
  assumes "disjoint_roots rs" and "r \<in> set rs" and "s \<in> set rs" and "r \<noteq> s"
  shows "rr_path r \<noteq> rr_path s \<and> \<not> roots_overlap (rr_path r) (rr_path s)"
  using assms unfolding disjoint_roots_def
  by (induction rs) (auto simp: roots_overlap_sym)

lemma containing_root_unique:
  assumes "disjoint_roots rs" and "r \<in> set rs" and "s \<in> set rs"
    and "path_within_root p (rr_path r)" and "path_within_root p (rr_path s)"
  shows "r = s"
  using disjoint_rootsD [OF assms(1-3)] within_same_overlap [OF assms(4,5)] by blast

lemma owner_of_Some:
  assumes "registry_ok w"
  shows "owner_of w p = Some i \<longleftrightarrow>
    (\<exists>r \<in> set (roots w). rr_lib r = i \<and> path_within_root p (rr_path r))"
proof
  assume "owner_of w p = Some i"
  then show "\<exists>r \<in> set (roots w). rr_lib r = i \<and> path_within_root p (rr_path r)"
    by (auto simp: owner_of_def dest: find_SomeD)
next
  assume "\<exists>r \<in> set (roots w). rr_lib r = i \<and> path_within_root p (rr_path r)"
  then obtain r where r: "r \<in> set (roots w)" "rr_lib r = i" "path_within_root p (rr_path r)" by blast
  then obtain s where s: "find (\<lambda>r. path_within_root p (rr_path r)) (roots w) = Some s"
    by (cases "find (\<lambda>r. path_within_root p (rr_path r)) (roots w)") (auto dest: find_NoneD)
  from assms have "disjoint_roots (roots w)" by (simp add: registry_ok_def)
  from containing_root_unique [OF this r(1) _ r(3)] find_SomeD [OF s] have "r = s" by simp
  with s r show "owner_of w p = Some i" by (simp add: owner_of_def)
qed

lemma owner_of_None:
  "owner_of w p = None \<longleftrightarrow> \<not> (\<exists>r \<in> set (roots w). path_within_root p (rr_path r))"
  by (auto simp: owner_of_def find_None_iff)

lemma option_eqI: "(\<And>x. a = Some x \<longleftrightarrow> b = Some x) \<Longrightarrow> a = b"
  by (cases a; cases b) auto

section \<open>Statements that leave the registry alone\<close>

definition same_registry :: "access_world \<Rightarrow> access_world \<Rightarrow> bool" where
  "same_registry w w' \<longleftrightarrow> libs w' = libs w \<and> roots w' = roots w \<and> grants w' = grants w"

interpretation same_reg: env_rel same_registry
  by unfold_locales (auto simp: same_registry_def)

lemma same_registry_ok: "same_registry w w' \<Longrightarrow> registry_ok w' \<longleftrightarrow> registry_ok w"
  by (simp add: same_registry_def registry_ok_def lib_ids_def)

lemma same_registry_owner: "same_registry w w' \<Longrightarrow> owner_of w' = owner_of w"
  by (rule ext) (simp add: same_registry_def owner_of_def)

lemma adb_InrE:
  assumes "adb f w = (Inr x, w')"
  obtains w1 where "same_registry w w1" and "f w1 = (Inr x, w')"
  using assms unfolding adb_def by (rule same_reg.io_call_Inr)

lemma adb_gets_InrE:
  assumes "adb (gets f) w = (Inr x, w')"
  obtains "same_registry w w'" and "x = f w'"
  using assms by (rule adb_InrE) (auto intro: that)

lemma adb_modify_InrE:
  assumes "adb (modify f) w = (Inr x, w')"
  obtains w1 where "same_registry w w1" and "w' = f w1"
  using assms by (rule adb_InrE) (auto intro: that)

lemma same_reg_adb: "resp same_registry f \<Longrightarrow> resp same_registry (adb f)"
  unfolding adb_def by (rule same_reg.resp_io_call)

lemma same_reg_modify: "(\<And>w. same_registry w (f w)) \<Longrightarrow> resp same_registry (modify f)"
  by (simp add: resp_def)

lemma same_reg_prefix:
  "resp same_registry (delete_prefix_rows i pre)" "resp same_registry (reassign_prefix s d pre)"
  unfolding reassign_prefix_def delete_prefix_rows_def
  by (intro same_reg.resp_seqm same_reg_adb same_reg_modify, simp_all add: same_registry_def)+

lemma same_reg_get: "resp same_registry (store_get_library i)"
  unfolding store_get_library_def
  by (rule same_reg_adb) (auto simp: resp_def same_reg.refl split: option.splits)

section \<open>Adding a root\<close>

lemma root_paths_row: "root_paths (library_from_model w r) = roots_of w (lr_id r)"
  by (cases "roots_of w (lr_id r)")
    (simp_all add: root_paths_def library_from_model_def Let_def trim_space_def trim_both_def
      trim_left_def trim_right_def)

lemma set_root_paths_row:
  "set (root_paths (library_from_model w r)) = rr_path ` {x \<in> set (roots w). rr_lib x = lr_id r}"
  by (auto simp: root_paths_row roots_of_def)

lemma store_get_library_InrE:
  assumes "store_get_library i w = (Inr l, w')"
  obtains "same_registry w w'" and "i \<in> lib_ids w" and "lib_id l = i"
    and "set (root_paths l) = rr_path ` {x \<in> set (roots w). rr_lib x = i}"
proof -
  from assms obtain w1 r where w1: "same_registry w w1" and r: "find (\<lambda>r. lr_id r = i) (libs w1) = Some r"
    and l: "l = library_from_model w1 r" "w' = w1"
    unfolding store_get_library_def by (elim adb_InrE) (auto split: option.splits)
  from find_SomeD [OF r] w1 have "lr_id r = i" "i \<in> lib_ids w"
    by (auto simp: same_registry_def lib_ids_def)
  moreover have "lib_id l = lr_id r" by (simp add: l library_from_model_def Let_def)
  ultimately show thesis
    using w1 l set_root_paths_row [of w1 r] by (intro that) (auto simp: same_registry_def)
qed

lemma check_dest_roots_Inr:
  "check_dest_roots rel es = Inr b \<Longrightarrow>
     if b then rel \<in> set es else rel \<notin> set es \<and> (\<forall>e \<in> set es. \<not> path_within_root rel e)"
  by (induction es) (auto split: if_splits)

text \<open>What the tables other than roots may lose when the previous owner of a root is emptied.\<close>

definition dropped_empty :: "access_world \<Rightarrow> access_world \<Rightarrow> bool" where
  "dropped_empty w w' \<longleftrightarrow> same_registry w w' \<or>
     (\<exists>j w1. same_registry w w1 \<and> j \<notin> rr_lib ` set (roots w) \<and> same_registry (drop_library j w1) w')"

lemma drop_unused_roots:
  "j \<notin> rr_lib ` set (roots w) \<Longrightarrow> roots (drop_library j w) = roots w"
  by (auto simp: drop_library_def delete_where_def filter_id_conv)

lemma dropped_empty_roots: "dropped_empty w w' \<Longrightarrow> roots w' = roots w"
  by (auto simp: dropped_empty_def same_registry_def drop_unused_roots)

lemma dropped_empty_owner: "dropped_empty w w' \<Longrightarrow> owner_of w' = owner_of w"
  by (rule ext) (simp add: owner_of_def dropped_empty_roots)

lemma lib_ids_drop: "lib_ids (drop_library j w) = lib_ids w - {j}"
  by (auto simp: lib_ids_def drop_library_def)

lemma drop_library_ok:
  assumes "registry_ok w"
  shows "registry_ok (drop_library j w)"
  using assms unfolding registry_ok_def lib_ids_drop
  by (auto simp: drop_library_def disjoint_roots_delete distinct_map_delete_where list_all_iff)

lemma dropped_empty_ok: "registry_ok w \<Longrightarrow> dropped_empty w w' \<Longrightarrow> registry_ok w'"
  using drop_library_ok same_registry_ok unfolding dropped_empty_def by blast

lemma delete_library_if_empty_InrE:
  assumes "delete_library_if_empty j w = (Inr u, w')"
  obtains "dropped_empty w w'"
proof -
  from assms obtain n w1 where n: "same_registry w w1" "n = length (filter (\<lambda>r. rr_lib r = j) (roots w1))"
    and rest: "(if n > 0 then ret () else adb (modify (drop_library j))) w1 = (Inr u, w')"
    unfolding delete_library_if_empty_def by (elim bnd_InrE adb_gets_InrE) auto
  show thesis
  proof (cases "n > 0")
    case True
    with rest n that show ?thesis by (simp add: dropped_empty_def)
  next
    case False
    with rest obtain w2 where w2: "same_registry w1 w2" "w' = drop_library j w2"
      by (auto elim: adb_modify_InrE)
    from False n have "j \<notin> rr_lib ` set (roots w)" by (auto simp: same_registry_def filter_empty_conv)
    with w2 n same_reg.trans [OF n(1) w2(1)] same_reg.refl that show ?thesis
      unfolding dropped_empty_def by blast
  qed
qed

lemma delete_root_InrE:
  assumes "delete_root i rel w = (Inr u, w')"
  obtains w1 where "same_registry w w1"
    and "w' = w1\<lparr>roots := delete_where (\<lambda>r. rr_lib r = i \<and> rr_path r = rel) (roots w1)\<rparr>"
  using assms unfolding delete_root_def by (rule adb_modify_InrE)

lemma delete_roots_loop:
  assumes "eachm (\<lambda>e. whenm (P e) (delete_root i e)) es w = (Inr u, w')"
  shows "libs w' = libs w \<and> grants w' = grants w \<and>
    roots w' = delete_where (\<lambda>r. rr_lib r = i \<and> rr_path r \<in> set es \<and> P (rr_path r)) (roots w)"
  using assms
proof (induction es arbitrary: w)
  case Nil
  then show ?case by (simp add: delete_where_def)
next
  case (Cons e es)
  from Cons.prems obtain v w1 where
    e: "whenm (P e) (delete_root i e) w = (Inr v, w1)"
    and es: "eachm (\<lambda>e. whenm (P e) (delete_root i e)) es w1 = (Inr u, w')"
    unfolding eachm.simps by (rule seqm_InrE)
  have "libs w1 = libs w \<and> grants w1 = grants w \<and>
    roots w1 = delete_where (\<lambda>r. rr_lib r = i \<and> rr_path r = e \<and> P e) (roots w)"
    using e by (cases "P e") (auto simp: same_registry_def delete_where_def elim: delete_root_InrE)
  with Cons.IH [OF es] show ?case
    by (auto simp: delete_where_def intro!: filter_cong)
qed

lemma conflicting_library_id_InrE:
  assumes "conflicting_library_id i rel w = (Inr c, w')"
  obtains "same_registry w w'" and "[] \<notin> rr_lib ` set (roots w) \<Longrightarrow> c = [] \<Longrightarrow>
    \<forall>r \<in> set (roots w). rr_lib r \<noteq> i \<longrightarrow> \<not> roots_overlap (rr_path r) rel"
  using assms unfolding conflicting_library_id_def
  by (rule adb_gets_InrE)
    (rule that, auto simp: same_registry_def split: option.splits dest: find_NoneD find_SomeD)

text \<open>After \<open>claim_root\<close> no row has the path, and no root of another library overlaps it.\<close>

definition claimed :: "string \<Rightarrow> string \<Rightarrow> access_world \<Rightarrow> access_world \<Rightarrow> bool" where
  "claimed i rel w w' \<longleftrightarrow> registry_ok w' \<and>
     roots w' = delete_where (\<lambda>r. rr_path r = rel) (roots w) \<and>
     (\<forall>r \<in> set (roots w'). rr_lib r \<noteq> i \<longrightarrow> \<not> roots_overlap (rr_path r) rel) \<and>
     (rel \<in> rr_path ` set (roots w) \<longrightarrow>
       (\<forall>r \<in> set (roots w'). \<not> roots_overlap (rr_path r) rel))"

lemma claim_free_root:
  assumes ok: "registry_ok w" and free: "rel \<notin> rr_path ` set (roots w)"
    and run: "claim_root i rel [] w = (Inr u, w')"
  shows "claimed i rel w w'"
proof -
  from run have "bnd (conflicting_library_id i rel) (\<lambda>c. failif (c \<noteq> []) ErrLibraryRootConflict) w = (Inr u, w')"
    by (simp add: claim_root_def)
  then have c: "conflicting_library_id i rel w = (Inr [], w')"
    by (elim bnd_InrE failif_InrE) simp
  have ids: "[] \<notin> rr_lib ` set (roots w)" using ok by (auto simp: registry_ok_def)
  from c have same: "same_registry w w'"
    and apart: "\<forall>r \<in> set (roots w). rr_lib r \<noteq> i \<longrightarrow> \<not> roots_overlap (rr_path r) rel"
    using ids by (auto elim: conflicting_library_id_InrE)
  have "delete_where (\<lambda>r. rr_path r = rel) (roots w) = roots w"
    using free by (auto simp: delete_where_def filter_id_conv)
  with same apart free ok show ?thesis
    by (simp add: claimed_def same_registry_ok) (simp add: same_registry_def)
qed

lemma claim_owned_root:
  assumes ok: "registry_ok w" and r: "r \<in> set (roots w)" and other: "rr_lib r \<noteq> i"
    and run: "claim_root i (rr_path r) (rr_lib r) w = (Inr u, w')"
  shows "claimed i (rr_path r) w w'"
proof -
  let ?j = "rr_lib r" and ?rel = "rr_path r"
  from ok r have "?j \<noteq> []" by (auto simp: registry_ok_def)
  with other run have "seqm (reassign_prefix ?j i ?rel) (seqm (delete_root ?j ?rel)
      (delete_library_if_empty ?j)) w = (Inr u, w')"
    by (simp add: claim_root_def)
  then obtain x w1 where w1: "reassign_prefix ?j i ?rel w = (Inr x, w1)"
    and rest: "seqm (delete_root ?j ?rel) (delete_library_if_empty ?j) w1 = (Inr u, w')"
    by (rule seqm_InrE)
  from rest obtain y w2 where w2: "delete_root ?j ?rel w1 = (Inr y, w2)"
    and w': "delete_library_if_empty ?j w2 = (Inr u, w')"
    by (rule seqm_InrE)
  from respD_run [OF same_reg_prefix(2) w1] have same: "same_registry w w1" .
  from ok have dis: "disjoint_roots (roots w)" by (simp add: registry_ok_def)
  have alone: "(rr_lib s = ?j \<and> rr_path s = ?rel) \<longleftrightarrow> rr_path s = ?rel" if "s \<in> set (roots w)" for s
    using disjoint_rootsD [OF dis that r] by auto
  from w2 obtain w1' where "same_registry w1 w1'"
    and "w2 = w1'\<lparr>roots := delete_where (\<lambda>s. rr_lib s = ?j \<and> rr_path s = ?rel) (roots w1')\<rparr>"
    by (rule delete_root_InrE)
  with same have "roots w2 = delete_where (\<lambda>s. rr_lib s = ?j \<and> rr_path s = ?rel) (roots w)"
    and rest2: "libs w2 = libs w" "grants w2 = grants w"
    by (simp_all add: same_registry_def)
  moreover have "delete_where (\<lambda>s. rr_lib s = ?j \<and> rr_path s = ?rel) (roots w) =
      delete_where (\<lambda>s. rr_path s = ?rel) (roots w)"
    unfolding delete_where_def by (rule filter_cong) (use alone in auto)
  ultimately have roots2: "roots w2 = delete_where (\<lambda>s. rr_path s = ?rel) (roots w)" by simp
  have ok2: "registry_ok w2"
    using ok rest2 by (auto simp: registry_ok_def roots2 lib_ids_def disjoint_roots_delete)
  from w' have e: "dropped_empty w2 w'" by (rule delete_library_if_empty_InrE)
  have "\<not> roots_overlap (rr_path s) ?rel" if "s \<in> set (roots w2)" for s
    using disjoint_rootsD [OF dis _ r, of s] that by (auto simp: roots2)
  with dropped_empty_ok [OF ok2 e] dropped_empty_roots [OF e] roots2 show ?thesis
    by (simp add: claimed_def)
qed

text \<open>\<open>attached i rel w w'\<close>: the root \<open>rel\<close> now belongs to library \<open>i\<close>, roots below it are gone, and
  nothing else of the root table has changed.\<close>

definition attached :: "string \<Rightarrow> string \<Rightarrow> access_world \<Rightarrow> access_world \<Rightarrow> bool" where
  "attached i rel w w' \<longleftrightarrow> registry_ok w' \<and>
     roots w' = delete_where (\<lambda>r. rr_path r = rel \<or> rr_lib r = i \<and> path_within_root (rr_path r) rel) (roots w) @
       [\<lparr>rr_lib = i, rr_path = rel\<rparr>]"

lemma insert_root_InrE:
  assumes "insert_root i rel w = (Inr u, w')"
  obtains w1 where "same_registry w w1" and "rel \<notin> rr_path ` set (roots w1)" and "i \<in> lib_ids w1"
    and "w' = w1\<lparr>roots := roots w1 @ [\<lparr>rr_lib = i, rr_path = rel\<rparr>]\<rparr>"
  using assms unfolding insert_root_def
  by (rule adb_InrE) (auto simp: lib_ids_def intro: that split: if_splits)

lemma attach_claimed:
  assumes ok: "registry_ok w" and claimed: "claimed i rel w w1"
    and es: "set es = rr_path ` {r \<in> set (roots w). rr_lib r = i}"
    and apart: "\<forall>e \<in> set es. \<not> path_within_root rel e"
    and run: "seqm (eachm (\<lambda>e. whenm (path_within_root e rel \<and> e \<noteq> rel) (delete_root i e)) es)
      (insert_root i rel) w1 = (Inr u, w')"
  shows "attached i rel w w'"
proof -
  from run obtain x w2 where
    w2: "eachm (\<lambda>e. whenm (path_within_root e rel \<and> e \<noteq> rel) (delete_root i e)) es w1 = (Inr x, w2)"
    and ins: "insert_root i rel w2 = (Inr u, w')"
    by (rule seqm_InrE)
  from delete_roots_loop [OF w2] have
    roots2: "roots w2 = delete_where (\<lambda>r. rr_lib r = i \<and> rr_path r \<in> set es \<and>
      path_within_root (rr_path r) rel \<and> rr_path r \<noteq> rel) (roots w1)"
    and same2: "libs w2 = libs w1" "grants w2 = grants w1" by auto
  from claimed have ok1: "registry_ok w1"
    and roots1: "roots w1 = delete_where (\<lambda>r. rr_path r = rel) (roots w)"
    and others: "\<forall>r \<in> set (roots w1). rr_lib r \<noteq> i \<longrightarrow> \<not> roots_overlap (rr_path r) rel"
    by (auto simp: claimed_def)
  from roots1 roots2 es have roots2': "roots w2 =
      delete_where (\<lambda>r. rr_path r = rel \<or> rr_lib r = i \<and> path_within_root (rr_path r) rel) (roots w)"
    by (auto simp: delete_where_def intro!: filter_cong)
  from ok1 same2 have ok2: "registry_ok w2"
    by (auto simp: registry_ok_def roots2 lib_ids_def disjoint_roots_delete)
  have new: "rr_path r \<noteq> rel \<and> \<not> roots_overlap (rr_path r) rel" if "r \<in> set (roots w2)" for r
    using that others apart es by (auto simp: roots2' roots1 roots_overlap_def)
  from ins obtain w3 where w3: "same_registry w2 w3" "i \<in> lib_ids w3"
    "w' = w3\<lparr>roots := roots w3 @ [\<lparr>rr_lib = i, rr_path = rel\<rparr>]\<rparr>"
    by (rule insert_root_InrE)
  from w3 ok2 new have "registry_ok w'"
    by (auto simp: registry_ok_def same_registry_def lib_ids_def disjoint_roots_snoc)
  with w3 roots2' show ?thesis by (simp add: attached_def same_registry_def)
qed

lemma claim_root_claimed:
  assumes ok: "registry_ok w" and run: "claim_root i rel owner w = (Inr u, w')"
    and owner: "owner = (case find (\<lambda>r. rr_path r = rel) (roots w) of None \<Rightarrow> [] | Some r \<Rightarrow> rr_lib r)"
    and not_own: "rel \<notin> rr_path ` {r \<in> set (roots w). rr_lib r = i}"
  shows "claimed i rel w w' \<and> ((\<exists>r \<in> set (roots w). rr_path r = rel) \<or>
     (\<forall>r \<in> set (roots w). rr_lib r \<noteq> i \<longrightarrow> \<not> roots_overlap (rr_path r) rel))"
proof (cases "find (\<lambda>r. rr_path r = rel) (roots w)")
  case None
  then have free: "rel \<notin> rr_path ` set (roots w)" by (auto simp: find_None_iff)
  with claim_free_root [OF ok free] run None owner have cl: "claimed i rel w w'" by simp
  moreover from free have "delete_where (\<lambda>r. rr_path r = rel) (roots w) = roots w"
    by (auto simp: delete_where_def filter_id_conv)
  ultimately show ?thesis by (auto simp: claimed_def)
next
  case (Some r)
  from find_SomeD [OF Some] have r: "r \<in> set (roots w)" "rr_path r = rel" by auto
  with not_own have "rr_lib r \<noteq> i" by auto
  with claim_owned_root [OF ok r(1)] run owner Some r show ?thesis by auto
qed

lemma add_root_txn_Inr:
  assumes ok: "registry_ok w" and run: "add_root_txn i rel w = (Inr u, w')"
  shows "same_registry w w' \<and> (\<exists>r \<in> set (roots w). rr_lib r = i \<and> rr_path r = rel) \<or>
    (\<exists>w1. same_registry w w1 \<and> attached i rel w1 w' \<and>
      ((\<exists>r \<in> set (roots w). rr_path r = rel) \<or>
       (\<forall>r \<in> set (roots w). rr_lib r \<noteq> i \<longrightarrow> \<not> roots_overlap (rr_path r) rel)))"
proof -
  from run obtain dest w0 where dest: "store_get_library i w = (Inr dest, w0)"
    and rest: "(case check_dest_roots rel (root_paths dest) of Inl e \<Rightarrow> throw e
     | Inr present \<Rightarrow> if present then ret ()
         else bnd (library_id_for_exact_root rel) (\<lambda>owner. seqm (claim_root i rel owner)
          (seqm (eachm (\<lambda>e. whenm (path_within_root e rel \<and> e \<noteq> rel) (delete_root i e)) (root_paths dest))
            (insert_root i rel)))) w0 = (Inr u, w')"
    unfolding add_root_txn_def by (rule bnd_InrE)
  from dest have same: "same_registry w w0"
    and paths: "set (root_paths dest) = rr_path ` {x \<in> set (roots w). rr_lib x = i}"
    by (auto elim: store_get_library_InrE)
  from rest obtain b where b: "check_dest_roots rel (root_paths dest) = Inr b"
    by (cases "check_dest_roots rel (root_paths dest)") auto
  note found = check_dest_roots_Inr [OF b]
  show ?thesis
  proof (cases b)
    case True
    with rest b have "w' = w0" by simp
    with True found paths same show ?thesis by (auto simp: image_iff)
  next
    case False
    with rest b obtain owner w1 x w2 where o: "library_id_for_exact_root rel w0 = (Inr owner, w1)"
      and c: "claim_root i rel owner w1 = (Inr x, w2)"
      and fin: "seqm (eachm (\<lambda>e. whenm (path_within_root e rel \<and> e \<noteq> rel) (delete_root i e))
        (root_paths dest)) (insert_root i rel) w2 = (Inr u, w')"
      by (auto elim!: bnd_InrE seqm_InrE [of "claim_root i rel owner" for owner])
    from o have same1: "same_registry w0 w1" and owner: "owner = (case find (\<lambda>r. rr_path r = rel) (roots w1) of
        None \<Rightarrow> [] | Some r \<Rightarrow> rr_lib r)"
      unfolding library_id_for_exact_root_def by (auto elim!: adb_gets_InrE)
    from same_reg.trans [OF same same1] have same': "same_registry w w1" .
    with ok have ok1: "registry_ok w1" by (simp add: same_registry_ok)
    from same' paths have paths1: "set (root_paths dest) = rr_path ` {r \<in> set (roots w1). rr_lib r = i}"
      by (simp add: same_registry_def)
    have claimed: "claimed i rel w1 w2 \<and> ((\<exists>r \<in> set (roots w). rr_path r = rel) \<or>
       (\<forall>r \<in> set (roots w). rr_lib r \<noteq> i \<longrightarrow> \<not> roots_overlap (rr_path r) rel))"
      using claim_root_claimed [OF ok1 c owner] found False paths1 same' by (simp add: same_registry_def)
    from attach_claimed [OF ok1 _ paths1 _ fin] claimed found False have "attached i rel w1 w'" by simp
    with same' claimed show ?thesis by blast
  qed
qed

lemma attached_owner:
  assumes ok: "registry_ok w" and att: "attached i rel w w'"
  shows "owner_of w' p = (if path_within_root p rel then Some i else owner_of w p)"
proof (rule option_eqI)
  fix k
  from att have ok': "registry_ok w'" by (simp add: attached_def)
  have rows: "set (roots w') = insert \<lparr>rr_lib = i, rr_path = rel\<rparr>
      {r \<in> set (roots w). \<not> (rr_path r = rel \<or> rr_lib r = i \<and> path_within_root (rr_path r) rel)}"
    using att by (auto simp: attached_def)
  show "owner_of w' p = Some k \<longleftrightarrow> (if path_within_root p rel then Some i else owner_of w p) = Some k"
  proof (cases "path_within_root p rel")
    case True
    then have "owner_of w' p = Some i"
      unfolding owner_of_Some [OF ok'] by (rule_tac bexI [of _ "\<lparr>rr_lib = i, rr_path = rel\<rparr>"]) (simp_all add: rows)
    with True show ?thesis by simp
  next
    case False
    then have "\<not> path_within_root p (rr_path r)" if "path_within_root (rr_path r) rel" for r
      using that path_within_root_trans by blast
    with False show ?thesis
      unfolding if_not_P [OF False] owner_of_Some [OF ok] owner_of_Some [OF ok'] by (auto simp: rows)
  qed
qed

lemma attached_step:
  assumes ok: "registry_ok w" and att: "attached i rel w w'"
    and free: "(\<exists>r \<in> set (roots w). rr_path r = rel) \<or>
      (\<forall>r \<in> set (roots w). rr_lib r \<noteq> i \<longrightarrow> \<not> roots_overlap (rr_path r) rel)"
  shows "reg_step (owner_of w) (owner_of w')"
proof -
  from free have "(\<forall>q. path_within_root q rel \<longrightarrow> owner_of w q = None \<or> owner_of w q = Some i) \<or>
      (\<exists>j. \<forall>q. path_within_root q rel \<longrightarrow> owner_of w q = Some j)"
  proof
    assume "\<exists>r \<in> set (roots w). rr_path r = rel"
    then show ?thesis unfolding owner_of_Some [OF ok] by blast
  next
    assume apart: "\<forall>r \<in> set (roots w). rr_lib r \<noteq> i \<longrightarrow> \<not> roots_overlap (rr_path r) rel"
    have "owner_of w q = Some i" if "path_within_root q rel" "owner_of w q \<noteq> None" for q
      using that apart within_same_overlap unfolding owner_of_None owner_of_Some [OF ok] by blast
    then show ?thesis by blast
  qed
  then have "reg_step (owner_of w) (\<lambda>p. if path_within_root p rel then Some i else owner_of w p)"
    by (rule reg_assign)
  then show ?thesis using attached_owner [OF ok att] by presburger
qed

lemma add_root_txn_owner:
  assumes ok: "registry_ok w" and run: "add_root_txn i rel w = (Inr u, w')"
  shows "registry_ok w' \<and> (reg_step (owner_of w) (owner_of w') \<or> owner_of w' = owner_of w) \<and>
    owner_of w' = (\<lambda>p. if path_within_root p rel then Some i else owner_of w p)"
  using add_root_txn_Inr [OF ok run]
proof (rule disjE; (elim exE)?; (elim conjE)?)
  assume same: "same_registry w w'" and "\<exists>r \<in> set (roots w). rr_lib r = i \<and> rr_path r = rel"
  then have "owner_of w p = Some i" if "path_within_root p rel" for p
    using that unfolding owner_of_Some [OF ok] by blast
  with ok same show ?thesis by (auto simp: same_registry_ok same_registry_owner)
next
  fix w1
  assume same: "same_registry w w1" and att: "attached i rel w1 w'"
    and free: "(\<exists>r \<in> set (roots w). rr_path r = rel) \<or>
      (\<forall>r \<in> set (roots w). rr_lib r \<noteq> i \<longrightarrow> \<not> roots_overlap (rr_path r) rel)"
  from same ok have ok1: "registry_ok w1" by (simp add: same_registry_ok)
  from free same have free1: "(\<exists>r \<in> set (roots w1). rr_path r = rel) \<or>
      (\<forall>r \<in> set (roots w1). rr_lib r \<noteq> i \<longrightarrow> \<not> roots_overlap (rr_path r) rel)"
    by (simp add: same_registry_def)
  show ?thesis
    using attached_step [OF ok1 att free1] attached_owner [OF ok1 att] att same_registry_owner [OF same]
    by (auto simp: attached_def)
qed

section \<open>Removing a root\<close>

definition detached :: "string \<Rightarrow> string \<Rightarrow> access_world \<Rightarrow> access_world \<Rightarrow> bool" where
  "detached i rel w w' \<longleftrightarrow> registry_ok w' \<and> (\<exists>r \<in> set (roots w). rr_lib r = i \<and> rr_path r = rel) \<and>
     roots w' = delete_where (\<lambda>r. rr_lib r = i \<and> rr_path r = rel) (roots w) \<and>
     (lib_ids w' = lib_ids w \<or> lib_ids w' = lib_ids w - {i} \<and> i \<notin> rr_lib ` set (roots w'))"

lemma remove_root_txn_Inr:
  assumes ok: "registry_ok w" and run: "remove_root_txn i rel w = (Inr n, w')"
  shows "detached i rel w w' \<and> (n = 0 \<longleftrightarrow> i \<notin> lib_ids w')"
proof -
  let ?del = "\<lambda>w. w\<lparr>roots := delete_where (\<lambda>r. rr_lib r = i \<and> rr_path r = rel) (roots w)\<rparr>"
  let ?count = "adb (gets (\<lambda>w. length (filter (\<lambda>r. rr_lib r = i) (roots w))))"
  from run obtain x w1 where w1: "adb (\<lambda>w. if \<forall>r \<in> set (roots w). \<not> (rr_lib r = i \<and> rr_path r = rel)
        then (Inl ErrLibraryRootNotFound, w) else (Inr (), ?del w)) w = (Inr x, w1)"
    and r1: "seqm (delete_prefix_rows i rel) (bnd ?count (\<lambda>n.
       seqm (whenm (n = 0) (adb (modify (drop_library i)))) (ret n))) w1 = (Inr n, w')"
    unfolding remove_root_txn_def by (rule seqm_InrE)
  from w1 obtain w0 where w0: "same_registry w w0" "w1 = ?del w0"
    and row: "\<exists>r \<in> set (roots w). rr_lib r = i \<and> rr_path r = rel"
    by (rule adb_InrE) (auto simp: same_registry_def split: if_splits)
  from r1 obtain y w2 where w2: "delete_prefix_rows i rel w1 = (Inr y, w2)"
    and r2: "bnd ?count (\<lambda>n. seqm (whenm (n = 0) (adb (modify (drop_library i)))) (ret n)) w2 = (Inr n, w')"
    by (rule seqm_InrE)
  from respD_run [OF same_reg_prefix(1) w2] have s2: "same_registry w1 w2" .
  from r2 obtain m w3 where w3: "?count w2 = (Inr m, w3)"
    and r3: "seqm (whenm (m = 0) (adb (modify (drop_library i)))) (ret m) w3 = (Inr n, w')"
    by (rule bnd_InrE)
  from w3 have s3: "same_registry w2 w3" and m: "m = length (filter (\<lambda>r. rr_lib r = i) (roots w3))"
    by (auto elim: adb_gets_InrE)
  from r3 obtain z w4 where w4: "whenm (m = 0) (adb (modify (drop_library i))) w3 = (Inr z, w4)"
    and "(ret m :: nat acc_m) w4 = (Inr n, w')" by (rule seqm_InrE)
  then have fin: "w4 = w'" "n = m" by auto
  from w0 s2 s3 have roots3: "roots w3 = delete_where (\<lambda>r. rr_lib r = i \<and> rr_path r = rel) (roots w)"
    and rest3: "libs w3 = libs w" "grants w3 = grants w" by (simp_all add: same_registry_def)
  with ok have ok3: "registry_ok w3"
    by (auto simp: registry_ok_def lib_ids_def disjoint_roots_delete)
  have i: "i \<in> lib_ids w3" using row ok rest3 by (auto simp: registry_ok_def lib_ids_def)
  show ?thesis
  proof (cases "m = 0")
    case True
    with w4 fin obtain w5 where w5: "same_registry w3 w5" "w' = drop_library i w5"
      by (auto elim: adb_modify_InrE)
    from True m w5 have none: "i \<notin> rr_lib ` set (roots w5)"
      by (auto simp: same_registry_def filter_empty_conv)
    from ok3 w5 have "registry_ok w'" by (simp add: drop_library_ok same_registry_ok)
    moreover from w5 roots3 none drop_unused_roots [of i w5]
    have "roots w' = delete_where (\<lambda>r. rr_lib r = i \<and> rr_path r = rel) (roots w)" "roots w' = roots w5"
      by (simp_all add: same_registry_def)
    moreover from w5 rest3 have "lib_ids w' = lib_ids w - {i}"
      by (simp add: lib_ids_drop) (simp add: lib_ids_def same_registry_def)
    ultimately show ?thesis using True fin none row by (simp add: detached_def)
  next
    case False
    with w4 fin have "w' = w3" by simp
    with False fin ok3 roots3 rest3 i row show ?thesis by (auto simp: detached_def lib_ids_def)
  qed
qed

lemma detached_owner:
  assumes ok: "registry_ok w" and det: "detached i rel w w'"
  shows "owner_of w' = (\<lambda>p. if path_within_root p rel then None else owner_of w p)"
    and "path_within_root p rel \<Longrightarrow> owner_of w p = Some i"
proof -
  from det obtain r where r: "r \<in> set (roots w)" "rr_lib r = i" "rr_path r = rel"
    by (auto simp: detached_def)
  then show own: "path_within_root p rel \<Longrightarrow> owner_of w p = Some i" for p
    unfolding owner_of_Some [OF ok] by blast
  from ok have dis: "disjoint_roots (roots w)" by (simp add: registry_ok_def)
  from det have ok': "registry_ok w'" and rows: "set (roots w') = set (roots w) - {r}"
    using r disjoint_rootsD [OF dis _ r(1)] by (auto simp: detached_def)
  show "owner_of w' = (\<lambda>p. if path_within_root p rel then None else owner_of w p)"
  proof (rule ext)
    fix p
    show "owner_of w' p = (if path_within_root p rel then None else owner_of w p)"
    proof (cases "path_within_root p rel")
      case True
      then have "owner_of w' p = None"
        unfolding owner_of_None rows using containing_root_unique [OF dis _ r(1)] r(3) by auto
      with True show ?thesis by simp
    next
      case False
      with r(3) show ?thesis
        by (intro option_eqI) (auto simp: owner_of_Some [OF ok] owner_of_Some [OF ok'] rows)
    qed
  qed
qed

section \<open>Other statements\<close>

lemma drop_library_owner:
  assumes "registry_ok w"
  shows "owner_of (drop_library i w) = (\<lambda>p. if owner_of w p = Some i then None else owner_of w p)"
proof (rule ext)
  fix p
  have ok': "registry_ok (drop_library i w)" using assms by (rule drop_library_ok)
  have rows: "set (roots (drop_library i w)) = {r \<in> set (roots w). rr_lib r \<noteq> i}"
    by (simp add: drop_library_def)
  have "owner_of (drop_library i w) p = Some k \<longleftrightarrow> owner_of w p = Some k \<and> k \<noteq> i" for k
    unfolding owner_of_Some [OF assms] owner_of_Some [OF ok'] rows by auto
  then show "owner_of (drop_library i w) p = (if owner_of w p = Some i then None else owner_of w p)"
    by (intro option_eqI) auto
qed

lemma same_roots_owner: "roots w' = roots w \<Longrightarrow> owner_of w' = owner_of w"
  by (rule ext) (simp add: owner_of_def)

definition simulates :: "access_world \<Rightarrow> access_world \<Rightarrow> bool" where
  "simulates w w' \<longleftrightarrow> (registry_ok w \<longrightarrow> registry_ok w' \<and> reg_step\<^sup>*\<^sup>* (owner_of w) (owner_of w'))"

lemma simulates_same: "same_registry w w' \<Longrightarrow> simulates w w'"
  by (simp add: simulates_def same_registry_ok same_registry_owner)

interpretation sim: env_rel simulates
proof unfold_locales
  show "simulates s s" for s
    by (simp add: simulates_def)
  show "simulates s t \<Longrightarrow> simulates t u \<Longrightarrow> simulates s u" for s t u
    using rtranclp_trans [of reg_step "owner_of s" "owner_of t" "owner_of u"] by (auto simp only: simulates_def)
  show "simulates w (w\<lparr>w_faults := fs, w_rand := rs\<rparr>)" for w fs rs
    by (rule simulates_same) (simp add: same_registry_def)
qed

text \<open>Statements that keep the root table, and keep the rest of the invariant.\<close>

lemma simulates_same_roots:
  "roots w' = roots w \<Longrightarrow> (registry_ok w \<Longrightarrow> registry_ok w') \<Longrightarrow> simulates w w'"
  using same_roots_owner [of w' w] by (simp add: simulates_def)

lemma simulates_statement: "(\<And>w :: access_world. simulates w (snd (f w))) \<Longrightarrow> resp simulates (adb f)"
  unfolding adb_def by (intro sim.resp_io_call respI)

lemma sim_insert_library: "resp simulates (insert_library slug name ty)"
proof -
  have ok: "registry_ok (w\<lparr>libs := libs w @ [\<lparr>lr_id = i, lr_slug = slug, lr_name = name, lr_type = ty\<rparr>]\<rparr>)"
    if "registry_ok w" "i \<noteq> []" "i \<notin> lib_ids w" "slug \<notin> lr_slug ` set (libs w)" for w i
    using that by (auto simp: registry_ok_def lib_ids_def)
  have "resp simulates (\<lambda>w. if i = [] \<or> (\<exists>r \<in> set (libs w). lr_id r = i \<or> lr_slug r = slug) \<or> ty = TypeUnset
    then (Inl AccessDbError, w) else (Inr i, w\<lparr>libs := libs w @ [\<lparr>lr_id = i, lr_slug = slug,
      lr_name = name, lr_type = ty\<rparr>]\<rparr>))" for i
    by (rule respI) (auto simp: sim.refl lib_ids_def intro!: simulates_same_roots ok)
  then show ?thesis
    unfolding insert_library_def adb_def
    by (intro sim.resp_io_call sim.resp_bnd sim.resp_draw_env)
qed

lemma sim_delete_library: "resp simulates (store_delete_library i)"
  unfolding store_delete_library_def
proof (rule simulates_statement)
  fix w
  have "simulates w (drop_library i w)"
    by (auto simp: simulates_def drop_library_ok drop_library_owner intro: reg_drop)
  then show "simulates w (snd (if \<forall>r \<in> set (libs w). lr_id r \<noteq> i then (Inl ErrLibraryNotFound, w)
     else (Inr (), drop_library i w)))" by (simp add: sim.refl)
qed

lemma sim_update_library_row: "resp simulates (update_library_row i name ty)"
  unfolding update_library_row_def
proof (rule simulates_statement)
  fix w :: access_world
  let ?ls = "update_where (\<lambda>r. lr_id r = i)
    (\<lambda>r. r\<lparr>lr_name := (case name of None \<Rightarrow> lr_name r | Some n \<Rightarrow> n),
      lr_type := (case ty of None \<Rightarrow> lr_type r | Some t \<Rightarrow> t)\<rparr>) (libs w)"
  have "map lr_id ?ls = map lr_id (libs w)" "map lr_slug ?ls = map lr_slug (libs w)"
    by (simp_all add: map_update_where)
  then have "simulates w (w\<lparr>libs := ?ls\<rparr>)"
    by (intro simulates_same_roots) (simp_all add: registry_ok_def lib_ids_def flip: set_map)
  then show "simulates w (snd (if \<forall>r \<in> set (libs w). lr_id r \<noteq> i then (Inl ErrLibraryNotFound, w)
    else if ty = Some TypeUnset then (Inl AccessDbError, w) else (Inr (), w\<lparr>libs := ?ls\<rparr>)))"
    by (simp add: sim.refl)
qed

lemma sim_insert_grant: "resp simulates (insert_grant uid g)"
proof -
  have ok: "registry_ok (w\<lparr>grants := grants w @ [\<lparr>gr_user = uid, gr_lib = gi_lib g, gr_perms = gi_perms g\<rparr>]\<rparr>)"
    if "registry_ok w" "\<not> (\<exists>x \<in> set (grants w). gr_user x = uid \<and> gr_lib x = gi_lib g)"
      "gi_lib g \<in> lib_ids w" "\<not> perms_empty (gi_perms g)" for w
    using that by (auto simp: registry_ok_def lib_ids_def)
  show ?thesis
    unfolding insert_grant_def
    by (rule simulates_statement)
      (auto simp: sim.refl lib_ids_def intro!: simulates_same_roots ok rev_image_eqI)
qed

lemma sim_replace_grants: "resp simulates (replace_user_grants uid gs)"
proof -
  have "resp simulates (adb (modify (\<lambda>w. w\<lparr>grants := delete_where (\<lambda>g. gr_user g = uid) (grants w)\<rparr>)))"
    by (rule simulates_statement)
      (auto simp: registry_ok_def lib_ids_def distinct_map_delete_where list_all_iff subset_iff
        intro!: simulates_same_roots)
  then have "resp simulates (seqm (adb (modify (\<lambda>w. w\<lparr>grants := delete_where (\<lambda>g. gr_user g = uid) (grants w)\<rparr>)))
     (eachm (\<lambda>g. if perms_empty (gi_perms g) then ret () else insert_grant uid g) gs))"
    by (intro sim.resp_seqm sim.resp_eachm sim.resp_if sim.resp_ret sim_insert_grant)
  then show ?thesis
    unfolding replace_user_grants_def by (intro sim.resp_transaction) (rule respD_run)
qed

lemma sim_add_root: "resp simulates (transaction (add_root_txn i rel))"
  by (rule sim.resp_transaction) (auto simp: simulates_def dest: add_root_txn_owner)

lemma sim_remove_root: "resp simulates (transaction (remove_root_txn i rel))"
proof (rule sim.resp_transaction)
  fix w n w'
  assume run: "remove_root_txn i rel w = (Inr n, w')"
  show "simulates w w'"
    unfolding simulates_def
  proof (intro impI)
    assume ok: "registry_ok w"
    from remove_root_txn_Inr [OF ok run] have det: "detached i rel w w'" by simp
    have "reg_step (owner_of w) (\<lambda>p. if path_within_root p rel then None else owner_of w p)"
      by (rule reg_release) (rule detached_owner(2) [OF ok det])
    with det detached_owner(1) [OF ok det] show "registry_ok w' \<and> reg_step\<^sup>*\<^sup>* (owner_of w) (owner_of w')"
      by (simp add: detached_def)
  qed
qed

end
