(* ===== verification/AccessSafety.thy ===== *)
theory AccessSafety
  imports AccessRegistry
begin

text \<open>
  The access service over its store. \<open>registry_contract\<close> is the interface: six statements or
  transactions of the store have to respect a step relation, and then every request does. It is interpreted on
  \<open>simulates\<close>; the properties of the registry, of permissions and of grants follow.
\<close>

section \<open>Requests\<close>

datatype access_request =
    ReqCreateLibrary string string string
  | ReqUpdateLibrary string "string option" "string option"
  | ReqDeleteLibrary string
  | ReqAddRoot string string
  | ReqUpsertLibrary library
  | ReqRemoveRoot string string
  | ReqPrune "string \<Rightarrow> bool"
  | ReqSetGrants string string "grant_input list"
  | ReqUserGrants string
  | ReqListReadable public_user
  | ReqRead public_user string
  | ReqCreate public_user string
  | ReqUpdate public_user string
  | ReqDelete public_user string
  | ReqBrowse public_user string "item list"

fun serve_access :: "access_request \<Rightarrow> access_world \<Rightarrow> access_world" where
  "serve_access (ReqCreateLibrary n s t) w = snd (create_library n s t w)"
| "serve_access (ReqUpdateLibrary i n t) w = snd (update_library i n t w)"
| "serve_access (ReqDeleteLibrary i) w = snd (delete_library i w)"
| "serve_access (ReqAddRoot i rel) w = snd (add_root i rel w)"
| "serve_access (ReqUpsertLibrary l) w = snd (store_upsert_library l w)"
| "serve_access (ReqRemoveRoot i rel) w = snd (remove_root i rel w)"
| "serve_access (ReqPrune is_dir) w = snd (sync_all_libraries is_dir w)"
| "serve_access (ReqSetGrants u role gs) w = snd (set_user_grants u role gs w)"
| "serve_access (ReqUserGrants u) w = snd (get_user_grants u w)"
| "serve_access (ReqListReadable u) w = snd (list_readable_libraries u w)"
| "serve_access (ReqRead u p) w = snd (can_read u p w)"
| "serve_access (ReqCreate u p) w = snd (can_create u p w)"
| "serve_access (ReqUpdate u p) w = snd (can_update u p w)"
| "serve_access (ReqDelete u p) w = snd (can_delete u p w)"
| "serve_access (ReqBrowse u p items) w =
     snd (bnd (can_browse u p) (\<lambda>ok. if ok then filter_browse_response u items else ret []) w)"

definition access_history :: "access_request list \<Rightarrow> access_world \<Rightarrow> access_world" where
  "access_history rs w = fold serve_access rs w"

section \<open>The interface of the store\<close>

locale registry_reader = env_rel R for R :: "access_world \<Rightarrow> access_world \<Rightarrow> bool"
begin

lemma reads:
  "resp R store_list_libraries" "resp R (store_get_library i)" "resp R (get_user_grant_map uid)"
  "resp R (library_id_for_exact_root rel)"
  unfolding store_list_libraries_def store_get_library_def get_user_grant_map_def
    library_id_for_exact_root_def adb_def
  by (rule resp_io_read, simp split: option.splits)+

lemma permissions: "resp R (permissions_for_path uid raw)"
  unfolding permissions_for_path_def
  by (intro resp_sum resp_bnd resp_if resp_throw resp_ret resp_option reads)

lemma checks:
  "resp R (can_read u raw)" "resp R (check_permission u raw c)"
  "resp R (can_create u raw)" "resp R (can_update u raw)" "resp R (can_delete u raw)"
  unfolding can_read_def can_create_def can_update_def can_delete_def check_permission_def
  by (intro resp_bnd resp_if resp_ret resp_option permissions)+

lemma browse: "resp R (can_browse u raw)"
  unfolding can_browse_def by (intro resp_if resp_ret resp_sum resp_throw checks)

lemma children: "resp R (filter_children u ls cs)"
proof (induction cs)
  case (Cons c cs)
  then show ?case
    unfolding filter_children.simps by (intro resp_if resp_bnd resp_ret checks)
qed (unfold filter_children.simps, rule resp_ret)

end

interpretation reads_only: registry_reader same_registry
  by unfold_locales

locale registry_contract = registry_reader R for R :: "access_world \<Rightarrow> access_world \<Rightarrow> bool" +
  assumes insert_library: "resp R (insert_library slug name ty)"
    and drop_library: "resp R (store_delete_library i)"
    and update_library: "resp R (update_library_row i new_name new_ty)"
    and add_root: "resp R (transaction (add_root_txn i rel))"
    and remove_root: "resp R (transaction (remove_root_txn i rel))"
    and replace_grants: "resp R (replace_user_grants uid gs)"
begin

lemma allocate: "resp R (allocate_slug base)"
  unfolding allocate_slug_def adb_def Let_def
  by (intro resp_bnd resp_io_read resp_if resp_ret resp_option resp_throw) simp

lemma store_ops:
  "resp R (store_create_library l)" "resp R (store_update_library i name ty)"
  "resp R (store_add_root i rel)" "resp R (store_remove_root i rel)"
  unfolding store_create_library_def store_update_library_def store_add_root_def store_remove_root_def
  by (intro resp_bnd resp_seqm resp_if resp_throw resp_ret reads allocate insert_library update_library
      add_root remove_root)+

lemma upsert: "resp R (store_upsert_library l)"
  unfolding store_upsert_library_def Let_def
  by (intro resp_bnd resp_if resp_throw reads store_ops)

lemma prune_roots: "resp R (prune_library_roots is_dir i rs l n)"
proof (induction rs arbitrary: l n)
  case (Cons r rs)
  then show ?case
    unfolding prune_library_roots.simps
    by (intro resp_if resp_bnd resp_attempt store_ops resp_sum resp_ret resp_throw)
qed (simp add: resp_ret)

lemma prune: "resp R (prune_loop is_dir ls kept n)"
proof (induction ls arbitrary: kept n)
  case (Cons l ls)
  then show ?case
    unfolding prune_loop.simps by (intro resp_bnd resp_prod prune_roots)
qed (simp add: resp_ret)

lemma serves: "R w (serve_access req w)"
proof (cases req)
  case (ReqPrune is_dir)
  have "resp R (sync_all_libraries is_dir)"
    unfolding sync_all_libraries_def prune_missing_roots_def
    by (intro resp_bnd resp_prod resp_ret prune reads)
  with ReqPrune show ?thesis by (simp add: respD)
next
  case (ReqCreateLibrary n s t)
  have "resp R (create_library n s t)"
    unfolding create_library_def Let_def by (intro resp_if resp_throw resp_sum store_ops)
  with ReqCreateLibrary show ?thesis by (simp add: respD)
next
  case (ReqUpdateLibrary i n t)
  have "resp R (AccessService.update_library i n t)"
    unfolding AccessService.update_library_def by (intro resp_if resp_throw resp_sum store_ops)
  with ReqUpdateLibrary show ?thesis by (simp add: respD)
next
  case (ReqAddRoot i rel)
  have "resp R (decide_root i c d)" for c d
    unfolding decide_root_def by (cases d) (auto intro: store_ops resp_ret resp_throw split: root_decision.split)
  then have "resp R (AccessService.add_root i rel)"
    unfolding AccessService.add_root_def by (intro resp_sum resp_throw resp_seqm resp_bnd reads)
  with ReqAddRoot show ?thesis by (simp add: respD)
next
  case (ReqRemoveRoot i rel)
  have "resp R (AccessService.remove_root i rel)"
    unfolding AccessService.remove_root_def Let_def by (intro resp_if resp_throw store_ops)
  with ReqRemoveRoot show ?thesis by (simp add: respD)
next
  case (ReqSetGrants u role gs)
  have "resp R (set_user_grants u role gs)"
    unfolding set_user_grants_def by (intro resp_if resp_throw resp_bnd resp_option reads replace_grants)
  with ReqSetGrants show ?thesis by (simp add: respD)
next
  case (ReqUserGrants u)
  have "resp R (get_user_grants u)"
    unfolding get_user_grants_def by (intro resp_bnd resp_ret reads)
  with ReqUserGrants show ?thesis by (simp add: respD)
next
  case (ReqListReadable u)
  have "resp R (list_readable_libraries u)"
    unfolding list_readable_libraries_def by (intro resp_if resp_bnd resp_ret reads)
  with ReqListReadable show ?thesis by (simp add: respD)
next
  case (ReqBrowse u p items)
  have "resp R (bnd (can_browse u p) (\<lambda>ok. if ok then filter_browse_response u items else ret []))"
    unfolding filter_browse_response_def by (intro resp_bnd resp_if resp_ret browse reads children)
  with ReqBrowse show ?thesis by (simp add: respD)
qed (simp_all add: respD drop_library delete_library_def upsert checks)

lemma history: "R w (access_history reqs w)"
proof (induction reqs arbitrary: w)
  case (Cons req reqs)
  from trans [OF serves Cons.IH] show ?case by (simp add: access_history_def)
qed (simp add: access_history_def refl)

end

interpretation registry: registry_contract simulates
  by unfold_locales
    (rule sim_insert_library sim_delete_library sim_update_library_row sim_add_root sim_remove_root
      sim_replace_grants)+


definition demo_registry :: access_world where
  "demo_registry = \<lparr>w_faults = [], w_rand = [''id9''], w_now = 0,
     libs = [\<lparr>lr_id = ''m'', lr_slug = ''films'', lr_name = ''Films'', lr_type = TypeFilm\<rparr>,
       \<lparr>lr_id = ''s'', lr_slug = ''shows'', lr_name = ''Shows'', lr_type = TypeSeries\<rparr>],
     roots = [\<lparr>rr_lib = ''m'', rr_path = ''films''\<rparr>, \<lparr>rr_lib = ''m'', rr_path = ''a_b''\<rparr>,
       \<lparr>rr_lib = ''m'', rr_path = ''axb''\<rparr>, \<lparr>rr_lib = ''s'', rr_path = ''shows''\<rparr>],
     grants = [\<lparr>gr_user = ''u'', gr_lib = ''m'',
       gr_perms = \<lparr>p_create = False, p_read = True, p_update = False, p_delete = False\<rparr>\<rparr>],
     accounts = [''u'', ''v''],
     metas = [\<lparr>mr_user = [], mr_lib = ''m'', mr_path = ''a_b/1.mkv'', mt_body = ''A''\<rparr>,
       \<lparr>mr_user = [], mr_lib = ''m'', mr_path = ''axb/2.mkv'', mt_body = ''B''\<rparr>],
     watches = [\<lparr>mr_user = ''u'', mr_lib = ''s'', mr_path = ''shows/1.mkv'',
       wr_watched = False, wr_position = Some 60, wr_duration = Some 120, wr_watched_at = 0, wr_updated_at = 0\<rparr>],
     favs = []\<rparr>"

lemma demo_registry_ok: "registry_ok demo_registry"
  by (simp add: registry_ok_def demo_registry_def disjoint_roots_def lib_ids_def perms_empty_def
    roots_overlap_def path_within_root_def normalize_rel_path_def trim_space_def trim_both_def trim_left_def
    trim_right_def trim_prefix_def has_prefix_def is_space_def)


section \<open>Adding and removing a root\<close>

lemma store_add_root_owner:
  assumes ok: "registry_ok w" and run: "store_add_root i rel w = (Inr l, w')"
  shows "owner_of w' = (\<lambda>p. if path_within_root p rel then Some i else owner_of w p) \<and> lib_id l = i"
proof -
  from run obtain u w1 where "transaction (add_root_txn i rel) w = (Inr u, w1)"
    and get: "store_get_library i w1 = (Inr l, w')"
    unfolding store_add_root_def by (rule seqm_InrE)
  then have "add_root_txn i rel w = (Inr u, w1)" by (elim transaction_InrE)
  from add_root_txn_owner [OF ok this] get show ?thesis
    by (auto elim!: store_get_library_InrE simp: same_registry_owner)
qed

lemma scan_roots_keep: "scan_roots i rel l rs = Some (KeepLibrary k) \<Longrightarrow> k = l \<and> lib_id l = i \<and> rel \<in> set rs"
  by (induction rs) (auto split: if_splits)

lemma scan_libraries_keep:
  "scan_libraries i rel ls = Some (KeepLibrary k) \<Longrightarrow> k \<in> set ls \<and> lib_id k = i \<and> rel \<in> set (root_paths k)"
  by (induction ls) (auto split: option.splits dest: scan_roots_keep)

lemma list_libraries_InrE:
  assumes "store_list_libraries w = (Inr ls, w')"
  obtains "same_registry w w'" and "ls = map (library_from_model w) (asc_by lr_name (libs w))"
proof -
  from assms have same: "same_registry w w'" and ls: "ls = map (library_from_model w') (asc_by lr_name (libs w'))"
    unfolding store_list_libraries_def by (auto elim: adb_gets_InrE)
  have "library_from_model w' = library_from_model w"
    using same by (rule_tac ext) (simp add: library_from_model_def roots_of_def same_registry_def)
  with same ls that show thesis by (simp add: same_registry_def)
qed

lemma listed_root_row:
  assumes "k \<in> set (map (library_from_model w) (asc_by lr_name (libs w)))" and "rel \<in> set (root_paths k)"
  shows "\<exists>r \<in> set (roots w). rr_lib r = lib_id k \<and> rr_path r = rel"
proof -
  from assms(1) obtain row where k: "k = library_from_model w row" by auto
  then have "lib_id k = lr_id row" by (simp add: library_from_model_def Let_def)
  with k assms(2) set_root_paths_row [of w row] show ?thesis by auto
qed

text \<open>A successful \<open>AddRoot\<close> gives the folder and everything below it to the library, whoever
  owned it before, and changes the owner of no other path.\<close>

lemma add_root_takes_ownership:
  assumes ok: "registry_ok w" and run: "add_root i raw w = (Inr l, w')"
  shows "owner_of w' = (\<lambda>p. if path_within_root p (normalize_rel_path raw) then Some i else owner_of w p) \<and>
    lib_id l = i"
proof -
  let ?rel = "normalize_rel_path raw"
  from run have valid: "validate_root_path raw = Inr ?rel"
    by (auto simp: add_root_def validate_root_path_def Let_def split: if_splits)
  from run valid have "seqm (store_get_library i) (bnd store_list_libraries (\<lambda>libraries.
      decide_root i ?rel (scan_libraries i ?rel libraries))) w = (Inr l, w')"
    by (simp add: add_root_def)
  then obtain d w1 where w1: "store_get_library i w = (Inr d, w1)"
    and rest: "bnd store_list_libraries (\<lambda>libraries.
      decide_root i ?rel (scan_libraries i ?rel libraries)) w1 = (Inr l, w')" by (rule seqm_InrE)
  from rest obtain ls w2 where w2: "store_list_libraries w1 = (Inr ls, w2)"
    and dec: "decide_root i ?rel (scan_libraries i ?rel ls) w2 = (Inr l, w')" by (rule bnd_InrE)
  from w1 have s1: "same_registry w w1" by (rule store_get_library_InrE)
  from w2 have s2: "same_registry w1 w2" and ls: "ls = map (library_from_model w1) (asc_by lr_name (libs w1))"
    by (auto elim: list_libraries_InrE)
  from same_reg.trans [OF s1 s2] have same: "same_registry w w2" .
  with ok have ok2: "registry_ok w2" by (simp add: same_registry_ok)
  show ?thesis
  proof (cases "\<exists>k. scan_libraries i ?rel ls = Some (KeepLibrary k)")
    case True
    then obtain k where scan: "scan_libraries i ?rel ls = Some (KeepLibrary k)" by blast
    from scan_libraries_keep [OF this] ls listed_root_row [of k w1 ?rel]
    have "\<exists>r \<in> set (roots w1). rr_lib r = i \<and> rr_path r = ?rel" and k: "lib_id k = i" by auto
    with s1 have "owner_of w p = Some i" if "path_within_root p ?rel" for p
      using that unfolding owner_of_Some [OF ok] same_registry_def by auto
    moreover from dec scan have "l = k" "w' = w2" by (simp_all add: decide_root_def)
    ultimately show ?thesis using k same_registry_owner [OF same] by auto
  next
    case False
    with dec have "store_add_root i ?rel w2 = (Inr l, w')"
      by (auto simp: decide_root_def split: option.splits root_decision.splits)
    from store_add_root_owner [OF ok2 this] same_registry_owner [OF same] show ?thesis
      by (simp cong: if_cong)
  qed
qed

lemma add_root_takes_ownership_witness:
  "lib_id (projr (fst (add_root ''s'' ''films'' demo_registry))) = ''s'' \<and>
   owner_of (snd (add_root ''s'' ''films'' demo_registry)) ''films/1.mkv'' = Some ''s''"
proof -
  have "\<not> isl (fst (add_root ''s'' ''films'' demo_registry))" by code_simp
  from add_root_takes_ownership [OF demo_registry_ok run_of_Inr [OF this]]
  have "lib_id (projr (fst (add_root ''s'' ''films'' demo_registry))) = ''s''"
    and owner: "owner_of (snd (add_root ''s'' ''films'' demo_registry)) =
      (\<lambda>p. if path_within_root p (normalize_rel_path ''films'') then Some ''s'' else owner_of demo_registry p)"
    by auto
  moreover have "path_within_root ''films/1.mkv'' (normalize_rel_path ''films'')" by code_simp
  ultimately show ?thesis by simp
qed

lemma remove_root_txn_not_gone: "remove_root_txn i rel w \<noteq> (Inl ErrLibraryNotFound, w')"
proof
  assume "remove_root_txn i rel w = (Inl ErrLibraryNotFound, w')"
  then show False
    by (auto simp: remove_root_txn_def run_seqm run_bnd adb_def io_call_def delete_prefix_rows_def Let_def
        split: prod.splits sum.splits if_splits)
qed

lemma store_get_library_Inl:
  assumes "store_get_library i w = (Inl e, w')" and "i \<in> lib_ids w"
  shows "e = AccessDbError \<and> same_registry w w'"
  using assms
  by (auto simp: store_get_library_def adb_def io_call_def Let_def lib_ids_def same_registry_def find_None_iff
      split: if_splits option.splits)

text \<open>Removing a root: when \<open>RemoveRoot\<close> returns the library, or answers that the library is gone,
  nobody owns the folder any more and no other path has changed its owner; every path below the folder
  belonged to the library before; and the library is gone exactly in the second case.\<close>

lemma remove_root_releases:
  assumes ok: "registry_ok w" and run: "remove_root i raw w = (r, w')"
    and r: "r = Inr l \<or> r = Inl ErrLibraryNotFound"
  shows "owner_of w' = (\<lambda>p. if path_within_root p (normalize_rel_path raw) then None else owner_of w p) \<and>
    (path_within_root p (normalize_rel_path raw) \<longrightarrow> owner_of w p = Some i) \<and>
    (r = Inl ErrLibraryNotFound \<longleftrightarrow> i \<notin> lib_ids w')"
proof -
  let ?rel = "normalize_rel_path raw"
  from run r have run': "store_remove_root i ?rel w = (r, w')"
    by (auto simp: remove_root_def Let_def split: if_splits)
  have "\<exists>n w1. remove_root_txn i ?rel w = (Inr n, w1) \<and>
      (if n = 0 then throw ErrLibraryNotFound else store_get_library i) w1 = (r, w')"
    using run' r remove_root_txn_not_gone [of i ?rel w]
    by (cases "remove_root_txn i ?rel w"; cases "fst (remove_root_txn i ?rel w)")
      (auto simp: store_remove_root_def run_bnd transaction_def)
  then obtain n w1 where txn: "remove_root_txn i ?rel w = (Inr n, w1)"
    and rest: "(if n = 0 then throw ErrLibraryNotFound else store_get_library i) w1 = (r, w')" by blast
  from remove_root_txn_Inr [OF ok txn] have det: "detached i ?rel w w1" and n: "n = 0 \<longleftrightarrow> i \<notin> lib_ids w1"
    by auto
  have "same_registry w1 w' \<and> (r = Inl ErrLibraryNotFound \<longleftrightarrow> n = 0)"
  proof (cases "n = 0")
    case True
    with rest show ?thesis by (auto simp: same_reg.refl)
  next
    case False
    with rest have "store_get_library i w1 = (r, w')" by simp
    with r n False show ?thesis
      by (auto elim: store_get_library_InrE dest: store_get_library_Inl)
  qed
  then show ?thesis
    using detached_owner [OF ok det] n same_registry_owner [of w1 w']
    by (auto simp: lib_ids_def same_registry_def cong: if_cong)
qed

lemma remove_root_releases_witness:
  "owner_of (snd (remove_root ''m'' ''films'' demo_registry)) ''films/1.mkv'' = None \<and>
   owner_of demo_registry ''films/1.mkv'' = Some ''m'' \<and>
   ''m'' \<in> lib_ids (snd (remove_root ''m'' ''films'' demo_registry))"
proof -
  let ?x = "remove_root ''m'' ''films'' demo_registry"
  have "\<not> isl (fst ?x)" by code_simp
  then have run: "?x = (Inr (projr (fst ?x)), snd ?x)" by (rule run_of_Inr)
  have "path_within_root ''films/1.mkv'' (normalize_rel_path ''films'')" by code_simp
  with remove_root_releases [OF demo_registry_ok run, of "projr (fst ?x)" "''films/1.mkv''"] show ?thesis
    by simp
qed

section \<open>Matching against the registry\<close>

lemma nothing_at_media_root: "path_within_root c r \<Longrightarrow> c \<noteq> []"
  by (auto simp: path_within_root_cases normalize_rel_path_def trim_space_def trim_both_def trim_left_def
      trim_right_def trim_prefix_def has_prefix_def)

lemma match_owner:
  assumes ok: "registry_ok w" and run: "store_list_libraries w = (Inr ls, w')"
  shows "map_option lib_id (match_library ls raw) =
    (case canonical_rel_path raw of Inl _ \<Rightarrow> None | Inr c \<Rightarrow> owner_of w c)"
proof -
  from run have ls: "ls = map (library_from_model w) (asc_by lr_name (libs w))"
    by (rule list_libraries_InrE)
  have listed: "\<exists>k \<in> set ls. lib_id k = rr_lib r \<and> rr_path r \<in> set (root_paths k)" if "r \<in> set (roots w)" for r
  proof -
    from ok that have "rr_lib r \<in> lib_ids w" by (auto simp: registry_ok_def)
    then obtain row where row: "row \<in> set (libs w)" "lr_id row = rr_lib r" by (auto simp: lib_ids_def)
    have "lib_id (library_from_model w row) = lr_id row" by (simp add: library_from_model_def Let_def)
    with row that set_root_paths_row [of w row] ls show ?thesis
      by (intro bexI [of _ "library_from_model w row"]) auto
  qed
  show ?thesis
  proof (cases "match_library ls raw")
    case None
    have "owner_of w c = None" if c: "canonical_rel_path raw = Inr c" for c
      unfolding owner_of_None
    proof
      assume "\<exists>r \<in> set (roots w). path_within_root c (rr_path r)"
      then obtain r where r: "r \<in> set (roots w)" "path_within_root c (rr_path r)" by blast
      from listed [OF r(1)] obtain k where k: "k \<in> set ls" "rr_path r \<in> set (root_paths k)" by blast
      from match_library_None [THEN iffD1, OF None, rule_format, OF c nothing_at_media_root [OF r(2)] k] r(2)
      show False by contradiction
    qed
    with None show ?thesis by (cases "canonical_rel_path raw") simp_all
  next
    case (Some l)
    then obtain c r where c: "canonical_rel_path raw = Inr c" and l: "l \<in> set ls"
      and r: "r \<in> set (root_paths l)" "path_within_root c r"
      by (rule match_library_Some) blast
    from listed_root_row [OF l [unfolded ls] r(1)] r(2) have "owner_of w c = Some (lib_id l)"
      unfolding owner_of_Some [OF ok] by blast
    with Some c show ?thesis by simp
  qed
qed

text \<open>Matching a request path against the registered libraries is a lookup in the abstract map: the
  library \<open>MatchLibrary\<close> selects from the list of all libraries is the owner of the canonical path, and
  none is selected when the path is refused, is the media root or is owned by nobody.\<close>

lemma match_library_is_owner:
  assumes "registry_ok w" and "store_list_libraries w = (Inr ls, w')"
  shows "map_option lib_id (match_library ls raw) =
    (case canonical_rel_path raw of Inl _ \<Rightarrow> None | Inr c \<Rightarrow> owner_of w c)"
  using assms by (rule match_owner)

lemma match_library_is_owner_witness:
  "map_option lib_id (match_library (projr (fst (store_list_libraries demo_registry))) ''/shows/%31.mkv'') =
   owner_of demo_registry ''shows/1.mkv''"
proof -
  let ?x = "store_list_libraries demo_registry"
  have "\<not> isl (fst ?x)" by code_simp
  then have run: "?x = (Inr (projr (fst ?x)), snd ?x)" by (rule run_of_Inr)
  have "canonical_rel_path ''/shows/%31.mkv'' = Inr ''shows/1.mkv''" by code_simp
  with match_library_is_owner [OF demo_registry_ok run, of "''/shows/%31.mkv''"] show ?thesis by simp
qed

section \<open>Permissions\<close>

lemma distinct_map_fst_in:
  assumes "distinct (map fst xs)"
  shows "map_of (rev xs) k = Some v \<longleftrightarrow> (k, v) \<in> set xs"
  using assms by (metis distinct_rev map_of_eq_Some_iff rev_map set_rev)

lemma user_grants_distinct:
  assumes "distinct (map (\<lambda>g. (gr_user g, gr_lib g)) gs)"
  shows "distinct (map fst (map (\<lambda>g. (gr_lib g, gr_perms g)) (filter (\<lambda>g. gr_user g = uid) gs)))"
  using assms by (induction gs) (auto simp: image_iff)

lemma get_user_grant_map_InrE:
  assumes "registry_ok w" and "get_user_grant_map uid w = (Inr gs, w')"
  obtains "same_registry w w'" and "\<And>i p. gs i = Some p \<longleftrightarrow>
    (\<exists>g \<in> set (grants w). gr_user g = uid \<and> gr_lib g = i \<and> gr_perms g = p)"
proof -
  from assms(2) have same: "same_registry w w'"
    and gs: "gs = map_of (rev (map (\<lambda>g. (gr_lib g, gr_perms g)) (filter (\<lambda>g. gr_user g = uid) (grants w'))))"
    unfolding get_user_grant_map_def by (auto elim: adb_gets_InrE)
  from assms(1) same have "distinct (map (\<lambda>g. (gr_user g, gr_lib g)) (grants w'))"
    by (simp add: registry_ok_def same_registry_def)
  from distinct_map_fst_in [OF user_grants_distinct [OF this, of uid]] gs same
  have "gs i = Some p \<longleftrightarrow> (\<exists>g \<in> set (grants w). gr_user g = uid \<and> gr_lib g = i \<and> gr_perms g = p)" for i p
    by (auto simp: same_registry_def image_iff)
  with same that show thesis by blast
qed

text \<open>The grant row that covers a path, through the twice canonicalised path the check uses.\<close>

definition granted :: "access_world \<Rightarrow> (permissions \<Rightarrow> bool) \<Rightarrow> string \<Rightarrow> string \<Rightarrow> bool" where
  "granted w flag uid c \<longleftrightarrow> (case canonical_rel_path c of Inl _ \<Rightarrow> False | Inr c' \<Rightarrow>
     (\<exists>g \<in> set (grants w). gr_user g = uid \<and> owner_of w c' = Some (gr_lib g) \<and> flag (gr_perms g)))"

lemma library_grant_InrE:
  assumes ok: "registry_ok w" and owner: "owner_of w c' = Some (lib_id l)" and c: "canonical_rel_path c = Inr c'"
    and run: "bnd (get_user_grant_map uid) (\<lambda>gs. ret (gs (lib_id l))) w = (Inr ps, w')"
  shows "(case ps of None \<Rightarrow> False | Some p \<Rightarrow> flag p) \<longleftrightarrow> granted w flag uid c"
proof -
  from run obtain gs w2 where gs: "get_user_grant_map uid w = (Inr gs, w2)"
    and "(ret (gs (lib_id l)) :: permissions option acc_m) w2 = (Inr ps, w')" by (rule bnd_InrE)
  then have ps: "ps = gs (lib_id l)" by simp
  have lookup: "gs i = Some p \<longleftrightarrow>
      (\<exists>g \<in> set (grants w). gr_user g = uid \<and> gr_lib g = i \<and> gr_perms g = p)" for i p
    using ok gs by (rule get_user_grant_map_InrE)
  have "(case ps of None \<Rightarrow> False | Some p \<Rightarrow> flag p) \<longleftrightarrow> (\<exists>p. gs (lib_id l) = Some p \<and> flag p)"
    by (simp add: ps split: option.splits)
  also have "\<dots> \<longleftrightarrow> granted w flag uid c"
    unfolding granted_def lookup owner c sum.case option.inject by metis
  finally show ?thesis .
qed

lemma granted_same: "same_registry w w' \<Longrightarrow> granted w' flag uid c \<longleftrightarrow> granted w flag uid c"
  using same_registry_owner [of w w'] by (simp add: granted_def same_registry_def cong: sum.case_cong)

lemma permissions_for_path_InrE:
  assumes ok: "registry_ok w" and run: "permissions_for_path uid raw w = (Inr ps, w')"
    and c: "canonical_rel_path raw = Inr c" and ne: "c \<noteq> []"
  shows "(case ps of None \<Rightarrow> False | Some p \<Rightarrow> flag p) \<longleftrightarrow> granted w flag uid c"
proof -
  from c ne run have "bnd store_list_libraries (\<lambda>libraries. case match_library libraries c of
      None \<Rightarrow> ret None | Some l \<Rightarrow> bnd (get_user_grant_map uid) (\<lambda>gs. ret (gs (lib_id l)))) w = (Inr ps, w')"
    by (simp add: permissions_for_path_def)
  then obtain ls w1 where ls: "store_list_libraries w = (Inr ls, w1)" and rest: "(case match_library ls c of
      None \<Rightarrow> ret None | Some l \<Rightarrow> bnd (get_user_grant_map uid) (\<lambda>gs. ret (gs (lib_id l)))) w1 = (Inr ps, w')"
    by (rule bnd_InrE)
  from ls have same: "same_registry w w1" by (rule list_libraries_InrE)
  with ok have ok1: "registry_ok w1" by (simp add: same_registry_ok)
  note own = match_owner [OF ok ls, of c]
  show ?thesis
  proof (cases "match_library ls c")
    case None
    with own have "\<not> granted w flag uid c" by (simp add: granted_def split: sum.splits)
    with None rest show ?thesis by simp
  next
    case (Some l)
    with own obtain c' where c': "canonical_rel_path c = Inr c'" and o: "owner_of w c' = Some (lib_id l)"
      by (cases "canonical_rel_path c") auto
    from o same have "owner_of w1 c' = Some (lib_id l)" by (simp add: same_registry_owner)
    from library_grant_InrE [OF ok1 this c'] rest Some granted_same [OF same] show ?thesis by simp
  qed
qed

lemma checks_eq:
  "can_read u raw = check_permission u raw p_read" "can_create u raw = check_permission u raw p_create"
  "can_update u raw = check_permission u raw p_update" "can_delete u raw = check_permission u raw p_delete"
  by (simp_all only: can_read_def can_create_def can_update_def can_delete_def check_permission_def)

lemma all_checks:
  assumes "(can, flag) \<in> set [(can_read, p_read), (can_create, p_create), (can_update, p_update), (can_delete, p_delete)]"
  shows "can u raw = check_permission u raw flag"
  using assms by (auto simp: checks_eq)

lemma check_permission_Inr:
  assumes ok: "registry_ok w" and run: "check_permission u raw flag w = (Inr b, w')"
  shows "b \<longleftrightarrow> is_admin u \<or>
    (case canonical_rel_path raw of Inl _ \<Rightarrow> False | Inr c \<Rightarrow> c \<noteq> [] \<and> granted w flag (pub_id u) c)"
proof (cases "is_admin u")
  case True
  with run show ?thesis by (simp add: check_permission_def)
next
  case False
  with run have "bnd (permissions_for_path (pub_id u) raw) (\<lambda>ps.
        case ps of None \<Rightarrow> ret False | Some p \<Rightarrow> ret (flag p)) w = (Inr b, w')"
    by (simp add: check_permission_def)
  then obtain ps w1 where ps: "permissions_for_path (pub_id u) raw w = (Inr ps, w1)"
    and "b \<longleftrightarrow> (case ps of None \<Rightarrow> False | Some p \<Rightarrow> flag p)"
    by (elim bnd_InrE) (auto split: option.splits)
  moreover obtain c where c: "canonical_rel_path raw = Inr c"
    using ps by (cases "canonical_rel_path raw") (auto simp: permissions_for_path_def)
  moreover have "ps = None" if "c = []" using ps c that by (simp add: permissions_for_path_def)
  ultimately show ?thesis
    using False permissions_for_path_InrE [OF ok ps c, of flag] by (cases "c = []") auto
qed

text \<open>C1. Who may do what: each of the four permission checks answers True exactly for an admin, or when the
  owner of the canonical path is a library for which the user holds a grant with that very flag; the
  media root and paths of nobody are refused to everyone else.\<close>

theorem access_decision_exact:
  assumes "registry_ok w" and "can u raw w = (Inr b, w')"
    and "(can, flag) \<in> set [(can_read, p_read), (can_create, p_create), (can_update, p_update), (can_delete, p_delete)]"
  shows "b \<longleftrightarrow> is_admin u \<or>
    (case canonical_rel_path raw of Inl _ \<Rightarrow> False | Inr c \<Rightarrow> c \<noteq> [] \<and> granted w flag (pub_id u) c)"
  using assms all_checks [OF assms(3)] by (intro check_permission_Inr) simp_all

definition viewer :: public_user where
  "viewer = \<lparr>pub_id = ''u'', pub_email = ''u@x'', pub_role = ''user'', pub_must_change = False\<rparr>"

lemma access_decision_exact_witness:
  "fst (can_read viewer ''films/1.mkv'' demo_registry) = Inr True \<and>
   granted demo_registry p_read ''u'' ''films/1.mkv'' \<and>
   fst (can_delete viewer ''films/1.mkv'' demo_registry) = Inr False \<and>
   \<not> granted demo_registry p_delete ''u'' ''films/1.mkv''"
proof -
  let ?r = "can_read viewer ''films/1.mkv'' demo_registry"
  let ?d = "can_delete viewer ''films/1.mkv'' demo_registry"
  have r: "fst ?r = Inr True" and d: "fst ?d = Inr False" by code_simp+
  then have runs: "?r = (Inr True, snd ?r)" "?d = (Inr False, snd ?d)" by (simp_all add: prod_eq_iff)
  have c: "canonical_rel_path ''films/1.mkv'' = Inr ''films/1.mkv''" by code_simp
  have "\<not> is_admin viewer" "pub_id viewer = ''u''" by (simp_all add: is_admin_def viewer_def)
  with access_decision_exact [where can = can_read and flag = p_read, OF demo_registry_ok runs(1)]
    access_decision_exact [where can = can_delete and flag = p_delete, OF demo_registry_ok runs(2)] c r d
  show ?thesis by simp
qed

section \<open>Browsing\<close>

lemma nothing_owned_at_root: "owner_of w [] = None"
  using nothing_at_media_root unfolding owner_of_None by blast

definition visible :: "access_world \<Rightarrow> public_user \<Rightarrow> item \<Rightarrow> bool" where
  "visible w u c \<longleftrightarrow> (case canonical_rel_path (it_path c) of Inl _ \<Rightarrow> False
     | Inr k \<Rightarrow> owner_of w k \<noteq> None \<and> (is_admin u \<or> granted w p_read (pub_id u) k))"

lemma filter_children_Inr:
  assumes "registry_ok w" and "\<And>raw. map_option lib_id (match_library ls raw) =
      (case canonical_rel_path raw of Inl _ \<Rightarrow> None | Inr c \<Rightarrow> owner_of w c)"
    and "filter_children u ls cs v = (Inr out, v')" and "same_registry w v"
  shows "out = filter (visible w u) cs"
  using assms(3,4)
proof (induction cs arbitrary: v out)
  case Nil
  then show ?case by simp
next
  case (Cons c cs)
  have owned: "match_library ls (it_path c) = None \<longleftrightarrow>
      (case canonical_rel_path (it_path c) of Inl _ \<Rightarrow> True | Inr k \<Rightarrow> owner_of w k = None)"
    using assms(2) [of "it_path c", symmetric] by (cases "match_library ls (it_path c)") (auto split: sum.splits)
  show ?case
  proof (cases "match_library ls (it_path c) = None")
    case True
    with Cons.prems Cons.IH [of v out] owned show ?thesis by (auto simp: visible_def split: sum.splits)
  next
    case matched: False
    show ?thesis
    proof (cases "is_admin u")
      case True
      with Cons.prems matched obtain rest where "filter_children u ls cs v = (Inr rest, v')" "out = c # rest"
        by (auto elim!: bnd_InrE)
      with Cons.IH Cons.prems True matched owned show ?thesis
        by (auto simp: visible_def split: sum.splits)
    next
      case False
      with Cons.prems matched obtain b v1 rest where b: "can_read u (it_path c) v = (Inr b, v1)"
        and rest: "filter_children u ls cs v1 = (Inr rest, v')" and out: "out = (if b then c # rest else rest)"
        by (auto elim!: bnd_InrE)
      from Cons.prems assms(1) have ok: "registry_ok v" by (simp add: same_registry_ok)
      have "resp same_registry (can_read u (it_path c))" by (rule reads_only.checks(1))
      from respD_run [OF this b] Cons.prems have "same_registry w v1" by (blast intro: same_reg.trans)
      with Cons.IH rest have "rest = filter (visible w u) cs" by blast
      moreover have "b \<longleftrightarrow> visible w u c"
        using check_permission_Inr [OF ok b [unfolded checks_eq]] granted_same [OF Cons.prems(2)] False matched owned
          nothing_owned_at_root
        by (auto simp: visible_def split: sum.splits)
      ultimately show ?thesis using out by simp
    qed
  qed
qed

text \<open>C20. A browse answer shows exactly the children the user may see: in their order, those whose path is
  owned by a library, and for anyone but an admin only those under a read grant.\<close>

theorem browse_filter_exact:
  assumes "registry_ok w" and "filter_browse_response u items w = (Inr out, w')"
  shows "out = filter (visible w u) items"
proof -
  from assms(2) obtain ls w1 where ls: "store_list_libraries w = (Inr ls, w1)"
    and rest: "filter_children u ls items w1 = (Inr out, w')"
    unfolding filter_browse_response_def by (rule bnd_InrE)
  from ls have "same_registry w w1" by (rule list_libraries_InrE)
  from filter_children_Inr [OF assms(1) match_owner [OF assms(1) ls] rest this] show ?thesis .
qed

definition demo_item :: "string \<Rightarrow> item" where
  "demo_item p = Item p p True 0 [] [] None None
     \<lparr>act_play = [], act_thumbnail = [], act_download = [], act_can_delete = False\<rparr> []"

lemma browse_filter_exact_witness:
  "map it_path (filter (visible demo_registry viewer) [demo_item ''films'', demo_item ''shows'', demo_item ''x'']) = [''films'']"
proof -
  let ?r = "filter_browse_response viewer [demo_item ''films'', demo_item ''shows'', demo_item ''x''] demo_registry"
  have r: "\<not> isl (fst ?r) \<and> map it_path (projr (fst ?r)) = [''films'']" by code_simp
  then have "?r = (Inr (projr (fst ?r)), snd ?r)" by (intro run_of_Inr) simp
  from browse_filter_exact [OF demo_registry_ok this] r show ?thesis by simp
qed

section \<open>Grants\<close>

definition grant_rows :: "string \<Rightarrow> grant_input list \<Rightarrow> grant_row list" where
  "grant_rows uid gs = map (\<lambda>g. \<lparr>gr_user = uid, gr_lib = gi_lib g, gr_perms = gi_perms g\<rparr>)
     (filter (\<lambda>g. \<not> perms_empty (gi_perms g)) gs)"

lemma insert_grants_Inr:
  "eachm (\<lambda>g. if perms_empty (gi_perms g) then ret () else insert_grant uid g) gs w = (Inr x, w') \<Longrightarrow>
   grants w' = grants w @ grant_rows uid gs \<and> roots w' = roots w \<and> libs w' = libs w"
proof (induction gs arbitrary: w)
  case Nil
  then show ?case by (simp add: grant_rows_def)
next
  case (Cons g gs)
  from Cons.prems obtain y w1 where g: "(if perms_empty (gi_perms g) then ret () else insert_grant uid g) w = (Inr y, w1)"
    and gs: "eachm (\<lambda>g. if perms_empty (gi_perms g) then ret () else insert_grant uid g) gs w1 = (Inr x, w')"
    unfolding eachm.simps by (rule seqm_InrE)
  have "grants w1 = grants w @ grant_rows uid [g] \<and> roots w1 = roots w \<and> libs w1 = libs w"
    using g by (cases "perms_empty (gi_perms g)")
      (auto simp: grant_rows_def insert_grant_def same_registry_def elim!: adb_InrE split: if_splits)
  with Cons.IH [OF gs] show ?case by (simp add: grant_rows_def)
qed

text \<open>C11. \<open>SetUserGrants\<close> is all or nothing. On success the user is not an admin and holds exactly the
  given grants that are not empty, every other user's grants are as before; on any error, a database
  failure half way through the inserts included, no grant of anybody has changed.\<close>

theorem set_user_grants_atomic:
  assumes run: "set_user_grants uid role gs w = (r, w')"
  shows "(case r of
      Inl _ \<Rightarrow> grants w' = grants w
    | Inr _ \<Rightarrow> role \<noteq> ''admin'' \<and>
        grants w' = delete_where (\<lambda>g. gr_user g = uid) (grants w) @ grant_rows uid gs)"
proof (cases "role = ''admin''")
  case True
  with run show ?thesis by (auto simp: set_user_grants_def)
next
  case False
  obtain r1 w1 where ls: "store_list_libraries w = (r1, w1)" by fastforce
  have "resp same_registry store_list_libraries" by (rule reads_only.reads(1))
  from respD_run [OF this ls] have same: "grants w1 = grants w" by (simp add: same_registry_def)
  show ?thesis
  proof (cases "\<exists>l. r1 = Inr l \<and> validate_grant_inputs l gs = None")
    case False
    with run ls \<open>role \<noteq> ''admin''\<close> same show ?thesis
      by (auto simp: set_user_grants_def run_bnd split: sum.splits option.splits)
  next
    case True
    with run ls \<open>role \<noteq> ''admin''\<close> have rep: "replace_user_grants uid gs w1 = (r, w')"
      by (auto simp: set_user_grants_def run_bnd)
    show ?thesis
    proof (cases r)
      case (Inl e)
      with rep same show ?thesis
        by (auto simp: replace_user_grants_def transaction_def split: prod.splits sum.splits)
    next
      case (Inr x)
      with rep obtain y w2 where "adb (modify (\<lambda>w. w\<lparr>grants := delete_where (\<lambda>g. gr_user g = uid) (grants w)\<rparr>)) w1 = (Inr y, w2)"
        and ins: "eachm (\<lambda>g. if perms_empty (gi_perms g) then ret () else insert_grant uid g) gs w2 = (Inr x, w')"
        unfolding replace_user_grants_def by (auto elim!: transaction_InrE seqm_InrE)
      then have "grants w2 = delete_where (\<lambda>g. gr_user g = uid) (grants w)"
        using same by (auto elim!: adb_modify_InrE simp: same_registry_def)
      with insert_grants_Inr [OF ins] Inr False show ?thesis by simp
    qed
  qed
qed

lemma set_user_grants_atomic_witness:
  "(case fst (set_user_grants ''v'' ''user'' [\<lparr>gi_lib = ''s'', gi_perms = no_permissions\<lparr>p_read := True\<rparr>\<rparr>] demo_registry) of
      Inl _ \<Rightarrow> False | Inr _ \<Rightarrow> True) \<and>
   length (grants (snd (set_user_grants ''v'' ''user'' [\<lparr>gi_lib = ''s'', gi_perms = no_permissions\<lparr>p_read := True\<rparr>\<rparr>] demo_registry))) = 2"
proof -
  let ?gs = "[\<lparr>gi_lib = ''s'', gi_perms = no_permissions\<lparr>p_read := True\<rparr>\<rparr>]"
  let ?r = "set_user_grants ''v'' ''user'' ?gs demo_registry"
  have r: "\<not> isl (fst ?r)" by code_simp
  have n: "length (delete_where (\<lambda>g. gr_user g = ''v'') (grants demo_registry) @ grant_rows ''v'' ?gs) = 2" by code_simp
  from r have run: "?r = (Inr (projr (fst ?r)), snd ?r)" by (rule run_of_Inr)
  from set_user_grants_atomic [OF run] n have "length (grants (snd ?r)) = 2" by simp
  with r show ?thesis by (cases "fst ?r") auto
qed

section \<open>What happens to the rows below a root\<close>

definition plain :: "string \<Rightarrow> bool" where
  "plain s \<longleftrightarrow> CHR ''%'' \<notin> set s \<and> CHR ''_'' \<notin> set s \<and> CHR 0x5C \<notin> set s"

lemma like_percent: "like ''%'' s"
  by (induction s) simp_all

lemma like_plain_prefix: "plain p \<Longrightarrow> like (p @ q) s \<longleftrightarrow> (\<exists>t. s = p @ t \<and> like q t)"
proof (induction p arbitrary: s)
  case (Cons c p)
  then have "plain p" and c: "c \<noteq> CHR ''%''" "c \<noteq> CHR ''_''" "c \<noteq> CHR 0x5C" by (auto simp: plain_def)
  with Cons.IH show ?case by (cases s) auto
qed simp

lemma under_plain_prefix:
  assumes "plain rel"
  shows "under_prefix i rel r \<longleftrightarrow> mr_lib r = i \<and> (mr_path r = rel \<or> has_prefix (mr_path r) (rel @ ''/''))"
proof -
  from assms have "plain (rel @ ''/'')" by (simp add: plain_def)
  from like_plain_prefix [OF this, of "''%''" "mr_path r"] like_percent show ?thesis
    unfolding under_prefix_def has_prefix_append by simp
qed

definition rows_deleted :: "(media_row \<Rightarrow> bool) \<Rightarrow> access_world \<Rightarrow> access_world \<Rightarrow> bool" where
  "rows_deleted P w w' \<longleftrightarrow>
     metas w' = delete_where (\<lambda>r. P (media_row.truncate r)) (metas w) \<and>
     watches w' = delete_where (\<lambda>r. P (media_row.truncate r)) (watches w) \<and>
     favs w' = delete_where (\<lambda>r. P (media_row.truncate r)) (favs w)"

lemma under_prefix_key: "under_prefix i pre (media_row.truncate r) \<longleftrightarrow> under_prefix i pre r"
  by (simp add: under_prefix_def media_row.truncate_def)

lemma delete_prefix_rows_Inr:
  assumes "delete_prefix_rows i pre w = (Inr x, w')"
  shows "rows_deleted (under_prefix i pre) w w'"
  using assms unfolding delete_prefix_rows_def adb_def
  by (auto simp: rows_deleted_def under_prefix_key elim!: seqm_InrE io_call_InrE)

definition same_media :: "access_world \<Rightarrow> access_world \<Rightarrow> bool" where
  "same_media w w' \<longleftrightarrow> metas w' = metas w \<and> watches w' = watches w \<and> favs w' = favs w"

interpretation same_media: registry_reader same_media
  by unfold_locales (auto simp: same_media_def)

lemma store_remove_root_rows:
  assumes "store_remove_root i rel w = (Inr l, w')"
  shows "rows_deleted (under_prefix i rel) w w'"
proof -
  let ?first = "adb (\<lambda>w. if \<forall>r \<in> set (roots w). \<not> (rr_lib r = i \<and> rr_path r = rel)
    then (Inl ErrLibraryRootNotFound, w)
    else (Inr (), w\<lparr>roots := delete_where (\<lambda>r. rr_lib r = i \<and> rr_path r = rel) (roots w)\<rparr>))"
  let ?count = "adb (gets (\<lambda>w. length (filter (\<lambda>r. rr_lib r = i) (roots w))))"
  let ?last = "bnd ?count (\<lambda>n. seqm (whenm (n = 0) (adb (modify (drop_library i)))) (ret n))"
  from assms obtain n w4 where txn: "transaction (remove_root_txn i rel) w = (Inr n, w4)"
    and n: "n \<noteq> 0" and get: "store_get_library i w4 = (Inr l, w')"
    unfolding store_remove_root_def by (elim bnd_InrE) (auto split: if_splits)
  from txn have "seqm ?first (seqm (delete_prefix_rows i rel) ?last) w = (Inr n, w4)"
    unfolding remove_root_txn_def by (elim transaction_InrE)
  then obtain x w1 where w1: "?first w = (Inr x, w1)"
    and r1: "seqm (delete_prefix_rows i rel) ?last w1 = (Inr n, w4)" by (rule seqm_InrE)
  from r1 obtain y w2 where w2: "delete_prefix_rows i rel w1 = (Inr y, w2)"
    and r2: "?last w2 = (Inr n, w4)" by (rule seqm_InrE)
  from w1 have "same_media w w1"
    by (auto simp: adb_def same_media_def elim!: io_call_InrE split: if_splits)
  moreover from r2 n have "same_media w2 w4"
    by (auto simp: adb_def same_media_def elim!: bnd_InrE seqm_InrE io_call_InrE split: if_splits)
  moreover from respD_run [OF same_media.reads(2) get] have "same_media w4 w'" .
  ultimately show ?thesis using delete_prefix_rows_Inr [OF w2] by (simp add: rows_deleted_def same_media_def)
qed

text \<open>Removing a root whose name holds no wildcard of LIKE removes the metadata, watch states and
  favourites of exactly the files at or below it in that library, when the library stays.\<close>

lemma remove_root_rows:
  assumes run: "remove_root i raw w = (Inr l, w')" and plain: "plain (normalize_rel_path raw)"
  shows "rows_deleted (\<lambda>r. mr_lib r = i \<and> (mr_path r = normalize_rel_path raw \<or>
    has_prefix (mr_path r) (normalize_rel_path raw @ ''/''))) w w'"
proof -
  from run have "store_remove_root i (normalize_rel_path raw) w = (Inr l, w')"
    by (auto simp: remove_root_def Let_def split: if_splits)
  from store_remove_root_rows [OF this] show ?thesis unfolding under_plain_prefix [OF plain] .
qed

lemma remove_root_rows_witness:
  "map mr_path (metas (snd (remove_root ''m'' ''axb'' demo_registry))) = [''a_b/1.mkv''] \<and>
   map mr_path (watches (snd (remove_root ''m'' ''axb'' demo_registry))) = [''shows/1.mkv'']"
proof -
  let ?r = "remove_root ''m'' ''axb'' demo_registry"
  have "\<not> isl (fst ?r)" by code_simp
  then have run: "?r = (Inr (projr (fst ?r)), snd ?r)" by (rule run_of_Inr)
  have rel: "normalize_rel_path ''axb'' = ''axb''" by code_simp
  then have "plain (normalize_rel_path ''axb'')" by (simp add: plain_def)
  from remove_root_rows [OF run this] rel show ?thesis
    by (simp add: rows_deleted_def media_row.truncate_def demo_registry_def delete_where_def has_prefix_append)
qed

text \<open>The prefix is not escaped for LIKE: removing the root \<open>a_b\<close> of a library also deletes the rows of the
  files below its root \<open>axb\<close>, which stays registered.\<close>

lemma remove_root_deletes_sibling_rows:
  "metas demo_registry = [\<lparr>mr_user = [], mr_lib = ''m'', mr_path = ''a_b/1.mkv'', mt_body = ''A''\<rparr>,
     \<lparr>mr_user = [], mr_lib = ''m'', mr_path = ''axb/2.mkv'', mt_body = ''B''\<rparr>] \<and>
   metas (snd (remove_root ''m'' ''a_b'' demo_registry)) = [] \<and>
   owner_of (snd (remove_root ''m'' ''a_b'' demo_registry)) ''axb/2.mkv'' = Some ''m''"
  by code_simp

text \<open>A root typed with a trailing slash is accepted and then owns nothing: the path check compares with the
  root followed by another slash, so no file below the folder belongs to the library.\<close>

lemma trailing_slash_root_owns_nothing:
  "isl (fst (add_root ''s'' ''/anime/'' demo_registry)) = False \<and>
   owner_of (snd (add_root ''s'' ''/anime/'' demo_registry)) ''anime/1.mkv'' = None \<and>
   owner_of (snd (add_root ''s'' ''/anime'' demo_registry)) ''anime/1.mkv'' = Some ''s''"
  by code_simp

end
