(* ===== verification/Playback.thy ===== *)
theory Playback
  imports Complex_Main GoPath
begin

text \<open>
  The play-method decision: \<open>internal/playback/decide.go\<close> and \<open>profile.go\<close>. Given what the device can
  play and what the source is, \<open>decide\<close> picks direct play, remux or transcode. The float
  \<open>DurationSeconds\<close> of the source, which the decision never reads, is a rational here.
\<close>

datatype play_method = DirectPlay | Remux | Transcode

record direct_play_profile =
  dp_container :: string
  dp_video_codec :: string
  dp_audio_codec :: string

record device_profile =
  max_static_bitrate :: int
  direct_play :: "direct_play_profile list"
  prefer_hls :: bool
  subtitle_modes :: "string list"

record source_caps =
  src_container :: string
  src_video_codec :: string
  src_audio_codec :: string
  src_bitrate :: int
  src_height :: int
  src_duration :: rat
  src_remux_ok :: bool

definition normalize_token :: "string \<Rightarrow> string" where
  "normalize_token value =
     (let v = to_lower (trim_space value)
      in if v = ''avc1'' \<or> v = ''avc'' then ''h264''
         else if v = ''hev1'' \<or> v = ''hvc1'' \<or> v = ''h265'' then ''hevc''
         else if v = ''vorbis'' then ''vorbis''
         else v)"

definition csv_contains :: "string \<Rightarrow> string \<Rightarrow> bool" where
  "csv_contains csv needle =
     (let n = normalize_token needle
      in if n = [] then False
         else \<exists>part \<in> set (split_on CHR '','' csv). normalize_token part = n)"

definition matches_direct_play :: "direct_play_profile \<Rightarrow> source_caps \<Rightarrow> bool" where
  "matches_direct_play entry source =
     (if \<not> csv_contains (dp_container entry) (src_container source) then False
      else if dp_video_codec entry \<noteq> [] \<and> \<not> csv_contains (dp_video_codec entry) (src_video_codec source)
      then False
      else if dp_audio_codec entry \<noteq> [] \<and> src_audio_codec source \<noteq> [] \<and>
              \<not> csv_contains (dp_audio_codec entry) (src_audio_codec source)
      then False
      else True)"

definition can_direct_play :: "device_profile \<Rightarrow> source_caps \<Rightarrow> bool" where
  "can_direct_play profile source =
     (if src_container source = [] \<or> src_video_codec source = [] then False
      else if max_static_bitrate profile > 0 \<and> src_bitrate source > 0 \<and>
              src_bitrate source > max_static_bitrate profile
      then False
      else list_ex (\<lambda>entry. matches_direct_play entry source) (direct_play profile))"

definition original_quality :: "source_caps \<Rightarrow> int \<Rightarrow> bool" where
  "original_quality source selected_height \<longleftrightarrow>
     selected_height \<le> 0 \<or> (src_height source > 0 \<and> selected_height \<ge> src_height source)"

definition decide :: "device_profile \<Rightarrow> source_caps \<Rightarrow> int \<Rightarrow> play_method" where
  "decide profile source selected_height =
     (let original = original_quality source selected_height
      in if original \<and> \<not> prefer_hls profile \<and> can_direct_play profile source then DirectPlay
         else if original \<and> src_remux_ok source then Remux
         else Transcode)"

definition container_from_path :: "string \<Rightarrow> string" where
  "container_from_path media_path =
     (let ext = to_lower (path_ext media_path)
      in if ext = ''.mp4'' \<or> ext = ''.m4v'' then ''mp4''
         else if ext = ''.webm'' then ''webm''
         else if ext = ''.mkv'' then ''mkv''
         else if ext = ''.mov'' then ''mov''
         else if ext = ''.avi'' then ''avi''
         else if ext = ''.mpg'' \<or> ext = ''.mpeg'' then ''mpeg''
         else if ext = ''.wmv'' then ''wmv''
         else trim_prefix (to_lower (path_ext media_path)) ''.'')"

section \<open>Lemmas\<close>

lemma normalize_token_idem: "normalize_token (normalize_token v) = normalize_token v"
proof -
  let ?v = "to_lower (trim_space v)"
  have fixed: "to_lower (trim_space ?v) = ?v" by (simp add: trim_space_to_lower)
  have "to_lower (trim_space ''h264'') = ''h264''" "to_lower (trim_space ''hevc'') = ''hevc''"
    "to_lower (trim_space ''vorbis'') = ''vorbis''" by code_simp+
  with fixed show ?thesis by (simp add: normalize_token_def Let_def)
qed

lemma csv_contains_iff:
  "csv_contains csv needle \<longleftrightarrow> normalize_token needle \<noteq> [] \<and>
     normalize_token needle \<in> normalize_token ` set (split_on CHR '','' csv)"
  by (auto simp: csv_contains_def Let_def) (metis image_iff)

lemma matches_direct_play_iff:
  "matches_direct_play e s \<longleftrightarrow>
     csv_contains (dp_container e) (src_container s) \<and>
     (dp_video_codec e = [] \<or> csv_contains (dp_video_codec e) (src_video_codec s)) \<and>
     (dp_audio_codec e = [] \<or> src_audio_codec s = [] \<or> csv_contains (dp_audio_codec e) (src_audio_codec s))"
  by (auto simp: matches_direct_play_def)

section \<open>Properties\<close>

text \<open>The promise of the package comment, stated over the whole decision tree: which requests are
  answered by direct play, and what decides between the other two.\<close>

definition bitrate_ok :: "device_profile \<Rightarrow> source_caps \<Rightarrow> bool" where
  "bitrate_ok p s \<longleftrightarrow>
     max_static_bitrate p \<le> 0 \<or> src_bitrate s \<le> 0 \<or> src_bitrate s \<le> max_static_bitrate p"

text \<open>Direct play is chosen exactly when the request is for original quality, the client does
  not prefer HLS, the bitrate is within the profile's limit, the source's container and video codec
  are known, and some entry of the profile lists the container and the codecs up to case, white
  space and codec aliases; a request below the source height is always transcoded; every other
  original-quality request is remuxed when the source allows it.\<close>

lemma decide_characterised:
  "(decide p s h = DirectPlay \<longleftrightarrow>
      original_quality s h \<and> \<not> prefer_hls p \<and> src_container s \<noteq> [] \<and> src_video_codec s \<noteq> [] \<and>
      bitrate_ok p s \<and>
      (\<exists>e \<in> set (direct_play p).
         (normalize_token (src_container s) \<noteq> [] \<and>
          normalize_token (src_container s) \<in> normalize_token ` set (split_on CHR '','' (dp_container e))) \<and>
         (dp_video_codec e = [] \<or> csv_contains (dp_video_codec e) (src_video_codec s)) \<and>
         (dp_audio_codec e = [] \<or> src_audio_codec s = [] \<or>
          csv_contains (dp_audio_codec e) (src_audio_codec s)))) \<and>
   (decide p s h = Remux \<longleftrightarrow>
      original_quality s h \<and> src_remux_ok s \<and> \<not> (\<not> prefer_hls p \<and> can_direct_play p s)) \<and>
   (decide p s h = Transcode \<longleftrightarrow>
      \<not> (original_quality s h \<and> (src_remux_ok s \<or> (\<not> prefer_hls p \<and> can_direct_play p s))))"
proof -
  have "can_direct_play p s \<longleftrightarrow> src_container s \<noteq> [] \<and> src_video_codec s \<noteq> [] \<and> bitrate_ok p s \<and>
      (\<exists>e \<in> set (direct_play p). matches_direct_play e s)"
    by (auto simp: can_direct_play_def bitrate_ok_def list_ex_iff)
  then show ?thesis
    by (auto simp: decide_def Let_def matches_direct_play_iff csv_contains_iff)
qed

end
