(* ===== verification/AuthStore.thy ===== *)
theory AuthStore
  imports AuthTypes
begin

text \<open>
  The PostgreSQL store of the authentication package, \<open>internal/auth/postgres/store.go\<close>: one
  definition per method of \<open>auth.Store\<close>, over the tables of \<open>auth_world\<close>. A query is the SQL
  statement the method names: \<open>First\<close> is the first matching row or the not-found error, \<open>Updates\<close> and
  \<open>Delete\<close> act on every matching row, a violated constraint of \<open>internal/db/migrations\<close> (unique email,
  unique token hash, role check, foreign keys) is the error \<open>ErrConstraint\<close>, and deleting a user
  cascades to the rows that reference it. Each statement can fail by the fault schedule. Identifiers
  are drawn from the random supply, as \<open>gen_random_uuid()\<close> does.
\<close>

definition db :: "'a auth_m \<Rightarrow> 'a auth_m" where
  "db f = io_call ErrDb f"

section \<open>Reading rows\<close>

definition user_from_model :: "user_row \<Rightarrow> user" where
  "user_from_model r = \<lparr>usr_id = ur_id r, usr_email = ur_email r, usr_role = ur_role r,
     usr_enabled = ur_enabled r, usr_verified_at = ur_verified_at r, usr_must_change = ur_must_change r\<rparr>"

definition find_user :: "(user_row \<Rightarrow> bool) \<Rightarrow> bool \<Rightarrow> (user \<times> string) auth_m" where
  "find_user P with_password = db (\<lambda>w. case find P (users w) of
     None \<Rightarrow> (Inl ErrManagedUserNotFound, w)
   | Some r \<Rightarrow> (Inr (user_from_model r, if with_password then ur_hash r else []), w))"

definition get_user_by_email :: "string \<Rightarrow> (user \<times> string) auth_m" where
  "get_user_by_email email = find_user (\<lambda>r. ur_email r = email) True"

definition get_user_with_password_by_id :: "string \<Rightarrow> (user \<times> string) auth_m" where
  "get_user_with_password_by_id i = find_user (\<lambda>r. ur_id r = i) True"

definition get_user_by_id :: "string \<Rightarrow> user auth_m" where
  "get_user_by_id i = bnd (find_user (\<lambda>r. ur_id r = i) False) (\<lambda>(u, _). ret u)"

definition count_users :: "nat auth_m" where
  "count_users = db (gets (\<lambda>w. length (users w)))"

definition count_admins :: "nat auth_m" where
  "count_admins = db (gets (\<lambda>w. length (filter (\<lambda>r. ur_role r = RoleAdmin) (users w))))"

definition count_sessions :: "nat auth_m" where
  "count_sessions = db (gets (\<lambda>w. length (sessions w)))"

definition has_totp_row :: "totp_row list \<Rightarrow> string \<Rightarrow> bool" where
  "has_totp_row ts i = (case find (\<lambda>t. tr_user t = i) ts of
     None \<Rightarrow> False | Some t \<Rightarrow> tr_enabled_at t \<noteq> None)"

definition admin_row :: "totp_row list \<Rightarrow> user_row \<Rightarrow> admin_user" where
  "admin_row ts r = \<lparr>adm_id = ur_id r, adm_email = ur_email r, adm_role = ur_role r,
     adm_enabled = ur_enabled r, adm_verified = (ur_verified_at r \<noteq> None), adm_status = [],
     adm_must_change = ur_must_change r, adm_has_2fa = has_totp_row ts (ur_id r),
     adm_last_login = ur_last_login r, adm_created = ur_created r\<rparr>"

definition store_list_users :: "admin_user list auth_m" where
  "store_list_users = db (gets (\<lambda>w. map (admin_row (totps w)) (asc_by ur_created (users w))))"

section \<open>Writing accounts\<close>

definition store_create_user :: "user \<Rightarrow> string \<Rightarrow> unit auth_m" where
  "store_create_user user hash = db (bnd (draw ErrDb) (\<lambda>i w.
     if (\<exists>r \<in> set (users w). ur_id r = i \<or> ur_email r = usr_email user) \<or> \<not> valid_role (usr_role user)
     then (Inl ErrConstraint, w)
     else (Inr (), w\<lparr>users := users w @ [\<lparr>ur_id = i, ur_email = usr_email user, ur_hash = hash,
       ur_role = usr_role user, ur_enabled = usr_enabled user, ur_verified_at = None,
       ur_must_change = usr_must_change user, ur_last_login = None, ur_created = w_now w\<rparr>]\<rparr>)))"

definition set_users :: "string \<Rightarrow> (user_row \<Rightarrow> user_row) \<Rightarrow> auth_world \<Rightarrow> auth_world" where
  "set_users i f w = w\<lparr>users := update_where (\<lambda>r. ur_id r = i) f (users w)\<rparr>"

definition store_update_user :: "string \<Rightarrow> user_patch \<Rightarrow> unit auth_m" where
  "store_update_user i patch = seqm
     (case up_enabled patch of None \<Rightarrow> ret ()
      | Some b \<Rightarrow> db (modify (set_users i (\<lambda>r. r\<lparr>ur_enabled := b\<rparr>))))
     (case up_role patch of None \<Rightarrow> ret ()
      | Some role \<Rightarrow> db (\<lambda>w. if valid_role role \<or> (\<forall>r \<in> set (users w). ur_id r \<noteq> i)
          then (Inr (), set_users i (\<lambda>r. r\<lparr>ur_role := role\<rparr>) w) else (Inl ErrConstraint, w)))"

definition update_last_login :: "string \<Rightarrow> int \<Rightarrow> unit auth_m" where
  "update_last_login i at = db (modify (set_users i (\<lambda>r. r\<lparr>ur_last_login := Some at\<rparr>)))"

definition update_password_hash :: "string \<Rightarrow> string \<Rightarrow> bool \<Rightarrow> unit auth_m" where
  "update_password_hash i hash must_change =
     db (modify (set_users i (\<lambda>r. r\<lparr>ur_hash := hash, ur_must_change := must_change\<rparr>)))"

definition update_user_email :: "string \<Rightarrow> string \<Rightarrow> bool \<Rightarrow> unit auth_m" where
  "update_user_email i email clear_verified = db (\<lambda>w.
     if (\<exists>r \<in> set (users w). ur_id r = i) \<and> (\<exists>r \<in> set (users w). ur_id r \<noteq> i \<and> ur_email r = email)
     then (Inl ErrConstraint, w)
     else (Inr (), set_users i (\<lambda>r. r\<lparr>ur_email := email,
       ur_verified_at := (if clear_verified then None else ur_verified_at r)\<rparr>) w))"

definition enable_user :: "string \<Rightarrow> bool \<Rightarrow> unit auth_m" where
  "enable_user i mark_verified = db (\<lambda>w. (Inr (), set_users i (\<lambda>r. r\<lparr>ur_enabled := True,
     ur_verified_at := (if mark_verified \<and> ur_verified_at r = None then Some (w_now w) else ur_verified_at r)\<rparr>) w))"

definition clear_email_verified :: "string \<Rightarrow> unit auth_m" where
  "clear_email_verified i = db (modify (set_users i (\<lambda>r. r\<lparr>ur_verified_at := None\<rparr>)))"

definition store_delete_user :: "string \<Rightarrow> unit auth_m" where
  "store_delete_user i = db (\<lambda>w.
     if \<forall>r \<in> set (users w). ur_id r \<noteq> i then (Inl ErrManagedUserNotFound, w)
     else (Inr (), w\<lparr>users := delete_where (\<lambda>r. ur_id r = i) (users w),
       tokens := update_where (\<lambda>t. tok_invited_by t = i) (\<lambda>t. t\<lparr>tok_invited_by := []\<rparr>)
         (delete_where (\<lambda>t. tok_user t = i) (tokens w)),
       sessions := delete_where (\<lambda>s. ses_user s = i) (sessions w),
       totps := delete_where (\<lambda>t. tr_user t = i) (totps w)\<rparr>))"

section \<open>Settings\<close>

definition store_get_settings :: "auth_settings auth_m" where
  "store_get_settings = db (\<lambda>w. case settings w of None \<Rightarrow> (Inl ErrNoRow, w) | Some s \<Rightarrow> (Inr s, w))"

definition store_save_settings :: "auth_settings \<Rightarrow> unit auth_m" where
  "store_save_settings s = db (modify (\<lambda>w. w\<lparr>settings := Some s\<rparr>))"

section \<open>Auth tokens\<close>

definition unused_live :: "int \<Rightarrow> token \<Rightarrow> bool" where
  "unused_live now t \<longleftrightarrow> tok_used t = None \<and> tok_expires t > now"

definition has_unused_auth_token :: "string \<Rightarrow> purpose \<Rightarrow> bool auth_m" where
  "has_unused_auth_token email p = db (gets (\<lambda>w. \<exists>t \<in> set (tokens w).
     tok_email t = norm_email email \<and> tok_purpose t = p \<and> unused_live (w_now w) t))"

definition first_token :: "token list \<Rightarrow> token auth_m" where
  "first_token ts = (case ts of [] \<Rightarrow> throw ErrNoRow | t # _ \<Rightarrow> ret t)"

definition get_unused_auth_token_by_user :: "string \<Rightarrow> purpose \<Rightarrow> token auth_m" where
  "get_unused_auth_token_by_user i p = db (\<lambda>w. first_token (desc_by tok_created
     (filter (\<lambda>t. tok_user t = i \<and> tok_purpose t = p \<and> unused_live (w_now w) t) (tokens w))) w)"

definition create_auth_token :: "token \<Rightarrow> unit auth_m" where
  "create_auth_token tok = db (bnd (draw ErrDb) (\<lambda>i w.
     if (\<exists>t \<in> set (tokens w). tok_id t = i \<or> tok_hash t = tok_hash tok) \<or>
        (tok_user tok \<noteq> [] \<and> (\<forall>r \<in> set (users w). ur_id r \<noteq> tok_user tok)) \<or>
        (tok_invited_by tok \<noteq> [] \<and> (\<forall>r \<in> set (users w). ur_id r \<noteq> tok_invited_by tok)) \<or>
        \<not> (tok_role tok = [] \<or> tok_role tok = RoleAdmin \<or> tok_role tok = RoleUser)
     then (Inl ErrConstraint, w)
     else (Inr (), w\<lparr>tokens := tokens w @ [tok\<lparr>tok_id := i, tok_used := None, tok_created := w_now w\<rparr>]\<rparr>)))"

definition get_auth_token_by_hash :: "string \<Rightarrow> purpose \<Rightarrow> token auth_m" where
  "get_auth_token_by_hash h p = db (\<lambda>w.
     case find (\<lambda>t. tok_hash t = h \<and> tok_purpose t = p) (tokens w) of
       None \<Rightarrow> (Inl ErrNoRow, w) | Some t \<Rightarrow> (Inr t, w))"

definition get_auth_token_by_id :: "string \<Rightarrow> token auth_m" where
  "get_auth_token_by_id i = db (\<lambda>w.
     case find (\<lambda>t. tok_id t = i) (tokens w) of None \<Rightarrow> (Inl ErrNoRow, w) | Some t \<Rightarrow> (Inr t, w))"

definition mark_auth_token_used :: "string \<Rightarrow> unit auth_m" where
  "mark_auth_token_used i = db (modify (\<lambda>w.
     w\<lparr>tokens := update_where (\<lambda>t. tok_id t = i) (\<lambda>t. t\<lparr>tok_used := Some (w_now w)\<rparr>) (tokens w)\<rparr>))"

definition invalidate_unused_tokens :: "string \<Rightarrow> purpose \<Rightarrow> unit auth_m" where
  "invalidate_unused_tokens email p = db (modify (\<lambda>w. w\<lparr>tokens := update_where
     (\<lambda>t. tok_email t = norm_email email \<and> tok_purpose t = p \<and> tok_used t = None)
     (\<lambda>t. t\<lparr>tok_used := Some (w_now w)\<rparr>) (tokens w)\<rparr>))"

definition store_list_pending_invites :: "string \<Rightarrow> token list auth_m" where
  "store_list_pending_invites email = db (gets (\<lambda>w. desc_by tok_created
     (filter (\<lambda>t. tok_purpose t = PInvite \<and> tok_used t = None \<and> (email \<noteq> [] \<longrightarrow> tok_email t = email))
       (tokens w))))"

section \<open>Sessions\<close>

definition create_session :: "string \<Rightarrow> string \<Rightarrow> string \<Rightarrow> int \<Rightarrow> session_meta \<Rightarrow> unit auth_m" where
  "create_session sid uid h expires m = db (\<lambda>w.
     if (\<exists>s \<in> set (sessions w). ses_id s = sid \<or> ses_hash s = h) \<or> (\<forall>r \<in> set (users w). ur_id r \<noteq> uid)
     then (Inl ErrConstraint, w)
     else (Inr (), w\<lparr>sessions := sessions w @ [\<lparr>ses_id = sid, ses_user = uid, ses_hash = h,
       ses_ip = meta_ip m, ses_agent = meta_agent m, ses_created = w_now w, ses_expires = expires\<rparr>]\<rparr>))"

definition update_session_refresh_token :: "string \<Rightarrow> string \<Rightarrow> int \<Rightarrow> unit auth_m" where
  "update_session_refresh_token sid h expires = db (\<lambda>w.
     if \<forall>s \<in> set (sessions w). ses_id s \<noteq> sid then (Inl ErrSessionNotFound, w)
     else if \<exists>s \<in> set (sessions w). ses_id s \<noteq> sid \<and> ses_hash s = h then (Inl ErrConstraint, w)
     else (Inr (), w\<lparr>sessions := update_where (\<lambda>s. ses_id s = sid)
       (\<lambda>s. s\<lparr>ses_hash := h, ses_expires := expires\<rparr>) (sessions w)\<rparr>))"

definition get_session_by_token_hash :: "string \<Rightarrow> session_record auth_m" where
  "get_session_by_token_hash h = db (\<lambda>w.
     case find (\<lambda>s. ses_hash s = h) (sessions w) of None \<Rightarrow> (Inl ErrNoRow, w) | Some s \<Rightarrow> (Inr s, w))"

definition get_session_by_id :: "string \<Rightarrow> session_record auth_m" where
  "get_session_by_id i = db (\<lambda>w.
     case find (\<lambda>s. ses_id s = i) (sessions w) of None \<Rightarrow> (Inl ErrNoRow, w) | Some s \<Rightarrow> (Inr s, w))"

definition delete_sessions :: "(session_record \<Rightarrow> bool) \<Rightarrow> unit auth_m" where
  "delete_sessions P = db (modify (\<lambda>w. w\<lparr>sessions := delete_where P (sessions w)\<rparr>))"

definition delete_session_by_token_hash :: "string \<Rightarrow> unit auth_m" where
  "delete_session_by_token_hash h = delete_sessions (\<lambda>s. ses_hash s = h)"

definition delete_session_by_id :: "string \<Rightarrow> unit auth_m" where
  "delete_session_by_id i = delete_sessions (\<lambda>s. ses_id s = i)"

definition delete_all_sessions_by_user :: "string \<Rightarrow> unit auth_m" where
  "delete_all_sessions_by_user i = delete_sessions (\<lambda>s. ses_user s = i)"

definition delete_sessions_except :: "string \<Rightarrow> string \<Rightarrow> unit auth_m" where
  "delete_sessions_except i keep =
     (if keep = [] then ret () else delete_sessions (\<lambda>s. ses_user s = i \<and> ses_id s \<noteq> keep))"

definition list_sessions_by_user :: "string \<Rightarrow> session_record list auth_m" where
  "list_sessions_by_user i = db (gets (\<lambda>w. desc_by ses_created
     (filter (\<lambda>s. ses_user s = i) (sessions w))))"

section \<open>Two-factor state\<close>

definition user_has_totp :: "string \<Rightarrow> bool auth_m" where
  "user_has_totp i = db (gets (\<lambda>w. has_totp_row (totps w) i))"

definition get_user_totp :: "string \<Rightarrow> totp_record auth_m" where
  "get_user_totp i = db (\<lambda>w.
     case find (\<lambda>t. tr_user t = i \<and> tr_enabled_at t \<noteq> None) (totps w) of
       None \<Rightarrow> (Inl ErrTOTPNotConfigured, w)
     | Some t \<Rightarrow> (Inr \<lparr>totp_user = tr_user t, totp_secret = tr_secret t,
         totp_enabled_at = (case tr_enabled_at t of None \<Rightarrow> 0 | Some at \<Rightarrow> at), totp_backup = tr_backup t\<rparr>, w))"

text \<open>\<open>INSERT ... ON CONFLICT (user_id) DO UPDATE\<close> on \<open>user_totp\<close>.\<close>

definition upsert_totp :: "totp_row \<Rightarrow> unit auth_m" where
  "upsert_totp t = db (\<lambda>w.
     if \<forall>r \<in> set (users w). ur_id r \<noteq> tr_user t then (Inl ErrConstraint, w)
     else (Inr (), w\<lparr>totps :=
       (if \<exists>x \<in> set (totps w). tr_user x = tr_user t
        then update_where (\<lambda>x. tr_user x = tr_user t) (\<lambda>_. t) (totps w)
        else totps w @ [t])\<rparr>))"

definition save_pending_totp_secret :: "string \<Rightarrow> string \<Rightarrow> unit auth_m" where
  "save_pending_totp_secret i secret =
     upsert_totp \<lparr>tr_user = i, tr_secret = secret, tr_enabled_at = None, tr_backup = []\<rparr>"

definition get_pending_totp_secret :: "string \<Rightarrow> string auth_m" where
  "get_pending_totp_secret i = db (gets (\<lambda>w.
     case find (\<lambda>t. tr_user t = i \<and> tr_enabled_at t = None) (totps w) of
       None \<Rightarrow> [] | Some t \<Rightarrow> tr_secret t))"

definition enable_user_totp :: "string \<Rightarrow> string \<Rightarrow> string list \<Rightarrow> unit auth_m" where
  "enable_user_totp i secret hashes = bnd (gets w_now) (\<lambda>now.
     upsert_totp \<lparr>tr_user = i, tr_secret = secret, tr_enabled_at = Some now, tr_backup = hashes\<rparr>)"

definition delete_user_totp :: "string \<Rightarrow> unit auth_m" where
  "delete_user_totp i = db (modify (\<lambda>w. w\<lparr>totps := delete_where (\<lambda>t. tr_user t = i) (totps w)\<rparr>))"

definition consume_backup_code :: "string \<Rightarrow> int \<Rightarrow> unit auth_m" where
  "consume_backup_code i index = bnd (get_user_totp i) (\<lambda>rec.
     if index < 0 \<or> index \<ge> int (length (totp_backup rec)) then throw ErrInvalidBackupCodeIndex
     else db (modify (\<lambda>w. w\<lparr>totps := update_where (\<lambda>t. tr_user t = i)
       (\<lambda>t. t\<lparr>tr_backup := (totp_backup rec)[nat index := []]\<rparr>) (totps w)\<rparr>)))"

section \<open>Mail\<close>

definition send_mail :: "string \<Rightarrow> string \<Rightarrow> string \<Rightarrow> unit auth_m" where
  "send_mail recipient subject link = io_call ErrMail (modify (\<lambda>w. w\<lparr>outbox := outbox w @
     [\<lparr>mail_to = recipient, mail_subject = subject, mail_link = link\<rparr>]\<rparr>))"

end
