(* ===== verification/AuthTwoFactor.thy ===== *)
theory AuthTwoFactor
  imports AuthStore
begin

text \<open>
  Passwords, one-time tokens and two-factor codes: the helpers at the end of
  \<open>internal/auth/service.go\<close> and \<open>tokens.go\<close>, \<open>settings.go\<close>, and the code checks of \<open>totp.go\<close>.
  Every random value (token text, password salt, nonce, byte of a backup code) is one draw from
  \<open>w_rand\<close>, which holds the already encoded text of the draw.
\<close>

section \<open>Configuration and settings\<close>

definition hours :: "int \<Rightarrow> int" where
  "hours n = n * 3600 * 10 ^ 9"

definition configure :: "config \<Rightarrow> service \<Rightarrow> service" where
  "configure c sv = (let c' = normalize_config c in
     sv\<lparr>sv_base_url := cfg_base_url c', sv_invite_ttl := hours (cfg_invite_hours c'),
        sv_confirm_ttl := hours (cfg_confirm_hours c'), sv_reset_ttl := hours (cfg_reset_hours c'),
        sv_leeway := cfg_leeway c'\<rparr>)"

definition load_settings :: "auth_settings auth_m" where
  "load_settings = bnd (attempt store_get_settings) (\<lambda>r. case r of
     Inl _ \<Rightarrow> ret default_settings | Inr s \<Rightarrow> ret s)"

definition get_settings :: "auth_settings auth_m" where
  "get_settings = load_settings"

definition update_settings :: "auth_settings \<Rightarrow> auth_settings auth_m" where
  "update_settings s = seqm (store_save_settings s) (ret s)"

definition ensure_settings_defaults :: "unit auth_m" where
  "ensure_settings_defaults = bnd (attempt store_get_settings) (\<lambda>r. case r of
     Inr _ \<Rightarrow> ret () | Inl _ \<Rightarrow> store_save_settings default_settings)"

section \<open>Random values and hashes\<close>

definition new_session_token :: "service \<Rightarrow> (string \<times> string) auth_m" where
  "new_session_token sv = bnd (draw ErrRandom) (\<lambda>raw. ret (raw, sv_sha sv raw))"

definition hash_password :: "service \<Rightarrow> string \<Rightarrow> string auth_m" where
  "hash_password sv password = bnd (draw ErrRandom) (\<lambda>salt.
     case sv_bcrypt sv salt password of None \<Rightarrow> throw ErrHash | Some h \<Rightarrow> ret h)"

definition unusable_password_hash :: "service \<Rightarrow> string auth_m" where
  "unusable_password_hash sv = bnd (draw ErrRandom) (\<lambda>r. hash_password sv (CHR ''x'' # r))"

section \<open>One-time tokens\<close>

definition validate_token :: "service \<Rightarrow> string \<Rightarrow> purpose \<Rightarrow> token auth_m" where
  "validate_token sv raw p =
     (if trim_space raw = [] then throw ErrInvalidToken
      else bnd (on_err (get_auth_token_by_hash (sv_sha sv raw) p) (\<lambda>_. ErrInvalidToken)) (\<lambda>t.
        if tok_used t \<noteq> None then throw ErrTokenUsed
        else bnd (gets w_now) (\<lambda>now.
          if now > tok_expires t then throw ErrTokenExpired else ret t)))"

definition consume_token :: "service \<Rightarrow> string \<Rightarrow> purpose \<Rightarrow> token auth_m" where
  "consume_token sv raw p = bnd (validate_token sv raw p) (\<lambda>t.
     seqm (mark_auth_token_used (tok_id t)) (ret t))"

text \<open>A token value as the call sites build it; \<open>CreateAuthToken\<close> fills the rest.\<close>

definition mk_token :: "string \<Rightarrow> string \<Rightarrow> purpose \<Rightarrow> string \<Rightarrow> int \<Rightarrow> token" where
  "mk_token uid email p h expires = \<lparr>tok_id = [], tok_user = uid, tok_email = email, tok_purpose = p,
     tok_hash = h, tok_role = [], tok_invited_by = [], tok_expires = expires, tok_used = None,
     tok_created = 0\<rparr>"

definition login_2fa_ttl :: int where
  "login_2fa_ttl = 5 * 60 * 10 ^ 9"

definition create_pending_login_token :: "service \<Rightarrow> user \<Rightarrow> string auth_m" where
  "create_pending_login_token sv u = bnd (new_session_token sv) (\<lambda>(raw, h).
     bnd (gets w_now) (\<lambda>now.
     seqm (create_auth_token (mk_token (usr_id u) (usr_email u) PLogin2FA h (now + login_2fa_ttl)))
       (ret raw)))"

section \<open>Two-factor codes\<close>

definition backup_code_alphabet :: string where
  "backup_code_alphabet = ''ABCDEFGHJKLMNPQRSTUVWXYZ23456789''"

definition backup_code_length :: nat where "backup_code_length = 8"
definition backup_code_count :: nat where "backup_code_count = 8"

definition random_index :: "nat auth_m" where
  "random_index = bnd (draw ErrRandom) (\<lambda>r. case r of
     [] \<Rightarrow> throw ErrRandom | c # _ \<Rightarrow> ret (of_char c mod length backup_code_alphabet))"

fun random_chars :: "nat \<Rightarrow> string auth_m" where
  "random_chars 0 = ret []"
| "random_chars (Suc n) = bnd random_index (\<lambda>i. bnd (random_chars n) (\<lambda>cs.
     ret (backup_code_alphabet ! i # cs)))"

definition random_backup_code :: "string auth_m" where
  "random_backup_code = random_chars backup_code_length"

fun backup_codes :: "service \<Rightarrow> nat \<Rightarrow> (string \<times> string) list auth_m" where
  "backup_codes sv 0 = ret []"
| "backup_codes sv (Suc n) = bnd random_backup_code (\<lambda>code. bnd (hash_password sv code) (\<lambda>h.
     bnd (backup_codes sv n) (\<lambda>rest. ret ((code, h) # rest))))"

definition generate_backup_codes :: "service \<Rightarrow> (string list \<times> string list) auth_m" where
  "generate_backup_codes sv = bnd (backup_codes sv backup_code_count) (\<lambda>ps.
     ret (map fst ps, map snd ps))"

definition looks_like_backup_code :: "string \<Rightarrow> bool" where
  "looks_like_backup_code code \<longleftrightarrow> (let n = to_upper (trim_space code) in
     length n = backup_code_length \<and> list_all (\<lambda>c. c \<in> set backup_code_alphabet) n)"

definition validate_totp_code :: "service \<Rightarrow> string \<Rightarrow> string \<Rightarrow> int \<Rightarrow> int \<Rightarrow> bool" where
  "validate_totp_code sv secret code leeway now =
     (let l1 = (if leeway < 0 then 30 else leeway);
          l2 = (if l1 > 120 then 120 else l1)
      in sv_totp_ok sv secret code now (max (nat (l2 div 30)) 1))"

fun backup_loop :: "service \<Rightarrow> string \<Rightarrow> string \<Rightarrow> int \<Rightarrow> string list \<Rightarrow> bool auth_m" where
  "backup_loop sv uid code i [] = ret False"
| "backup_loop sv uid code i (h # hs) =
     (if h = [] then backup_loop sv uid code (i + 1) hs
      else if sv_bcrypt_ok sv h code then seqm (consume_backup_code uid i) (ret True)
      else backup_loop sv uid code (i + 1) hs)"

definition validate_backup_code :: "service \<Rightarrow> string \<Rightarrow> totp_record \<Rightarrow> string \<Rightarrow> bool auth_m" where
  "validate_backup_code sv uid record code =
     backup_loop sv uid (to_upper (trim_space code)) 0 (totp_backup record)"

definition verify_two_factor_code ::
    "service \<Rightarrow> string \<Rightarrow> totp_record \<Rightarrow> string \<Rightarrow> int \<Rightarrow> bool auth_m" where
  "verify_two_factor_code sv uid record code leeway =
     (case sv_decrypt sv (totp_secret record) of None \<Rightarrow> throw ErrCrypto
      | Some secret \<Rightarrow> bnd (gets w_now) (\<lambda>now.
          if validate_totp_code sv secret code leeway now then ret True
          else if \<not> looks_like_backup_code code then ret False
          else validate_backup_code sv uid record code))"

definition verify_disable_two_factor ::
    "service \<Rightarrow> string \<Rightarrow> totp_record \<Rightarrow> string \<Rightarrow> bool auth_m" where
  "verify_disable_two_factor sv uid record code =
     (case sv_decrypt sv (totp_secret record) of None \<Rightarrow> throw ErrCrypto
      | Some secret \<Rightarrow> bnd (gets w_now) (\<lambda>now.
          if validate_totp_code sv secret code (sv_leeway sv) now then ret True
          else validate_backup_code sv uid record code))"

definition require_user_totp :: "service \<Rightarrow> string \<Rightarrow> string \<Rightarrow> unit auth_m" where
  "require_user_totp sv uid code =
     (if trim_space code = [] then throw ErrTwoFactorRequired
      else bnd (get_user_totp uid) (\<lambda>record.
        bnd (verify_two_factor_code sv uid record code (sv_leeway sv)) (\<lambda>ok.
        failif (\<not> ok) ErrInvalidTwoFactorCode)))"

section \<open>Enrolment\<close>

definition start_two_factor_setup :: "service \<Rightarrow> string \<Rightarrow> string \<Rightarrow> (string \<times> string) auth_m" where
  "start_two_factor_setup sv uid email = bnd (user_has_totp uid) (\<lambda>enabled.
     if enabled then throw ErrTwoFactorAlreadyEnabled
     else bnd (draw ErrRandom) (\<lambda>r. case sv_totp_key sv email r of
       None \<Rightarrow> throw ErrCrypto
     | Some (secret, url) \<Rightarrow> bnd (draw ErrRandom) (\<lambda>nonce. case sv_encrypt sv nonce secret of
         None \<Rightarrow> throw ErrCrypto
       | Some enc \<Rightarrow> seqm (save_pending_totp_secret uid enc) (ret (secret, url)))))"

definition confirm_two_factor_setup :: "service \<Rightarrow> string \<Rightarrow> string \<Rightarrow> string list auth_m" where
  "confirm_two_factor_setup sv uid code = bnd (get_pending_totp_secret uid) (\<lambda>enc.
     if enc = [] then throw ErrTwoFactorNotConfigured
     else case sv_decrypt sv enc of None \<Rightarrow> throw ErrCrypto
     | Some secret \<Rightarrow> bnd (gets w_now) (\<lambda>now.
         if \<not> validate_totp_code sv secret code (sv_leeway sv) now then throw ErrInvalidTwoFactorCode
         else bnd (generate_backup_codes sv) (\<lambda>(codes, hashes).
           seqm (enable_user_totp uid enc hashes) (ret codes))))"

definition disable_two_factor :: "service \<Rightarrow> string \<Rightarrow> string \<Rightarrow> string \<Rightarrow> unit auth_m" where
  "disable_two_factor sv uid password code =
     bnd (on_err (get_user_with_password_by_id uid) (\<lambda>_. ErrInvalidCredentials)) (\<lambda>(u, h).
     if \<not> sv_bcrypt_ok sv h password then throw ErrInvalidCredentials
     else bnd (on_err (get_user_totp uid)
         (\<lambda>e. if e = ErrTOTPNotConfigured then ErrTwoFactorNotConfigured else e)) (\<lambda>record.
       bnd (verify_disable_two_factor sv uid record code) (\<lambda>ok.
       if \<not> ok then throw ErrInvalidTwoFactorCode else delete_user_totp uid)))"

definition admin_reset_two_factor :: "string \<Rightarrow> unit auth_m" where
  "admin_reset_two_factor uid = seqm (delete_user_totp uid) (delete_all_sessions_by_user uid)"

end
