(* ===== verification/AuthInvites.thy ===== *)
theory AuthInvites
  imports AuthTwoFactor
begin

text \<open>
  Links sent by mail and invites: the token issuing half of \<open>internal/auth/tokens.go\<close> and
  \<open>internal/auth/invites.go\<close>. A mail is its recipient, subject and link; the expiry text of the
  body is not kept.
\<close>

section \<open>Sending links\<close>

definition send_confirm_email :: "service \<Rightarrow> string \<Rightarrow> string \<Rightarrow> unit auth_m" where
  "send_confirm_email sv uid email = bnd (new_session_token sv) (\<lambda>(raw, h).
     bnd (gets w_now) (\<lambda>now.
     seqm (create_auth_token (mk_token uid email PConfirmEmail h (now + sv_confirm_ttl sv)))
       (send_mail email ''Confirm your sudoStream email''
         (sv_base_url sv @ ''/confirm-email?token='' @ raw))))"

definition issue_change_email_token :: "service \<Rightarrow> string \<Rightarrow> string \<Rightarrow> unit auth_m" where
  "issue_change_email_token sv uid email = bnd (new_session_token sv) (\<lambda>(raw, h).
     bnd (gets w_now) (\<lambda>now.
     seqm (create_auth_token (mk_token uid email PChangeEmail h (now + sv_confirm_ttl sv)))
       (send_mail email ''Confirm your new sudoStream email''
         (sv_base_url sv @ ''/confirm-email?token='' @ raw))))"

definition resend_change_email_token :: "service \<Rightarrow> string \<Rightarrow> string \<Rightarrow> unit auth_m" where
  "resend_change_email_token sv uid email =
     seqm (invalidate_unused_tokens email PChangeEmail) (issue_change_email_token sv uid email)"

section \<open>Invites\<close>

definition send_invite_email :: "service \<Rightarrow> string \<Rightarrow> string \<Rightarrow> unit auth_m" where
  "send_invite_email sv email raw = send_mail email (''You'' @ [char_of (39::nat)] @ ''re invited to sudoStream'')
     (sv_base_url sv @ ''/accept-invite?token='' @ raw)"

definition issue_invite_token ::
    "service \<Rightarrow> string \<Rightarrow> string \<Rightarrow> string \<Rightarrow> string \<Rightarrow> int \<Rightarrow> unit auth_m" where
  "issue_invite_token sv uid email role invited_by expires_in =
     bnd (new_session_token sv) (\<lambda>(raw, h).
     seqm (invalidate_unused_tokens email PInvite)
     (bnd (gets w_now) (\<lambda>now.
     seqm (create_auth_token ((mk_token uid email PInvite h (now + expires_in))
             \<lparr>tok_role := role, tok_invited_by := invited_by\<rparr>))
       (send_invite_email sv email raw))))"

definition ensure_invite_stub_user :: "service \<Rightarrow> string \<Rightarrow> string \<Rightarrow> string auth_m" where
  "ensure_invite_stub_user sv email role =
     bnd (attempt (get_user_by_email email)) (\<lambda>r. case r of
       Inr (existing, _) \<Rightarrow> bnd (store_list_pending_invites email) (\<lambda>pending.
         if pending = [] \<and> usr_enabled existing then throw ErrUserExists
         else ret (usr_id existing))
     | Inl _ \<Rightarrow> bnd (unusable_password_hash sv) (\<lambda>h.
         seqm (store_create_user \<lparr>usr_id = [], usr_email = email, usr_role = role,
                 usr_enabled = False, usr_verified_at = None, usr_must_change = False\<rparr> h)
         (bnd (get_user_by_email email) (\<lambda>(created, _). ret (usr_id created)))))"

definition create_invite :: "service \<Rightarrow> string \<Rightarrow> string \<Rightarrow> string \<Rightarrow> int \<Rightarrow> unit auth_m" where
  "create_invite sv raw_email raw_role invited_by expires_in =
     (let email = norm_email raw_email in
      if email = [] then throw ErrMissingEmail
      else case normalize_role raw_role of
        Inl e \<Rightarrow> throw e
      | Inr role \<Rightarrow>
          if role = RoleTV then throw ErrTVInviteForbidden
          else bnd (ensure_invite_stub_user sv email role) (\<lambda>uid.
            issue_invite_token sv uid email role invited_by
              (if expires_in \<le> 0 then sv_invite_ttl sv else expires_in)))"

definition resend_invite :: "service \<Rightarrow> string \<Rightarrow> string \<Rightarrow> int \<Rightarrow> unit auth_m" where
  "resend_invite sv token_id invited_by expires_in = bnd (get_auth_token_by_id token_id) (\<lambda>t.
     if tok_purpose t \<noteq> PInvite then throw ErrInvalidToken
     else seqm (invalidate_unused_tokens (tok_email t) PInvite)
       (create_invite sv (tok_email t) (tok_role t) invited_by
         (if expires_in \<le> 0 then sv_invite_ttl sv else expires_in)))"

definition revoke_invite :: "string \<Rightarrow> unit auth_m" where
  "revoke_invite token_id = bnd (get_auth_token_by_id token_id) (\<lambda>t.
     if tok_purpose t \<noteq> PInvite then throw ErrInvalidToken
     else if tok_used t \<noteq> None then throw ErrInvalidToken
     else mark_auth_token_used (tok_id t))"

record invite_view =
  inv_id :: string
  inv_email :: string
  inv_role :: string
  inv_expires :: int
  inv_created :: int
  inv_expired :: bool

definition list_pending_invites :: "string \<Rightarrow> invite_view list auth_m" where
  "list_pending_invites email = bnd (store_list_pending_invites (norm_email email)) (\<lambda>ts.
     bnd (gets w_now) (\<lambda>now. ret (map (\<lambda>t. \<lparr>inv_id = tok_id t, inv_email = tok_email t,
       inv_role = tok_role t, inv_expires = tok_expires t, inv_created = tok_created t,
       inv_expired = (now > tok_expires t)\<rparr>) ts)))"

definition load_or_create_invite_user :: "string \<Rightarrow> string \<Rightarrow> string \<Rightarrow> user auth_m" where
  "load_or_create_invite_user email role h =
     bnd (attempt (get_user_by_email email)) (\<lambda>r. case r of
       Inl _ \<Rightarrow> seqm (store_create_user \<lparr>usr_id = [], usr_email = email, usr_role = role,
            usr_enabled = True, usr_verified_at = None, usr_must_change = False\<rparr> h)
          (bnd (get_user_by_email email) (\<lambda>(created, _). ret created))
     | Inr (existing, _) \<Rightarrow> seqm (update_password_hash (usr_id existing) h False)
          (seqm (whenm (role \<noteq> usr_role existing)
             (store_update_user (usr_id existing)
               \<lparr>up_enabled = None, up_role = Some role, up_email = None\<rparr>))
           (ret existing)))"

definition accept_invite :: "service \<Rightarrow> string \<Rightarrow> string \<Rightarrow> unit auth_m" where
  "accept_invite sv raw password = bnd (validate_token sv raw PInvite) (\<lambda>t.
     bnd (hash_password sv password) (\<lambda>h.
     bnd (load_or_create_invite_user (tok_email t)
            (if tok_role t = [] then RoleUser else tok_role t) h) (\<lambda>existing.
     seqm (invalidate_unused_tokens (tok_email t) PInvite)
       (enable_user (usr_id existing) True))))"

end
