(* ===== verification/AuthIssuer.thy ===== *)
theory AuthIssuer
  imports AuthStore
begin

text \<open>
  Refresh tokens and request authorisation: \<open>internal/auth/postgres/refresh_store.go\<close> and
  \<open>internal/auth/ginjwt/issuer.go\<close>. The token generator of the third-party package gin-jwt is the
  pair of fields \<open>sv_issue\<close> and \<open>sv_issue_rotate\<close> of the service; \<open>lawful_issuer\<close> states what its
  documentation promises: a successful call has stored the new refresh token through the configured
  refresh-token store, rotation also deletes the old one, and nothing else changes.
\<close>

section \<open>The refresh token store\<close>

definition refresh_set :: "service \<Rightarrow> string \<Rightarrow> session_identity \<Rightarrow> int \<Rightarrow> unit auth_m" where
  "refresh_set sv tok ident expiry =
     bnd (attempt (get_session_by_id (sid_session ident))) (\<lambda>r. case r of
       Inr _ \<Rightarrow> update_session_refresh_token (sid_session ident) (sv_sha sv tok) expiry
     | Inl _ \<Rightarrow> create_session (sid_session ident) (sid_user_id ident) (sv_sha sv tok) expiry
         (sid_meta ident))"

definition refresh_get :: "service \<Rightarrow> string \<Rightarrow> session_identity auth_m" where
  "refresh_get sv tok =
     bnd (on_err (get_session_by_token_hash (sv_sha sv tok)) (\<lambda>_. RefreshTokenNotFound)) (\<lambda>ses.
     bnd (gets w_now) (\<lambda>now.
     if now > ses_expires ses
     then seqm (ignore (delete_session_by_token_hash (sv_sha sv tok))) (throw RefreshTokenExpired)
     else bnd (on_err (get_user_by_id (ses_user ses)) (\<lambda>_. RefreshTokenNotFound)) (\<lambda>u.
       ret \<lparr>sid_session = ses_id ses, sid_user_id = usr_id u, sid_user = public_of u,
         sid_meta = \<lparr>meta_ip = ses_ip ses, meta_agent = ses_agent ses\<rparr>\<rparr>)))"

definition refresh_delete :: "service \<Rightarrow> string \<Rightarrow> unit auth_m" where
  "refresh_delete sv tok = delete_session_by_token_hash (sv_sha sv tok)"

section \<open>The issuer\<close>

definition validate_refresh :: "service \<Rightarrow> string \<Rightarrow> session_identity auth_m" where
  "validate_refresh sv raw =
     (if raw = [] then throw ErrSessionNotFound
      else on_err (refresh_get sv raw) (\<lambda>e.
        if e = RefreshTokenNotFound \<or> e = RefreshTokenExpired then ErrSessionNotFound else e))"

definition refresh_with_rotation ::
    "service \<Rightarrow> string \<Rightarrow> (session_identity \<times> token_pair) auth_m" where
  "refresh_with_rotation sv old =
     bnd (validate_refresh sv old) (\<lambda>ident.
     bnd (on_err (get_user_by_id (sid_user_id ident)) (\<lambda>_. ErrSessionNotFound)) (\<lambda>u.
     if \<not> usr_enabled u then throw ErrUserDisabled
     else let ident' = ident\<lparr>sid_user := public_of u\<rparr> in
       bnd (sv_issue_rotate sv ident' old) (\<lambda>pair. ret (ident', pair))))"

definition revoke_refresh :: "service \<Rightarrow> string \<Rightarrow> unit auth_m" where
  "revoke_refresh sv raw = (if raw = [] then ret () else refresh_delete sv raw)"

text \<open>The check every authenticated request passes, on the session and user claims of its token.\<close>

definition authorizer :: "string \<Rightarrow> string \<Rightarrow> bool auth_m" where
  "authorizer session_id user_id =
     (if session_id = [] \<or> user_id = [] then ret False
      else bnd (attempt (get_session_by_id session_id)) (\<lambda>r. case r of
        Inl _ \<Rightarrow> ret False
      | Inr ses \<Rightarrow> bnd (gets w_now) (\<lambda>now.
          if now > ses_expires ses then ret False
          else if ses_user ses \<noteq> user_id then ret False
          else bnd (attempt (get_user_by_id user_id)) (\<lambda>r. case r of
            Inl _ \<Rightarrow> ret False
          | Inr u \<Rightarrow> ret (usr_enabled u)))))"

section \<open>What the token generator promises\<close>

definition same_tables :: "auth_world \<Rightarrow> auth_world \<Rightarrow> bool" where
  "same_tables w w' \<longleftrightarrow> users w' = users w \<and> tokens w' = tokens w \<and> sessions w' = sessions w \<and>
     totps w' = totps w \<and> settings w' = settings w \<and> outbox w' = outbox w \<and> w_now w' = w_now w \<and>
     suffix (w_rand w') (w_rand w)"

definition stores_refresh :: "service \<Rightarrow> session_identity \<Rightarrow> string \<Rightarrow> auth_world \<Rightarrow> auth_world \<Rightarrow> bool" where
  "stores_refresh sv ident refresh w w' \<longleftrightarrow> (\<exists>w1 expiry w2. same_tables w w1 \<and>
     refresh_set sv refresh ident expiry w1 = (Inr (), w2) \<and> same_tables w2 w')"

definition lawful_issuer :: "service \<Rightarrow> bool" where
  "lawful_issuer sv \<longleftrightarrow>
     (\<forall>ident w. case sv_issue sv ident w of
        (Inl _, w') \<Rightarrow> same_tables w w'
      | (Inr pair, w') \<Rightarrow> stores_refresh sv ident (tp_refresh pair) w w') \<and>
     (\<forall>ident old w. case sv_issue_rotate sv ident old w of
        (Inl _, w') \<Rightarrow> same_tables w w' \<or> (\<exists>refresh. stores_refresh sv ident refresh w w')
      | (Inr pair, w') \<Rightarrow> \<exists>w1 w2. stores_refresh sv ident (tp_refresh pair) w w1 \<and>
          refresh_delete sv old w1 = (Inr (), w2) \<and> same_tables w2 w')"

text \<open>A lawful generator exists: this one draws the refresh token, stores it through the refresh
  token store and signs nothing. \<open>demo_service\<close> is the service the witnesses of the theorems on
  accounts and sessions run: its hashes are tagged copies and its only valid code is 123456.\<close>

definition demo_base :: service where
  "demo_base = \<lparr>sv_base_url = ''http://host'', sv_invite_ttl = 1000, sv_confirm_ttl = 1000,
     sv_reset_ttl = 1000, sv_leeway = 30, sv_sha = (\<lambda>r. ''h:'' @ r),
     sv_bcrypt = (\<lambda>salt pw. Some (''b:'' @ pw)), sv_bcrypt_ok = (\<lambda>h pw. h = ''b:'' @ pw),
     sv_totp_ok = (\<lambda>secret code now skew. code = ''123456''),
     sv_totp_key = (\<lambda>email r. Some (r, ''otpauth'')), sv_encrypt = (\<lambda>nonce s. Some (''e:'' @ s)),
     sv_decrypt = (\<lambda>e. Some (drop 2 e)), sv_issue = (\<lambda>ident. throw ErrIssuer),
     sv_issue_rotate = (\<lambda>ident old. throw ErrIssuer)\<rparr>"

definition demo_issue :: "session_identity \<Rightarrow> token_pair auth_m" where
  "demo_issue ident = bnd (draw ErrIssuer) (\<lambda>r. bnd (gets w_now) (\<lambda>now.
     seqm (refresh_set demo_base r ident (now + 1000)) (ret \<lparr>tp_access = ''jwt'', tp_refresh = r\<rparr>)))"

definition demo_rotate :: "session_identity \<Rightarrow> string \<Rightarrow> token_pair auth_m" where
  "demo_rotate ident old = bnd (demo_issue ident) (\<lambda>pair.
     seqm (refresh_delete demo_base old) (ret pair))"

definition demo_service :: service where
  "demo_service = demo_base\<lparr>sv_issue := demo_issue, sv_issue_rotate := demo_rotate\<rparr>"

section \<open>Lemmas\<close>

lemma same_tables_refl [simp]: "same_tables w w"
  by (simp add: same_tables_def)

lemma same_tables_faults [simp]: "same_tables w (w\<lparr>w_faults := fs\<rparr>)"
  by (simp add: same_tables_def)

lemma same_tables_trans: "same_tables a b \<Longrightarrow> same_tables b c \<Longrightarrow> same_tables a c"
  by (auto simp: same_tables_def intro: suffix_order.trans)

lemma refresh_set_InrE:
  assumes "refresh_set sv tok ident expiry w = (Inr (), w')"
  obtains (update) s where "s \<in> set (sessions w)" and "ses_id s = sid_session ident"
    and "\<forall>s' \<in> set (sessions w). ses_id s' \<noteq> sid_session ident \<longrightarrow> ses_hash s' \<noteq> sv_sha sv tok"
    and "same_tables (w\<lparr>sessions := update_where (\<lambda>s. ses_id s = sid_session ident)
          (\<lambda>s. s\<lparr>ses_hash := sv_sha sv tok, ses_expires := expiry\<rparr>) (sessions w)\<rparr>) w'"
  | (create) r where "r \<in> set (users w)" and "ur_id r = sid_user_id ident"
    and "\<forall>s \<in> set (sessions w). ses_id s \<noteq> sid_session ident \<and> ses_hash s \<noteq> sv_sha sv tok"
    and "same_tables (w\<lparr>sessions := sessions w @ [\<lparr>ses_id = sid_session ident,
          ses_user = sid_user_id ident, ses_hash = sv_sha sv tok, ses_ip = meta_ip (sid_meta ident),
          ses_agent = meta_agent (sid_meta ident), ses_created = w_now w, ses_expires = expiry\<rparr>]\<rparr>) w'"
proof -
  obtain r w1 where g: "get_session_by_id (sid_session ident) w = (r, w1)" by fastforce
  then have w1: "same_tables w w1"
    by (auto simp: get_session_by_id_def db_def io_call_def Let_def split: if_splits option.splits)
  show ?thesis
  proof (cases r)
    case (Inr s)
    with g assms have u: "update_session_refresh_token (sid_session ident) (sv_sha sv tok) expiry w1 = (Inr (), w')"
      by (simp add: refresh_set_def run_bnd)
    then obtain s0 where "s0 \<in> set (sessions w)" "ses_id s0 = sid_session ident"
      using w1 by (auto simp: update_session_refresh_token_def db_def io_call_def Let_def
          same_tables_def split: if_splits)
    then show ?thesis
      by (rule update) (use u w1 in \<open>auto simp: update_session_refresh_token_def db_def io_call_def
          Let_def same_tables_def split: if_splits\<close>)
  next
    case (Inl e)
    with g assms have c: "create_session (sid_session ident) (sid_user_id ident) (sv_sha sv tok) expiry
        (sid_meta ident) w1 = (Inr (), w')"
      by (simp add: refresh_set_def run_bnd)
    then obtain r0 where "r0 \<in> set (users w)" "ur_id r0 = sid_user_id ident"
      using w1 by (auto simp: create_session_def db_def io_call_def Let_def
          same_tables_def split: if_splits)
    then show ?thesis
      by (rule create) (use c w1 in \<open>auto simp: create_session_def db_def io_call_def Let_def
          same_tables_def split: if_splits\<close>)
  qed
qed

lemma refresh_set_Inl: "refresh_set sv tok ident expiry w = (Inl e, w') \<Longrightarrow> same_tables w w'"
  by (auto simp: refresh_set_def run_bnd get_session_by_id_def update_session_refresh_token_def
      create_session_def db_def io_call_def Let_def same_tables_def
      split: if_splits option.splits sum.splits)

lemma refresh_delete_Inl: "refresh_delete sv tok w = (Inl e, w') \<Longrightarrow> same_tables w w'"
  by (auto simp: refresh_delete_def delete_session_by_token_hash_def delete_sessions_def db_def
      io_call_def Let_def split: if_splits)

lemma demo_base_fields [simp]:
  "sv_base_url demo_base = ''http://host''" "sv_invite_ttl demo_base = 1000"
  "sv_confirm_ttl demo_base = 1000" "sv_reset_ttl demo_base = 1000" "sv_leeway demo_base = 30"
  "sv_sha demo_base = (\<lambda>r. ''h:'' @ r)" "sv_bcrypt demo_base = (\<lambda>salt pw. Some (''b:'' @ pw))"
  "sv_bcrypt_ok demo_base = (\<lambda>h pw. h = ''b:'' @ pw)"
  "sv_totp_ok demo_base = (\<lambda>secret code now skew. code = ''123456'')"
  "sv_totp_key demo_base = (\<lambda>email r. Some (r, ''otpauth''))"
  "sv_encrypt demo_base = (\<lambda>nonce s. Some (''e:'' @ s))" "sv_decrypt demo_base = (\<lambda>e. Some (drop 2 e))"
  by (simp_all add: demo_base_def)

lemma demo_service_fields [simp]:
  "sv_base_url demo_service = ''http://host''" "sv_invite_ttl demo_service = 1000"
  "sv_confirm_ttl demo_service = 1000" "sv_reset_ttl demo_service = 1000" "sv_leeway demo_service = 30"
  "sv_sha demo_service = (\<lambda>r. ''h:'' @ r)" "sv_bcrypt demo_service = (\<lambda>salt pw. Some (''b:'' @ pw))"
  "sv_bcrypt_ok demo_service = (\<lambda>h pw. h = ''b:'' @ pw)"
  "sv_totp_ok demo_service = (\<lambda>secret code now skew. code = ''123456'')"
  "sv_totp_key demo_service = (\<lambda>email r. Some (r, ''otpauth''))"
  "sv_encrypt demo_service = (\<lambda>nonce s. Some (''e:'' @ s))" "sv_decrypt demo_service = (\<lambda>e. Some (drop 2 e))"
  "sv_issue demo_service = demo_issue" "sv_issue_rotate demo_service = demo_rotate"
  by (simp_all add: demo_service_def)

lemma demo_sha: "sv_sha demo_service = sv_sha demo_base"
  by simp

lemma demo_refresh [simp]:
  "refresh_set demo_service = refresh_set demo_base" "refresh_delete demo_service = refresh_delete demo_base"
  by (intro ext, simp only: refresh_set_def refresh_delete_def demo_sha)+

lemma demo_issue_cases:
  "case demo_issue ident w of (Inl _, w') \<Rightarrow> same_tables w w'
   | (Inr pair, w') \<Rightarrow> stores_refresh demo_service ident (tp_refresh pair) w w'"
proof (cases "w_rand w")
  case Nil
  then show ?thesis by (simp add: demo_issue_def run_bnd draw_def)
next
  case (Cons r rs)
  let ?w = "w\<lparr>w_rand := rs\<rparr>"
  have st: "same_tables w ?w" using Cons by (simp add: same_tables_def suffix_def)
  obtain x w' where x: "refresh_set demo_base r ident (w_now w + 1000) ?w = (x, w')" by fastforce
  show ?thesis
  proof (cases x)
    case (Inl e)
    with x Cons have "demo_issue ident w = (Inl e, w')"
      by (simp add: demo_issue_def run_bnd run_seqm draw_def)
    moreover have "same_tables w w'"
      using st refresh_set_Inl [of demo_base r ident "w_now w + 1000" ?w e w'] x Inl
      by (blast intro: same_tables_trans)
    ultimately show ?thesis by simp
  next
    case (Inr u)
    with x Cons have "demo_issue ident w = (Inr \<lparr>tp_access = ''jwt'', tp_refresh = r\<rparr>, w')"
      by (simp add: demo_issue_def run_bnd run_seqm draw_def)
    moreover have "stores_refresh demo_service ident r w w'"
      unfolding stores_refresh_def using st x Inr same_tables_refl [of w'] by fastforce
    ultimately show ?thesis by simp
  qed
qed

lemma lawful_demo: "lawful_issuer demo_service"
proof -
  have "case demo_rotate ident old w of
        (Inl _, w') \<Rightarrow> same_tables w w' \<or> (\<exists>refresh. stores_refresh demo_service ident refresh w w')
      | (Inr pair, w') \<Rightarrow> \<exists>w1 w2. stores_refresh demo_service ident (tp_refresh pair) w w1 \<and>
          refresh_delete demo_service old w1 = (Inr (), w2) \<and> same_tables w2 w'" for ident old and w :: auth_world
  proof -
    have extend: "stores_refresh demo_service ident tok w w2"
      if "stores_refresh demo_service ident tok w w1" and "same_tables w1 w2"
      for tok and w1 w2 :: auth_world
      using that by (auto simp: stores_refresh_def intro: same_tables_trans)
    show ?thesis
      using demo_issue_cases [where ident = ident and w = w]
      by (auto simp: demo_rotate_def run_bnd run_seqm split: prod.splits sum.splits
          dest: refresh_delete_Inl intro: extend)
  qed
  then show ?thesis
    using demo_issue_cases by (simp add: lawful_issuer_def)
qed

end
