(* ===== verification/AuthAccounts.thy ===== *)
theory AuthAccounts
  imports AuthInvites AuthIssuer
begin

text \<open>
  Logging in and recovering an account: \<open>internal/auth/service.go\<close>, the rest of
  \<open>internal/auth/tokens.go\<close> and the login half of \<open>internal/auth/totp.go\<close>.
\<close>

section \<open>Issuing a session\<close>

definition issue_session :: "service \<Rightarrow> user \<Rightarrow> session_meta \<Rightarrow> (public_user \<times> token_pair) auth_m" where
  "issue_session sv u sm = bnd (draw ErrRandom) (\<lambda>sid.
     bnd (sv_issue sv \<lparr>sid_session = sid, sid_user_id = usr_id u, sid_user = public_of u,
            sid_meta = sm\<rparr>) (\<lambda>pair.
     bnd (gets w_now) (\<lambda>now.
     seqm (update_last_login (usr_id u) now) (ret (public_of u, pair)))))"

definition issue_login_outcome :: "service \<Rightarrow> user \<Rightarrow> session_meta \<Rightarrow> login_outcome auth_m" where
  "issue_login_outcome sv u sm = bnd (issue_session sv u sm) (\<lambda>(p, pair).
     ret \<lparr>lo_status = ''ok'', lo_user = p, lo_access = tp_access pair,
       lo_refresh = tp_refresh pair, lo_pending = []\<rparr>)"

definition pending_two_factor_outcome ::
    "service \<Rightarrow> user \<Rightarrow> bool \<Rightarrow> bool \<Rightarrow> login_outcome auth_m" where
  "pending_two_factor_outcome sv u has_totp required =
     bnd (create_pending_login_token sv u) (\<lambda>pending.
     ret \<lparr>lo_status = (if required \<and> \<not> has_totp then ''2fa_setup_required'' else ''2fa_required''),
       lo_user = public_of u, lo_access = [], lo_refresh = [], lo_pending = pending\<rparr>)"

section \<open>Password login\<close>

definition reject_if_invite_pending :: "service \<Rightarrow> user \<Rightarrow> unit auth_m" where
  "reject_if_invite_pending sv u =
     (if usr_enabled u then ret ()
      else bnd (store_list_pending_invites (usr_email u)) (\<lambda>pending. case pending of
        [] \<Rightarrow> ret ()
      | invite # _ \<Rightarrow> bnd (gets w_now) (\<lambda>now.
          seqm (whenm (now > tok_expires invite)
                  (ignore (resend_invite sv (tok_id invite) (tok_invited_by invite) 0)))
            (throw ErrInvitePending))))"

definition ensure_confirm_email_sent :: "service \<Rightarrow> user \<Rightarrow> unit auth_m" where
  "ensure_confirm_email_sent sv u = bnd load_settings (\<lambda>st.
     if \<not> email_confirmation_required st then ret ()
     else if usr_verified_at u \<noteq> None then ret ()
     else bnd (attempt (get_unused_auth_token_by_user (usr_id u) PChangeEmail)) (\<lambda>change. case change of
       Inr _ \<Rightarrow> ret ()
     | Inl _ \<Rightarrow> bnd (attempt (has_unused_auth_token (usr_email u) PConfirmEmail)) (\<lambda>confirm.
         if confirm = Inr True then ret ()
         else bnd (attempt (store_list_pending_invites (usr_email u))) (\<lambda>pending. case pending of
           Inr (t # _) \<Rightarrow> ignore (resend_invite sv (tok_id t) (tok_invited_by t) 0)
         | _ \<Rightarrow> seqm (ignore (invalidate_unused_tokens (usr_email u) PConfirmEmail))
             (ignore (send_confirm_email sv (usr_id u) (usr_email u)))))))"

definition login_after_password :: "service \<Rightarrow> user \<Rightarrow> session_meta \<Rightarrow> login_outcome auth_m" where
  "login_after_password sv u sm = bnd load_settings (\<lambda>st.
     bnd (user_has_totp (usr_id u)) (\<lambda>has_totp.
     if has_totp \<or> two_factor_required st
     then pending_two_factor_outcome sv u has_totp (two_factor_required st)
     else issue_login_outcome sv u sm))"

definition login :: "service \<Rightarrow> string \<Rightarrow> string \<Rightarrow> session_meta \<Rightarrow> login_outcome auth_m" where
  "login sv email password sm =
     bnd (on_err (get_user_by_email email) (\<lambda>_. ErrInvalidCredentials)) (\<lambda>(u, h).
     seqm (reject_if_invite_pending sv u)
     (if \<not> sv_bcrypt_ok sv h password then throw ErrInvalidCredentials
      else if \<not> allows_web_login (usr_role u) then throw ErrTVWebAuth
      else bnd load_settings (\<lambda>st.
        if \<not> usr_enabled u \<or> (email_confirmation_required st \<and> usr_verified_at u = None)
        then seqm (ensure_confirm_email_sent sv u) (throw ErrUserDisabled)
        else login_after_password sv u sm)))"

definition login_with_provided_totp ::
    "service \<Rightarrow> user \<Rightarrow> string \<Rightarrow> session_meta \<Rightarrow> login_outcome auth_m" where
  "login_with_provided_totp sv u code sm =
     (if trim_space code = [] then pending_two_factor_outcome sv u True False
      else bnd (get_user_totp (usr_id u)) (\<lambda>record.
        bnd (verify_two_factor_code sv (usr_id u) record code (sv_leeway sv)) (\<lambda>ok.
        if \<not> ok then throw ErrInvalidTwoFactorCode else issue_login_outcome sv u sm)))"

definition login_with_totp ::
    "service \<Rightarrow> string \<Rightarrow> string \<Rightarrow> string \<Rightarrow> session_meta \<Rightarrow> login_outcome auth_m" where
  "login_with_totp sv email password code sm =
     bnd (on_err (get_user_by_email email) (\<lambda>_. ErrInvalidCredentials)) (\<lambda>(u, h).
     seqm (reject_if_invite_pending sv u)
     (if \<not> usr_enabled u then throw ErrUserDisabled
      else if \<not> sv_bcrypt_ok sv h password then throw ErrInvalidCredentials
      else bnd (user_has_totp (usr_id u)) (\<lambda>has_totp.
        if \<not> has_totp
        then bnd load_settings (\<lambda>st.
          if two_factor_required st then pending_two_factor_outcome sv u False True
          else issue_login_outcome sv u sm)
        else login_with_provided_totp sv u code sm)))"

section \<open>The second step of a login\<close>

definition verify_login_two_factor ::
    "service \<Rightarrow> string \<Rightarrow> string \<Rightarrow> session_meta \<Rightarrow> (public_user \<times> token_pair) auth_m" where
  "verify_login_two_factor sv raw code sm = bnd (validate_token sv raw PLogin2FA) (\<lambda>t.
     bnd (on_err (get_user_by_id (tok_user t)) (\<lambda>_. ErrInvalidToken)) (\<lambda>u.
     if \<not> usr_enabled u then throw ErrUserDisabled
     else bnd (get_user_totp (usr_id u)) (\<lambda>record.
       bnd (verify_two_factor_code sv (usr_id u) record code (sv_leeway sv)) (\<lambda>ok.
       if \<not> ok then throw ErrInvalidTwoFactorCode
       else seqm (mark_auth_token_used (tok_id t)) (issue_session sv u sm)))))"

definition complete_pending_two_factor_setup ::
    "service \<Rightarrow> string \<Rightarrow> string \<Rightarrow> session_meta \<Rightarrow> (public_user \<times> token_pair \<times> string list) auth_m" where
  "complete_pending_two_factor_setup sv raw code sm = bnd (validate_token sv raw PLogin2FA) (\<lambda>t.
     bnd (on_err (get_user_by_id (tok_user t)) (\<lambda>_. ErrInvalidToken)) (\<lambda>u.
     bnd (confirm_two_factor_setup sv (usr_id u) code) (\<lambda>codes.
     seqm (mark_auth_token_used (tok_id t))
     (bnd (issue_session sv u sm) (\<lambda>(p, pair). ret (p, pair, codes))))))"

definition user_from_pending_login_token :: "service \<Rightarrow> string \<Rightarrow> user auth_m" where
  "user_from_pending_login_token sv raw = bnd (validate_token sv raw PLogin2FA) (\<lambda>t.
     on_err (get_user_by_id (tok_user t)) (\<lambda>_. ErrInvalidToken))"

section \<open>Sessions of a logged-in client\<close>

definition logout :: "service \<Rightarrow> string \<Rightarrow> unit auth_m" where
  "logout sv raw = (if raw = [] then ret () else revoke_refresh sv raw)"

definition refresh :: "service \<Rightarrow> string \<Rightarrow> (public_user \<times> token_pair) auth_m" where
  "refresh sv raw =
     (if raw = [] then throw ErrSessionNotFound
      else bnd (on_err (refresh_with_rotation sv raw) (\<lambda>e.
          if e = ErrSessionNotFound \<or> e = ErrSessionExpired \<or> e = ErrUserDisabled then e
          else ErrSessionNotFound)) (\<lambda>(ident, pair). ret (sid_user ident, pair)))"

definition seed_admin :: "service \<Rightarrow> string \<Rightarrow> string \<Rightarrow> unit auth_m" where
  "seed_admin sv email password = bnd count_users (\<lambda>n.
     if n > 0 then ret ()
     else bnd (hash_password sv password) (\<lambda>h.
       seqm (store_create_user \<lparr>usr_id = [], usr_email = email, usr_role = RoleAdmin,
               usr_enabled = True, usr_verified_at = None, usr_must_change = True\<rparr> h)
       (bnd (get_user_by_email email) (\<lambda>(created, _). enable_user (usr_id created) True))))"

section \<open>Passwords\<close>

definition request_password_reset :: "service \<Rightarrow> string \<Rightarrow> unit auth_m" where
  "request_password_reset sv raw_email =
     (let email = norm_email raw_email in
      if email = [] then ret ()
      else bnd (attempt (get_user_by_email email)) (\<lambda>r. case r of
        Inl _ \<Rightarrow> ret ()
      | Inr (u, _) \<Rightarrow> bnd load_settings (\<lambda>st.
          if email_confirmation_required st \<and> usr_verified_at u = None
          then ensure_confirm_email_sent sv u
          else bnd (new_session_token sv) (\<lambda>(raw, h).
            seqm (invalidate_unused_tokens email PResetPassword)
            (bnd (gets w_now) (\<lambda>now.
            seqm (create_auth_token (mk_token (usr_id u) email PResetPassword h (now + sv_reset_ttl sv)))
              (send_mail email ''Reset your sudoStream password''
                (sv_base_url sv @ ''/reset-password?token='' @ raw))))))))"

definition reset_password :: "service \<Rightarrow> string \<Rightarrow> string \<Rightarrow> unit auth_m" where
  "reset_password sv raw password = bnd (validate_token sv raw PResetPassword) (\<lambda>t.
     bnd (get_user_with_password_by_id (tok_user t)) (\<lambda>(_, current).
     if sv_bcrypt_ok sv current password then throw ErrPasswordUnchanged
     else bnd (hash_password sv password) (\<lambda>h.
       seqm (mark_auth_token_used (tok_id t))
       (seqm (update_password_hash (tok_user t) h False)
         (delete_all_sessions_by_user (tok_user t))))))"

definition change_password ::
    "service \<Rightarrow> string \<Rightarrow> string \<Rightarrow> string \<Rightarrow> string \<Rightarrow> session_meta \<Rightarrow> (public_user \<times> token_pair) auth_m" where
  "change_password sv uid current new code sm =
     bnd (on_err (get_user_with_password_by_id uid) (\<lambda>_. ErrInvalidCredentials)) (\<lambda>(u, h).
     if \<not> usr_must_change u \<and> \<not> sv_bcrypt_ok sv h current then throw ErrInvalidCredentials
     else if sv_bcrypt_ok sv h new then throw ErrPasswordUnchanged
     else bnd (user_has_totp uid) (\<lambda>has2fa.
       seqm (whenm has2fa (require_user_totp sv uid code))
       (bnd (hash_password sv new) (\<lambda>h'.
       seqm (update_password_hash uid h' False)
       (seqm (delete_all_sessions_by_user uid)
         (issue_session sv (u\<lparr>usr_must_change := False\<rparr>) sm))))))"

section \<open>Email addresses\<close>

definition resend_confirm_email :: "service \<Rightarrow> string \<Rightarrow> unit auth_m" where
  "resend_confirm_email sv uid = bnd (get_user_by_id uid) (\<lambda>u.
     bnd (store_list_pending_invites (usr_email u)) (\<lambda>pending. case pending of
       t # _ \<Rightarrow> resend_invite sv (tok_id t) (tok_invited_by t) 0
     | [] \<Rightarrow> bnd (attempt (get_unused_auth_token_by_user (usr_id u) PChangeEmail)) (\<lambda>change. case change of
         Inr ct \<Rightarrow> resend_change_email_token sv (usr_id u) (tok_email ct)
       | Inl _ \<Rightarrow>
           if usr_verified_at u \<noteq> None then throw ErrResendConfirmUnavailable
           else seqm (invalidate_unused_tokens (usr_email u) PConfirmEmail)
             (send_confirm_email sv (usr_id u) (usr_email u)))))"

definition confirm_email_purpose :: "service \<Rightarrow> string \<Rightarrow> purpose \<Rightarrow> unit auth_m" where
  "confirm_email_purpose sv raw p = bnd (consume_token sv raw p) (\<lambda>t.
     seqm (whenm (p = PChangeEmail)
       (seqm (update_user_email (tok_user t) (tok_email t) False)
         (ignore (invalidate_unused_tokens (tok_email t) PChangeEmail))))
     (enable_user (tok_user t) True))"

definition confirm_email :: "service \<Rightarrow> string \<Rightarrow> unit auth_m" where
  "confirm_email sv raw = bnd (attempt (confirm_email_purpose sv raw PConfirmEmail)) (\<lambda>r. case r of
     Inr _ \<Rightarrow> ret ()
   | Inl e \<Rightarrow>
       if e = ErrTokenUsed then ret ()
       else if e \<noteq> ErrInvalidToken then throw e
       else bnd (attempt (confirm_email_purpose sv raw PChangeEmail)) (\<lambda>c. case c of
         Inr _ \<Rightarrow> ret ()
       | Inl e' \<Rightarrow> if e' = ErrTokenUsed then ret () else throw e'))"

definition request_change_email ::
    "service \<Rightarrow> string \<Rightarrow> string \<Rightarrow> string \<Rightarrow> string \<Rightarrow> unit auth_m" where
  "request_change_email sv uid raw_email password code =
     (let email = norm_email raw_email in
      if email = [] then throw ErrMissingEmail
      else bnd (on_err (get_user_with_password_by_id uid) (\<lambda>_. ErrInvalidCredentials)) (\<lambda>(u, h).
      if \<not> sv_bcrypt_ok sv h password then throw ErrInvalidCredentials
      else if email = to_lower (usr_email u) then throw ErrUserExists
      else bnd (attempt (get_user_by_email email)) (\<lambda>other. case other of
        Inr _ \<Rightarrow> throw ErrUserExists
      | Inl _ \<Rightarrow> bnd (user_has_totp uid) (\<lambda>has2fa.
          seqm (whenm has2fa (require_user_totp sv uid code))
          (seqm (invalidate_unused_tokens (usr_email u) PChangeEmail)
          (seqm (invalidate_unused_tokens email PChangeEmail)
          (seqm (invalidate_unused_tokens (usr_email u) PConfirmEmail)
          (seqm (clear_email_verified uid)
            (issue_change_email_token sv uid email)))))))))"

end
