(* ===== verification/AuthAdmin.thy ===== *)
theory AuthAdmin
  imports AuthAccounts
begin

text \<open>
  Account administration and session management: \<open>internal/auth/admin.go\<close> and \<open>sessions.go\<close>.
\<close>

section \<open>Sessions\<close>

record session_view =
  sv_id :: string
  sv_ip :: string
  sv_agent :: string
  sv_created :: int
  sv_expires :: int
  sv_current :: bool

definition session_views :: "int \<Rightarrow> string \<Rightarrow> session_record list \<Rightarrow> session_view list" where
  "session_views now current ss = map (\<lambda>s. \<lparr>sv_id = ses_id s, sv_ip = ses_ip s, sv_agent = ses_agent s,
     sv_created = ses_created s, sv_expires = ses_expires s,
     sv_current = (current \<noteq> [] \<and> ses_id s = current)\<rparr>) (filter (\<lambda>s. \<not> now > ses_expires s) ss)"

definition list_user_sessions :: "string \<Rightarrow> string \<Rightarrow> session_view list auth_m" where
  "list_user_sessions uid current = bnd (list_sessions_by_user uid) (\<lambda>ss.
     bnd (gets w_now) (\<lambda>now. ret (session_views now current ss)))"

definition revoke_user_session :: "string \<Rightarrow> string \<Rightarrow> string \<Rightarrow> bool auth_m" where
  "revoke_user_session uid sid current = bnd (get_session_by_id sid) (\<lambda>s.
     if ses_user s \<noteq> uid then throw ErrForbidden
     else seqm (delete_session_by_id sid) (ret (current \<noteq> [] \<and> ses_id s = current)))"

definition admin_list_user_sessions :: "string \<Rightarrow> session_view list auth_m" where
  "admin_list_user_sessions uid = bnd (list_sessions_by_user uid) (\<lambda>ss.
     bnd (gets w_now) (\<lambda>now. ret (session_views now [] ss)))"

definition admin_revoke_session :: "string \<Rightarrow> unit auth_m" where
  "admin_revoke_session sid = delete_session_by_id sid"

definition revoke_all_user_sessions :: "string \<Rightarrow> unit auth_m" where
  "revoke_all_user_sessions uid = delete_all_sessions_by_user uid"

definition admin_revoke_all_sessions :: "string \<Rightarrow> unit auth_m" where
  "admin_revoke_all_sessions uid = delete_all_sessions_by_user uid"

section \<open>Listing accounts\<close>

definition derive_user_status :: "admin_user \<Rightarrow> string set \<Rightarrow> string" where
  "derive_user_status u pending =
     (if to_lower (adm_email u) \<in> pending then ''invited''
      else if \<not> adm_verified u then ''unconfirmed''
      else if adm_enabled u then ''active''
      else ''disabled'')"

definition pending_invite_emails :: "string set auth_m" where
  "pending_invite_emails = bnd (store_list_pending_invites []) (\<lambda>ts.
     ret (set (map (\<lambda>t. to_lower (tok_email t)) ts)))"

definition list_users :: "admin_user list auth_m" where
  "list_users = bnd store_list_users (\<lambda>us. bnd pending_invite_emails (\<lambda>pending.
     ret (map (\<lambda>u. u\<lparr>adm_status := derive_user_status u pending\<rparr>) us)))"

definition admin_user_by_id :: "string \<Rightarrow> admin_user auth_m" where
  "admin_user_by_id uid = bnd list_users (\<lambda>us. case find (\<lambda>u. adm_id u = uid) us of
     None \<Rightarrow> throw ErrManagedUserNotFound | Some u \<Rightarrow> ret u)"

section \<open>Changing accounts\<close>

definition create_user :: "service \<Rightarrow> string \<Rightarrow> string \<Rightarrow> string \<Rightarrow> admin_user auth_m" where
  "create_user sv raw_email password raw_role =
     (let email = norm_email raw_email in
      if email = [] \<or> password = [] then throw ErrMissingCredentials
      else case normalize_role raw_role of
        Inl e \<Rightarrow> throw e
      | Inr role \<Rightarrow> bnd (attempt (get_user_by_email email)) (\<lambda>r. case r of
          Inr _ \<Rightarrow> throw ErrUserExists
        | Inl _ \<Rightarrow> bnd (hash_password sv password) (\<lambda>h.
            seqm (store_create_user \<lparr>usr_id = [], usr_email = email, usr_role = role,
                    usr_enabled = True, usr_verified_at = None, usr_must_change = True\<rparr> h)
            (bnd (get_user_by_email email) (\<lambda>(created, _).
              seqm (enable_user (usr_id created) True) (admin_user_by_id (usr_id created)))))))"

definition guard_last_admin_mutation :: "user \<Rightarrow> user_patch \<Rightarrow> unit auth_m" where
  "guard_last_admin_mutation target patch =
     (if usr_role target \<noteq> RoleAdmin then ret ()
      else let disable = (up_enabled patch = Some False);
               demote = (case up_role patch of None \<Rightarrow> False | Some r \<Rightarrow> r \<noteq> RoleAdmin)
           in if \<not> disable \<and> \<not> demote then ret ()
              else bnd count_admins (\<lambda>n. failif (n \<le> 1) ErrForbidden))"

definition admin_change_email :: "service \<Rightarrow> user \<Rightarrow> string \<Rightarrow> unit auth_m" where
  "admin_change_email sv target raw_email =
     (let email = norm_email raw_email in
      if email = [] then throw ErrMissingEmail
      else if email = to_lower (usr_email target) then ret ()
      else bnd (attempt (get_user_by_email email)) (\<lambda>r. case r of
        Inr _ \<Rightarrow> throw ErrUserExists
      | Inl _ \<Rightarrow> seqm (update_user_email (usr_id target) email True)
          (seqm (eachm (\<lambda>(e, p). ignore (invalidate_unused_tokens e p))
             [(usr_email target, PInvite), (usr_email target, PConfirmEmail),
              (usr_email target, PChangeEmail), (email, PInvite), (email, PConfirmEmail),
              (email, PChangeEmail)])
           (send_confirm_email sv (usr_id target) email))))"

definition apply_enabled_patch :: "string \<Rightarrow> bool \<Rightarrow> unit auth_m" where
  "apply_enabled_patch uid enabled =
     (if enabled then enable_user uid True
      else seqm (delete_all_sessions_by_user uid)
        (store_update_user uid \<lparr>up_enabled = Some False, up_role = None, up_email = None\<rparr>))"

definition update_user :: "service \<Rightarrow> string \<Rightarrow> user_patch \<Rightarrow> admin_user auth_m" where
  "update_user sv uid patch = bnd (get_user_by_id uid) (\<lambda>target.
     seqm (guard_last_admin_mutation target patch)
     (seqm (case up_email patch of None \<Rightarrow> ret () | Some e \<Rightarrow> admin_change_email sv target e)
     (seqm (case up_enabled patch of None \<Rightarrow> ret () | Some b \<Rightarrow> apply_enabled_patch uid b)
     (seqm (case up_role patch of None \<Rightarrow> ret () | Some raw \<Rightarrow> (case normalize_role raw of
          Inl e \<Rightarrow> throw e
        | Inr role \<Rightarrow> seqm (store_update_user uid \<lparr>up_enabled = None, up_role = Some role, up_email = None\<rparr>)
            (whenm (\<not> allows_web_login role) (ignore (admin_revoke_all_sessions uid)))))
      (admin_user_by_id uid)))))"

definition delete_user :: "string \<Rightarrow> unit auth_m" where
  "delete_user uid = bnd (get_user_by_id uid) (\<lambda>target.
     if usr_enabled target then throw ErrUserNotDisabled
     else seqm (guard_last_admin_mutation target
                 \<lparr>up_enabled = Some False, up_role = None, up_email = None\<rparr>)
       (store_delete_user uid))"

end
