(* ===== verification/AuthRules.thy ===== *)
theory AuthRules
  imports AuthAdmin
begin

text \<open>
  The contract between the authentication service and its store. \<open>auth_contract\<close> states what a step
  relation on the tables has to satisfy for every statement of the store; inside it every operation
  of the service is shown to respect the relation, once. An invariant of the tables is then
  preserved by the whole service as soon as the statements of the store preserve it.
  An unlawful issuer makes the relation trivial, so that the contract has an interpretation for
  every service; \<open>ok_hash\<close> restricts the token hashes the service may store: a random value with a forbidden hash
  in the supply makes the relation trivial, so a client may assume that what it drew is allowed.
\<close>

locale auth_contract = step_rel R for R :: "auth_world \<Rightarrow> auth_world \<Rightarrow> bool" +
  fixes sv :: service and ok_hash :: "string \<Rightarrow> bool"
  assumes quiet: "same_tables w w' \<Longrightarrow> R w w'"
    and drawn: "r \<in> set (w_rand w) \<Longrightarrow> \<not> ok_hash (sv_sha sv r) \<Longrightarrow> R w w'"
    and create_user: "resp R (store_create_user u h)"
    and update_user: "resp R (store_update_user i patch)"
    and last_login: "resp R (update_last_login i at)"
    and password_hash: "resp R (update_password_hash i h must)"
    and user_email: "resp R (update_user_email i email clear)"
    and enable: "resp R (enable_user i mark)"
    and unverify: "resp R (clear_email_verified i)"
    and remove_user: "resp R (store_delete_user i)"
    and save_settings: "resp R (store_save_settings s)"
    and create_token: "ok_hash (tok_hash t) \<Longrightarrow> resp R (create_auth_token t)"
    and mark_token: "resp R (mark_auth_token_used i)"
    and invalidate: "resp R (invalidate_unused_tokens e p)"
    and new_session: "resp R (create_session i uid h expiry sm)"
    and move_session: "resp R (update_session_refresh_token i h expiry)"
    and drop_sessions: "resp R (delete_sessions P)"
    and put_totp: "resp R (upsert_totp tr)"
    and drop_totp: "resp R (delete_user_totp i)"
    and use_backup: "resp R (consume_backup_code i n)"
    and mailed: "resp R (send_mail e subj link)"
    and unlawful: "\<not> lawful_issuer sv \<Longrightarrow> R w w'"
begin

subsection \<open>Statements that only read\<close>

lemma faults: "R w (w\<lparr>w_faults := fs\<rparr>)"
  by (simp add: quiet)

lemma resp_io: "resp R f \<Longrightarrow> resp R (io_call e f)"
  by (rule respI) (auto simp: io_call_def Let_def intro: trans faults dest: respD)

lemma resp_io_read: "(\<And>w. snd (f w) = w) \<Longrightarrow> resp R (io_call e f)"
  by (rule respI) (simp add: io_call_def Let_def faults)

lemma resp_draw [resp_intros]: "resp R (draw e)"
  by (rule respI) (auto simp: draw_def refl same_tables_def suffix_def intro!: quiet split: list.splits)

lemma resp_find_user [resp_intros]: "resp R (find_user P b)"
  unfolding find_user_def db_def by (rule resp_io_read) (auto split: option.splits)

lemma resp_get_user [resp_intros]:
  "resp R (get_user_by_email e)" "resp R (get_user_with_password_by_id i)" "resp R (get_user_by_id i)"
  unfolding get_user_by_email_def get_user_with_password_by_id_def get_user_by_id_def
  by (intro resp_intros)+

lemma resp_reads [resp_intros]:
  "resp R count_users" "resp R count_admins" "resp R count_sessions" "resp R store_list_users"
  "resp R store_get_settings" "resp R (has_unused_auth_token e p)"
  "resp R (get_unused_auth_token_by_user i p)" "resp R (get_auth_token_by_hash h p)"
  "resp R (get_auth_token_by_id i)" "resp R (store_list_pending_invites e)"
  "resp R (get_session_by_token_hash h)" "resp R (get_session_by_id i)"
  "resp R (list_sessions_by_user i)" "resp R (user_has_totp i)" "resp R (get_user_totp i)"
  "resp R (get_pending_totp_secret i)"
  unfolding count_users_def count_admins_def count_sessions_def store_list_users_def
    store_get_settings_def has_unused_auth_token_def get_unused_auth_token_by_user_def
    get_auth_token_by_hash_def get_auth_token_by_id_def store_list_pending_invites_def
    get_session_by_token_hash_def get_session_by_id_def list_sessions_by_user_def
    user_has_totp_def get_user_totp_def get_pending_totp_secret_def db_def
  by (rule resp_io_read, simp add: first_token_def split: option.splits list.splits)+

subsection \<open>Statements that write\<close>

lemmas resp_writes [resp_intros] =
  create_user update_user last_login password_hash user_email enable unverify remove_user
  save_settings mark_token invalidate new_session move_session drop_sessions
  put_totp drop_totp use_backup mailed

lemma resp_sessions [resp_intros]:
  "resp R (delete_session_by_token_hash h)" "resp R (delete_session_by_id i)"
  "resp R (delete_all_sessions_by_user i)" "resp R (delete_sessions_except i k)"
  unfolding delete_session_by_token_hash_def delete_session_by_id_def
    delete_all_sessions_by_user_def delete_sessions_except_def
  by (intro resp_intros)+

lemma resp_totp [resp_intros]:
  "resp R (save_pending_totp_secret i s)" "resp R (enable_user_totp i s hs)"
  unfolding save_pending_totp_secret_def enable_user_totp_def by (intro resp_intros)+

subsection \<open>The issuer\<close>

lemma resp_refresh_store [resp_intros]:
  "resp R (refresh_set sv tok ident expiry)" "resp R (refresh_get sv tok)"
  "resp R (refresh_delete sv tok)"
  unfolding refresh_set_def refresh_get_def refresh_delete_def by (intro resp_intros)+

lemma stores_refresh_R: "stores_refresh sv ident tok w w' \<Longrightarrow> R w w'"
  unfolding stores_refresh_def
  by (metis quiet trans respD_run resp_refresh_store(1))

lemma resp_issue [resp_intros]: "resp R (sv_issue sv ident)"
proof (rule respI)
  fix w
  show "R w (snd (sv_issue sv ident w))"
  proof (cases "lawful_issuer sv")
    case True
    then have "case sv_issue sv ident w of (Inl _, w') \<Rightarrow> same_tables w w'
      | (Inr pair, w') \<Rightarrow> stores_refresh sv ident (tp_refresh pair) w w'"
      by (simp add: lawful_issuer_def)
    then show ?thesis
      by (auto split: prod.splits sum.splits intro: quiet stores_refresh_R)
  qed (rule unlawful)
qed

lemma resp_rotate [resp_intros]: "resp R (sv_issue_rotate sv ident old)"
proof (rule respI)
  fix w
  show "R w (snd (sv_issue_rotate sv ident old w))"
  proof (cases "lawful_issuer sv")
    case True
    then have "case sv_issue_rotate sv ident old w of
        (Inl _, w') \<Rightarrow> same_tables w w' \<or> (\<exists>refresh. stores_refresh sv ident refresh w w')
      | (Inr pair, w') \<Rightarrow> \<exists>w1 w2. stores_refresh sv ident (tp_refresh pair) w w1 \<and>
          refresh_delete sv old w1 = (Inr (), w2) \<and> same_tables w2 w'"
      by (simp add: lawful_issuer_def)
    then show ?thesis
      by (auto split: prod.splits sum.splits intro: quiet stores_refresh_R)
        (meson quiet respD_run resp_refresh_store(3) stores_refresh_R trans)
  qed (rule unlawful)
qed

lemma resp_issuer [resp_intros]:
  "resp R (validate_refresh sv raw)" "resp R (refresh_with_rotation sv raw)"
  "resp R (revoke_refresh sv raw)" "resp R (authorizer sid uid)"
  unfolding validate_refresh_def refresh_with_rotation_def revoke_refresh_def authorizer_def
  by (intro resp_intros)+

subsection \<open>Random values\<close>

lemma resp_new_token:
  assumes "\<And>raw h. ok_hash h \<Longrightarrow> resp R (f raw h)"
  shows "resp R (bnd (new_session_token sv) (case_prod f))"
proof (rule respI)
  fix w
  show "R w (snd (bnd (new_session_token sv) (case_prod f) w))"
  proof (cases "w_rand w")
    case Nil
    then show ?thesis by (simp add: new_session_token_def run_bnd draw_def refl)
  next
    case (Cons r rs)
    let ?w = "w\<lparr>w_rand := rs\<rparr>"
    have eq: "bnd (new_session_token sv) (case_prod f) w = f r (sv_sha sv r) ?w"
      using Cons by (simp add: new_session_token_def run_bnd draw_def)
    have "R w ?w"
      by (rule quiet) (simp add: Cons same_tables_def suffix_def)
    show ?thesis
    proof (cases "ok_hash (sv_sha sv r)")
      case True
      have "R ?w (snd (f r (sv_sha sv r) ?w))" by (rule respD [OF assms [OF True]])
      with \<open>R w ?w\<close> show ?thesis unfolding eq by (rule trans)
    next
      case False
      with Cons show ?thesis by (intro drawn [of r w]) simp_all
    qed
  qed
qed

lemma resp_mk_token:
  "ok_hash h \<Longrightarrow> resp R (create_auth_token (mk_token uid e p h x))"
  "ok_hash h \<Longrightarrow> resp R (create_auth_token ((mk_token uid e p h x)\<lparr>tok_role := r, tok_invited_by := i\<rparr>))"
  by (simp_all add: create_token mk_token_def)

lemma resp_random [resp_intros]:
  "resp R (hash_password sv pw)" "resp R (unusable_password_hash sv)" "resp R random_index"
  unfolding hash_password_def unusable_password_hash_def random_index_def
  by (intro resp_intros | simp)+

lemma resp_random_chars [resp_intros]: "resp R (random_chars n)"
  by (induction n) (simp_all only: random_chars.simps resp_ret resp_bnd resp_random)

lemma resp_backup_codes [resp_intros]: "resp R (backup_codes sv n)"
  by (induction n) (simp_all only: backup_codes.simps random_backup_code_def resp_ret resp_bnd
      resp_random resp_random_chars)

lemma resp_backup_loop [resp_intros]: "resp R (backup_loop sv uid code i hs)"
  by (induction hs arbitrary: i) (simp_all, (intro resp_intros | assumption | rule impI conjI)+)

subsection \<open>Two-factor operations\<close>

lemma resp_two_factor [resp_intros]:
  "resp R (generate_backup_codes sv)" "resp R (validate_backup_code sv uid rec code)"
  "resp R (verify_two_factor_code sv uid rec code leeway)"
  "resp R (verify_disable_two_factor sv uid rec code)"
  unfolding generate_backup_codes_def validate_backup_code_def verify_two_factor_code_def
    verify_disable_two_factor_def
  by (intro resp_intros)+

lemma resp_enrolment [resp_intros]:
  "resp R (require_user_totp sv uid code)" "resp R (start_two_factor_setup sv uid email)"
  "resp R (confirm_two_factor_setup sv uid code)" "resp R (disable_two_factor sv uid pw code)"
  "resp R (admin_reset_two_factor uid)"
  unfolding require_user_totp_def start_two_factor_setup_def confirm_two_factor_setup_def
    disable_two_factor_def admin_reset_two_factor_def
  by (intro resp_intros)+

subsection \<open>Tokens, invites and settings\<close>

lemma resp_settings [resp_intros]:
  "resp R load_settings" "resp R get_settings" "resp R (update_settings s)"
  "resp R ensure_settings_defaults"
  unfolding load_settings_def get_settings_def update_settings_def ensure_settings_defaults_def
  by (intro resp_intros)+

lemma resp_tokens [resp_intros]:
  "resp R (validate_token sv raw p)" "resp R (consume_token sv raw p)"
  unfolding validate_token_def consume_token_def by (intro resp_intros)+

lemma resp_pending_login [resp_intros]: "resp R (create_pending_login_token sv u)"
  unfolding create_pending_login_token_def
  by (assumption | rule resp_new_token resp_mk_token resp_intros)+

lemma resp_links [resp_intros]:
  "resp R (send_confirm_email sv uid e)" "resp R (issue_change_email_token sv uid e)"
  "resp R (resend_change_email_token sv uid e)"
  "resp R (issue_invite_token sv uid e role by expires)"
  unfolding resend_change_email_token_def send_confirm_email_def issue_change_email_token_def
    issue_invite_token_def send_invite_email_def
  by (assumption | rule resp_new_token resp_mk_token resp_intros)+

lemma resp_invites [resp_intros]:
  "resp R (ensure_invite_stub_user sv e role)" "resp R (create_invite sv e role by expires)"
  "resp R (resend_invite sv i by expires)" "resp R (revoke_invite i)" "resp R (list_pending_invites e)"
  "resp R (load_or_create_invite_user e role h)" "resp R (accept_invite sv raw pw)"
  unfolding resend_invite_def create_invite_def ensure_invite_stub_user_def revoke_invite_def
    list_pending_invites_def load_or_create_invite_user_def accept_invite_def
  by (intro resp_intros)+

subsection \<open>Logins and accounts\<close>

lemma resp_session [resp_intros]:
  "resp R (issue_session sv u sm)" "resp R (issue_login_outcome sv u sm)"
  "resp R (pending_two_factor_outcome sv u b c)" "resp R (reject_if_invite_pending sv u)"
  "resp R (ensure_confirm_email_sent sv u)" "resp R (login_after_password sv u sm)"
  "resp R (login_with_provided_totp sv u code sm)"
  unfolding login_with_provided_totp_def login_after_password_def issue_login_outcome_def
    issue_session_def pending_two_factor_outcome_def reject_if_invite_pending_def
    ensure_confirm_email_sent_def
  by (intro resp_intros)+

lemma resp_login [resp_intros]:
  "resp R (login sv e pw sm)" "resp R (login_with_totp sv e pw code sm)"
  "resp R (verify_login_two_factor sv raw code sm)"
  "resp R (complete_pending_two_factor_setup sv raw code sm)"
  "resp R (user_from_pending_login_token sv raw)" "resp R (logout sv raw)" "resp R (refresh sv raw)"
  "resp R (seed_admin sv e pw)"
  unfolding login_def login_with_totp_def verify_login_two_factor_def
    complete_pending_two_factor_setup_def user_from_pending_login_token_def logout_def refresh_def
    seed_admin_def
  by (intro resp_intros)+

lemma resp_recovery [resp_intros]:
  "resp R (request_password_reset sv e)" "resp R (reset_password sv raw pw)"
  "resp R (change_password sv uid cur new code sm)" "resp R (resend_confirm_email sv uid)"
  "resp R (confirm_email_purpose sv raw p)" "resp R (confirm_email sv raw)"
  "resp R (request_change_email sv uid e pw code)"
  unfolding request_password_reset_def reset_password_def change_password_def
    resend_confirm_email_def confirm_email_def confirm_email_purpose_def request_change_email_def
  by (assumption | rule resp_new_token resp_mk_token resp_intros)+

subsection \<open>Administration\<close>

lemma resp_admin_sessions [resp_intros]:
  "resp R (list_user_sessions uid cur)" "resp R (revoke_user_session uid sid cur)"
  "resp R (admin_list_user_sessions uid)" "resp R (admin_revoke_session sid)"
  "resp R (revoke_all_user_sessions uid)" "resp R (admin_revoke_all_sessions uid)"
  unfolding list_user_sessions_def revoke_user_session_def admin_list_user_sessions_def
    admin_revoke_session_def revoke_all_user_sessions_def admin_revoke_all_sessions_def
  by (intro resp_intros)+

lemma resp_admin [resp_intros]:
  "resp R list_users" "resp R (admin_user_by_id uid)" "resp R (AuthAdmin.create_user sv e pw role)"
  "resp R (guard_last_admin_mutation u patch)" "resp R (admin_change_email sv u e)"
  "resp R (apply_enabled_patch uid b)"
  unfolding admin_user_by_id_def list_users_def pending_invite_emails_def create_user_def
    guard_last_admin_mutation_def admin_change_email_def apply_enabled_patch_def
  by (intro resp_intros)+

lemma resp_admin_update [resp_intros]:
  "resp R (AuthAdmin.update_user sv uid patch)" "resp R (delete_user uid)"
  unfolding AuthAdmin.update_user_def delete_user_def by (intro resp_intros)+

end

end
