(* ===== verification/AuthHistory.thy ===== *)
theory AuthHistory
  imports AuthRules
begin

text \<open>
  The authentication service as a state machine. A \<open>request\<close> is a call of one entry point of
  \<open>auth.Service\<close>; a history is a sequence of requests, each after some delay, on the same tables.
  The two invariants that interpret the contract are here: the constraints of the tables, and the
  fact that a spent token hash stays spent.
\<close>

section \<open>Requests and histories\<close>

datatype request =
    ReqLogin string string session_meta
  | ReqLoginWithTOTP string string string session_meta
  | ReqVerifyLoginTwoFactor string string session_meta
  | ReqCompletePendingTwoFactorSetup string string session_meta
  | ReqUserFromPendingLoginToken string
  | ReqLogout string
  | ReqRefresh string
  | ReqAuthorize string string
  | ReqSeedAdmin string string
  | ReqRequestPasswordReset string
  | ReqResetPassword string string
  | ReqChangePassword string string string string session_meta
  | ReqResendConfirmEmail string
  | ReqConfirmEmail string
  | ReqRequestChangeEmail string string string string
  | ReqCreateInvite string string string int
  | ReqResendInvite string string int
  | ReqRevokeInvite string
  | ReqListPendingInvites string
  | ReqAcceptInvite string string
  | ReqStartTwoFactorSetup string string
  | ReqConfirmTwoFactorSetup string string
  | ReqDisableTwoFactor string string string
  | ReqAdminResetTwoFactor string
  | ReqUpdateSettings auth_settings
  | ReqEnsureSettingsDefaults
  | ReqListUsers
  | ReqCreateUser string string string
  | ReqUpdateUser string user_patch
  | ReqDeleteUser string
  | ReqListUserSessions string string
  | ReqRevokeUserSession string string string
  | ReqAdminRevokeSession string
  | ReqRevokeAllUserSessions string

definition void :: "('s, 'e, 'a) m \<Rightarrow> ('s, 'e, unit) m" where
  "void op = bnd op (\<lambda>_. ret ())"

fun serve :: "service \<Rightarrow> request \<Rightarrow> unit auth_m" where
  "serve sv (ReqLogin e pw sm) = void (login sv e pw sm)"
| "serve sv (ReqLoginWithTOTP e pw code sm) = void (login_with_totp sv e pw code sm)"
| "serve sv (ReqVerifyLoginTwoFactor raw code sm) = void (verify_login_two_factor sv raw code sm)"
| "serve sv (ReqCompletePendingTwoFactorSetup raw code sm) =
     void (complete_pending_two_factor_setup sv raw code sm)"
| "serve sv (ReqUserFromPendingLoginToken raw) = void (user_from_pending_login_token sv raw)"
| "serve sv (ReqLogout raw) = logout sv raw"
| "serve sv (ReqRefresh raw) = void (refresh sv raw)"
| "serve sv (ReqAuthorize sid uid) = void (authorizer sid uid)"
| "serve sv (ReqSeedAdmin e pw) = seed_admin sv e pw"
| "serve sv (ReqRequestPasswordReset e) = request_password_reset sv e"
| "serve sv (ReqResetPassword raw pw) = reset_password sv raw pw"
| "serve sv (ReqChangePassword uid cur new code sm) = void (change_password sv uid cur new code sm)"
| "serve sv (ReqResendConfirmEmail uid) = resend_confirm_email sv uid"
| "serve sv (ReqConfirmEmail raw) = confirm_email sv raw"
| "serve sv (ReqRequestChangeEmail uid e pw code) = request_change_email sv uid e pw code"
| "serve sv (ReqCreateInvite e role inviter ttl) = create_invite sv e role inviter ttl"
| "serve sv (ReqResendInvite i inviter ttl) = resend_invite sv i inviter ttl"
| "serve sv (ReqRevokeInvite i) = revoke_invite i"
| "serve sv (ReqListPendingInvites e) = void (list_pending_invites e)"
| "serve sv (ReqAcceptInvite raw pw) = accept_invite sv raw pw"
| "serve sv (ReqStartTwoFactorSetup uid e) = void (start_two_factor_setup sv uid e)"
| "serve sv (ReqConfirmTwoFactorSetup uid code) = void (confirm_two_factor_setup sv uid code)"
| "serve sv (ReqDisableTwoFactor uid pw code) = disable_two_factor sv uid pw code"
| "serve sv (ReqAdminResetTwoFactor uid) = admin_reset_two_factor uid"
| "serve sv (ReqUpdateSettings s) = void (update_settings s)"
| "serve sv ReqEnsureSettingsDefaults = ensure_settings_defaults"
| "serve sv ReqListUsers = void list_users"
| "serve sv (ReqCreateUser e pw role) = void (create_user sv e pw role)"
| "serve sv (ReqUpdateUser uid patch) = void (update_user sv uid patch)"
| "serve sv (ReqDeleteUser uid) = delete_user uid"
| "serve sv (ReqListUserSessions uid cur) = void (list_user_sessions uid cur)"
| "serve sv (ReqRevokeUserSession uid sid cur) = void (revoke_user_session uid sid cur)"
| "serve sv (ReqAdminRevokeSession sid) = admin_revoke_session sid"
| "serve sv (ReqRevokeAllUserSessions uid) = revoke_all_user_sessions uid"

definition pass_time :: "nat \<Rightarrow> auth_world \<Rightarrow> auth_world" where
  "pass_time d w = w\<lparr>w_now := w_now w + int d\<rparr>"

fun history :: "service \<Rightarrow> (nat \<times> request) list \<Rightarrow> auth_world \<Rightarrow> auth_world" where
  "history sv [] w = w"
| "history sv ((d, r) # rs) w = history sv rs (snd (serve sv r (pass_time d w)))"

section \<open>The contract over histories\<close>

locale auth_history = auth_contract +
  assumes clock: "R w (w\<lparr>w_now := n\<rparr>)"
begin

lemma resp_void: "resp R op \<Longrightarrow> resp R (void op)"
  unfolding void_def by (intro resp_intros)

lemma resp_serve: "resp R (serve sv req)"
  by (cases req) (simp_all only: serve.simps, (rule resp_void resp_intros)+)

lemma history_R: "R w (history sv rs w)"
proof (induction rs arbitrary: w)
  case Nil
  show ?case by (simp add: refl)
next
  case (Cons x rs)
  obtain d r where x: "x = (d, r)" by fastforce
  have "R w (pass_time d w)" by (simp add: pass_time_def clock)
  moreover have "R (pass_time d w) (snd (serve sv r (pass_time d w)))"
    by (rule respD [OF resp_serve])
  ultimately show ?case
    using Cons [of "snd (serve sv r (pass_time d w))"] by (simp add: x) (meson trans)
qed

end

section \<open>The constraints of the tables\<close>

definition users_ok :: "user_row list \<Rightarrow> bool" where
  "users_ok us \<longleftrightarrow> distinct (map ur_id us) \<and> distinct (map ur_email us) \<and>
     (\<forall>r \<in> set us. valid_role (ur_role r))"

definition tokens_ok :: "string set \<Rightarrow> token list \<Rightarrow> bool" where
  "tokens_ok ids ts \<longleftrightarrow> distinct (map tok_id ts) \<and> distinct (map tok_hash ts) \<and>
     (\<forall>t \<in> set ts. (tok_user t = [] \<or> tok_user t \<in> ids) \<and>
        (tok_role t = [] \<or> tok_role t = RoleAdmin \<or> tok_role t = RoleUser))"

definition sessions_ok :: "string set \<Rightarrow> session_record list \<Rightarrow> bool" where
  "sessions_ok ids ss \<longleftrightarrow> distinct (map ses_id ss) \<and> distinct (map ses_hash ss) \<and>
     (\<forall>s \<in> set ss. ses_user s \<in> ids)"

definition totps_ok :: "string set \<Rightarrow> totp_row list \<Rightarrow> bool" where
  "totps_ok ids ts \<longleftrightarrow> distinct (map tr_user ts) \<and> (\<forall>t \<in> set ts. tr_user t \<in> ids)"

definition user_ids :: "auth_world \<Rightarrow> string set" where
  "user_ids w = ur_id ` set (users w)"

definition tables_ok :: "auth_world \<Rightarrow> bool" where
  "tables_ok w \<longleftrightarrow> users_ok (users w) \<and> tokens_ok (user_ids w) (tokens w) \<and>
     sessions_ok (user_ids w) (sessions w) \<and> totps_ok (user_ids w) (totps w)"

lemma user_ids_simps [simp]:
  "user_ids (w\<lparr>w_faults := fs\<rparr>) = user_ids w" "user_ids (w\<lparr>w_rand := rs\<rparr>) = user_ids w"
  "user_ids (w\<lparr>w_now := n\<rparr>) = user_ids w" "user_ids (w\<lparr>tokens := ts\<rparr>) = user_ids w"
  "user_ids (w\<lparr>sessions := ss\<rparr>) = user_ids w" "user_ids (w\<lparr>totps := tt\<rparr>) = user_ids w"
  "user_ids (w\<lparr>settings := st\<rparr>) = user_ids w" "user_ids (w\<lparr>outbox := ob\<rparr>) = user_ids w"
  by (simp_all add: user_ids_def)

lemma user_ids_iff: "i \<in> user_ids w \<longleftrightarrow> (\<exists>r \<in> set (users w). ur_id r = i)"
  by (auto simp: user_ids_def)

lemma user_ids_users [simp]:
  "user_ids (w\<lparr>users := delete_where (\<lambda>r. ur_id r = i) (users w)\<rparr>) = user_ids w - {i}"
  by (auto simp: user_ids_def)

lemma image_update_where:
  "(\<And>x. g (f x) = g x) \<Longrightarrow> g ` set (update_where P f xs) = g ` set xs"
  by (metis map_update_where list.set_map)

lemma update_where_all:
  "(\<And>x. x \<in> set xs \<Longrightarrow> Q x) \<Longrightarrow> (\<And>x. Q x \<Longrightarrow> Q (f x)) \<Longrightarrow> y \<in> set (update_where P f xs) \<Longrightarrow> Q y"
  by (auto simp: set_update_where)

lemma user_ids_set_users [simp]: "(\<And>r. ur_id (f r) = ur_id r) \<Longrightarrow> user_ids (set_users i f w) = user_ids w"
  by (simp add: user_ids_def set_users_def image_update_where)

text \<open>One row of a table with a unique key gets a new value in another unique column.\<close>

lemma distinct_update_row:
  assumes "distinct (map k xs)" and "distinct (map g xs)" and "\<And>x. g (f x) = v"
    and "\<And>x. x \<in> set xs \<Longrightarrow> k x \<noteq> i \<Longrightarrow> g x \<noteq> v"
  shows "distinct (map g (update_where (\<lambda>x. k x = i) f xs))"
  using assms
proof (induction xs)
  case Nil
  then show ?case by (simp add: update_where_def)
next
  case (Cons a xs)
  then have IH: "distinct (map g (update_where (\<lambda>x. k x = i) f xs))" by simp
  show ?case
  proof (cases "k a = i")
    case True
    then have others: "\<forall>x \<in> set xs. k x \<noteq> i"
      using Cons.prems(1) by (auto simp: image_iff)
    then have "update_where (\<lambda>x. k x = i) f xs = xs"
      by (auto simp: update_where_def intro!: map_idI)
    moreover have "v \<notin> g ` set xs"
      using others Cons.prems(4) by auto
    moreover have "update_where (\<lambda>x. k x = i) f (a # xs) = f a # update_where (\<lambda>x. k x = i) f xs"
      using True by (simp add: update_where_def)
    ultimately show ?thesis
      using Cons.prems(2,3) by simp
  next
    case False
    then have "g a \<notin> g ` set (update_where (\<lambda>x. k x = i) f xs)"
      using Cons.prems(2,3) Cons.prems(4) [of a] by (auto simp: set_update_where)
    moreover have "update_where (\<lambda>x. k x = i) f (a # xs) = a # update_where (\<lambda>x. k x = i) f xs"
      using False by (simp add: update_where_def)
    ultimately show ?thesis using IH by simp
  qed
qed

subsection \<open>Each statement keeps them\<close>

lemma keeps_io:
  assumes "\<And>w fs. I (w\<lparr>w_faults := fs\<rparr>) = I w" and "\<And>w. I w \<Longrightarrow> I (snd (f w))"
  shows "resp (keeps I) (io_call e f)"
  by (rule respI) (auto simp: keeps_def io_call_def Let_def assms)

lemma tables_ok_env [simp]:
  "tables_ok (w\<lparr>w_faults := fs\<rparr>) = tables_ok w" "tables_ok (w\<lparr>w_rand := rs\<rparr>) = tables_ok w"
  "tables_ok (w\<lparr>w_now := n\<rparr>) = tables_ok w" "tables_ok (w\<lparr>settings := st\<rparr>) = tables_ok w"
  "tables_ok (w\<lparr>outbox := ob\<rparr>) = tables_ok w"
  by (simp_all add: tables_ok_def)

lemma tables_ok_same: "same_tables w w' \<Longrightarrow> tables_ok w' = tables_ok w"
  by (simp add: tables_ok_def same_tables_def user_ids_def)

lemma tables_ok_set_users:
  assumes "tables_ok w" and "\<And>r. ur_id (f r) = ur_id r" and "\<And>r. ur_email (f r) = ur_email r"
    and "\<And>r. valid_role (ur_role r) \<Longrightarrow> valid_role (ur_role (f r))"
  shows "tables_ok (set_users i f w)"
proof -
  have "users_ok (users (set_users i f w))"
    using assms by (auto simp: tables_ok_def users_ok_def set_users_def map_update_where set_update_where)
  then show ?thesis
    using assms by (simp add: tables_ok_def) (simp add: set_users_def)
qed

lemmas keeps_tables = keeps_io [of tables_ok, OF tables_ok_env(1)]

lemma keeps_user_writes:
  "resp (keeps tables_ok) (update_last_login i at)"
  "resp (keeps tables_ok) (update_password_hash i h must)"
  "resp (keeps tables_ok) (enable_user i mark)"
  "resp (keeps tables_ok) (clear_email_verified i)"
  unfolding update_last_login_def update_password_hash_def enable_user_def clear_email_verified_def db_def
  by (rule keeps_tables, simp add: tables_ok_set_users)+

lemma keeps_create_user: "resp (keeps tables_ok) (store_create_user u h)"
  unfolding store_create_user_def db_def
  by (rule keeps_tables)
    (auto simp: run_bnd draw_def tables_ok_def users_ok_def tokens_ok_def sessions_ok_def totps_ok_def
      user_ids_def split: list.splits)

lemma keeps_user_roles:
  "resp (keeps tables_ok) (db (modify (set_users i (\<lambda>r. r\<lparr>ur_enabled := b\<rparr>))))"
  "resp (keeps tables_ok) (db (\<lambda>w. if valid_role role \<or> (\<forall>r \<in> set (users w). ur_id r \<noteq> i)
     then (Inr (), set_users i (\<lambda>r. r\<lparr>ur_role := role\<rparr>) w) else (Inl ErrConstraint, w)))"
proof -
  show "resp (keeps tables_ok) (db (modify (set_users i (\<lambda>r. r\<lparr>ur_enabled := b\<rparr>))))"
    unfolding db_def by (rule keeps_tables) (simp add: tables_ok_set_users)
  have "set_users i f w = w" if "\<forall>r \<in> set (users w). ur_id r \<noteq> i" for f w
  proof -
    have "update_where (\<lambda>r. ur_id r = i) f (users w) = users w"
      using that by (auto simp: update_where_def intro!: map_idI)
    then show ?thesis by (simp add: set_users_def)
  qed
  then show "resp (keeps tables_ok) (db (\<lambda>w. if valid_role role \<or> (\<forall>r \<in> set (users w). ur_id r \<noteq> i)
     then (Inr (), set_users i (\<lambda>r. r\<lparr>ur_role := role\<rparr>) w) else (Inl ErrConstraint, w)))"
    unfolding db_def by (intro keeps_tables) (auto simp: tables_ok_set_users)
qed

lemma keeps_update_user: "resp (keeps tables_ok) (store_update_user i patch)"
  unfolding store_update_user_def by (intro resp_intros keeps_user_roles)

lemma keeps_user_email: "resp (keeps tables_ok) (update_user_email i email clear)"
  unfolding update_user_email_def db_def
proof (rule keeps_tables)
  fix w
  assume ok: "tables_ok w"
  let ?f = "\<lambda>r. r\<lparr>ur_email := email, ur_verified_at := (if clear then None else ur_verified_at r)\<rparr>"
  have "tables_ok (set_users i ?f w)"
    if c: "\<not> ((\<exists>r \<in> set (users w). ur_id r = i) \<and> (\<exists>r \<in> set (users w). ur_id r \<noteq> i \<and> ur_email r = email))"
  proof -
    have "distinct (map ur_email (update_where (\<lambda>r. ur_id r = i) ?f (users w)))"
    proof (cases "\<exists>r \<in> set (users w). ur_id r = i")
      case True
      with c ok show ?thesis
        by (intro distinct_update_row [where v = email]) (auto simp: tables_ok_def users_ok_def)
    next
      case False
      then have "update_where (\<lambda>r. ur_id r = i) ?f (users w) = users w"
        by (auto simp: update_where_def intro!: map_idI)
      with ok show ?thesis by (simp add: tables_ok_def users_ok_def)
    qed
    moreover have "\<forall>r \<in> set (update_where (\<lambda>r. ur_id r = i) ?f (users w)). valid_role (ur_role r)"
      using ok by (auto simp: tables_ok_def users_ok_def set_update_where)
    ultimately have "users_ok (users (set_users i ?f w))"
      using ok by (simp add: tables_ok_def users_ok_def set_users_def map_update_where)
    then show ?thesis using ok by (simp add: tables_ok_def) (simp add: set_users_def)
  qed
  note that = this
  show "tables_ok (snd (if (\<exists>r \<in> set (users w). ur_id r = i) \<and>
      (\<exists>r \<in> set (users w). ur_id r \<noteq> i \<and> ur_email r = email)
     then (Inl ErrConstraint, w) else (Inr (), set_users i ?f w)))" (is "tables_ok (snd (if ?C then _ else _))")
  proof (cases ?C)
    case True
    show ?thesis unfolding if_P [OF True] using ok by simp
  next
    case False
    show ?thesis unfolding if_not_P [OF False] snd_conv by (rule that [OF False])
  qed
qed

text \<open>The cascade of a deleted user.\<close>

lemma delete_user_tables:
  "users_ok us \<Longrightarrow> users_ok (delete_where P us)"
  "tokens_ok ids ts \<Longrightarrow> tokens_ok (ids - {i}) (update_where Q (\<lambda>t. t\<lparr>tok_invited_by := v\<rparr>)
     (delete_where (\<lambda>t. tok_user t = i) ts))"
  "sessions_ok ids ss \<Longrightarrow> sessions_ok (ids - {i}) (delete_where (\<lambda>s. ses_user s = i) ss)"
  "totps_ok ids tt \<Longrightarrow> totps_ok (ids - {i}) (delete_where (\<lambda>t. tr_user t = i) tt)"
  by (auto simp: users_ok_def tokens_ok_def sessions_ok_def totps_ok_def map_update_where
      distinct_map_delete_where set_update_where)

lemma keeps_remove_user: "resp (keeps tables_ok) (store_delete_user i)"
  unfolding store_delete_user_def db_def
  by (rule keeps_tables) (simp_all add: tables_ok_def delete_user_tables)

lemma keeps_settings_mail:
  "resp (keeps tables_ok) (store_save_settings s)" "resp (keeps tables_ok) (send_mail e subj link)"
  unfolding store_save_settings_def send_mail_def db_def by (rule keeps_tables, simp)+

lemma keeps_tokens:
  "resp (keeps tables_ok) (create_auth_token t)" "resp (keeps tables_ok) (mark_auth_token_used i)"
  "resp (keeps tables_ok) (invalidate_unused_tokens e p)"
  unfolding create_auth_token_def mark_auth_token_used_def invalidate_unused_tokens_def db_def
  by (rule keeps_tables, auto simp: run_bnd draw_def tables_ok_def tokens_ok_def map_update_where
      set_update_where user_ids_iff split: list.splits)+

lemma keeps_sessions:
  "resp (keeps tables_ok) (create_session i uid h expiry sm)"
  "resp (keeps tables_ok) (delete_sessions P)"
  unfolding create_session_def delete_sessions_def db_def
  by (rule keeps_tables, auto simp: tables_ok_def sessions_ok_def distinct_map_delete_where user_ids_iff)+

lemma keeps_move_session: "resp (keeps tables_ok) (update_session_refresh_token i h expiry)"
  unfolding update_session_refresh_token_def db_def
  by (rule keeps_tables) (auto simp: tables_ok_def sessions_ok_def map_update_where set_update_where
      intro!: distinct_update_row [where v = h])

lemma totps_ok_put:
  assumes "totps_ok ids ts" and "tr_user tr \<in> ids"
  shows "totps_ok ids (update_where (\<lambda>x. tr_user x = tr_user tr) (\<lambda>_. tr) ts)"
    and "\<forall>x \<in> set ts. tr_user x \<noteq> tr_user tr \<Longrightarrow> totps_ok ids (ts @ [tr])"
proof -
  have "distinct (map tr_user (update_where (\<lambda>x. tr_user x = tr_user tr) (\<lambda>_. tr) ts))"
    using assms by (intro distinct_update_row [where v = "tr_user tr"]) (auto simp: totps_ok_def)
  then show "totps_ok ids (update_where (\<lambda>x. tr_user x = tr_user tr) (\<lambda>_. tr) ts)"
    using assms by (auto simp: totps_ok_def set_update_where)
qed (use assms in \<open>auto simp: totps_ok_def\<close>)

lemma keeps_totps:
  "resp (keeps tables_ok) (upsert_totp tr)" "resp (keeps tables_ok) (delete_user_totp i)"
proof -
  show "resp (keeps tables_ok) (delete_user_totp i)"
    unfolding delete_user_totp_def db_def
    by (rule keeps_tables) (auto simp: tables_ok_def totps_ok_def distinct_map_delete_where)
  show "resp (keeps tables_ok) (upsert_totp tr)"
    unfolding upsert_totp_def db_def
    by (rule keeps_tables) (auto simp: tables_ok_def totps_ok_put user_ids_iff)
qed

lemma keeps_backup: "resp (keeps tables_ok) (consume_backup_code i n)"
proof -
  have "resp (keeps tables_ok) (get_user_totp i)"
    unfolding get_user_totp_def db_def by (rule keeps_tables) (simp split: option.splits)
  moreover have "resp (keeps tables_ok) (db (modify (\<lambda>w. w\<lparr>totps := update_where (\<lambda>t. tr_user t = i)
       (\<lambda>t. t\<lparr>tr_backup := bs\<rparr>) (totps w)\<rparr>)))" for bs
    unfolding db_def
    by (rule keeps_tables) (auto simp: tables_ok_def totps_ok_def map_update_where set_update_where)
  ultimately show ?thesis
    unfolding consume_backup_code_def by (intro resp_intros)
qed

section \<open>Spent tokens\<close>

text \<open>No unused token has the hash, and no random value left in the supply hashes to it.\<close>

definition spent :: "service \<Rightarrow> string \<Rightarrow> auth_world \<Rightarrow> bool" where
  "spent sv h w \<longleftrightarrow> (\<forall>t \<in> set (tokens w). tok_hash t = h \<longrightarrow> tok_used t \<noteq> None) \<and>
     (\<forall>r \<in> set (w_rand w). sv_sha sv r \<noteq> h)"

lemma spent_env [simp]:
  "spent sv h (w\<lparr>w_faults := fs\<rparr>) = spent sv h w" "spent sv h (w\<lparr>w_now := n\<rparr>) = spent sv h w"
  "spent sv h (w\<lparr>settings := st\<rparr>) = spent sv h w" "spent sv h (w\<lparr>outbox := ob\<rparr>) = spent sv h w"
  "spent sv h (w\<lparr>users := us\<rparr>) = spent sv h w" "spent sv h (w\<lparr>sessions := ss\<rparr>) = spent sv h w"
  "spent sv h (w\<lparr>totps := tt\<rparr>) = spent sv h w" "spent sv h (set_users i f w) = spent sv h w"
  by (simp_all add: spent_def set_users_def)

lemma spent_rand: "spent sv h w \<Longrightarrow> w_rand w = r # rs \<Longrightarrow> spent sv h (w\<lparr>w_rand := rs\<rparr>)"
  by (simp add: spent_def)

lemmas keeps_spent = keeps_io [of "spent sv h" for sv h, OF spent_env(1)]

lemma spent_user_writes:
  "resp (keeps (spent sv h)) (update_last_login i at)"
  "resp (keeps (spent sv h)) (update_password_hash i k must)"
  "resp (keeps (spent sv h)) (enable_user i mark)"
  "resp (keeps (spent sv h)) (clear_email_verified i)"
  "resp (keeps (spent sv h)) (update_user_email i email clear)"
  "resp (keeps (spent sv h)) (store_save_settings s)"
  "resp (keeps (spent sv h)) (send_mail e subj link)"
  "resp (keeps (spent sv h)) (create_session i uid k expiry sm)"
  "resp (keeps (spent sv h)) (update_session_refresh_token i k expiry)"
  "resp (keeps (spent sv h)) (delete_sessions P)"
  "resp (keeps (spent sv h)) (upsert_totp tr)"
  "resp (keeps (spent sv h)) (delete_user_totp i)"
  unfolding update_last_login_def update_password_hash_def enable_user_def clear_email_verified_def
    update_user_email_def store_save_settings_def send_mail_def create_session_def
    update_session_refresh_token_def delete_sessions_def upsert_totp_def delete_user_totp_def db_def
  by (rule keeps_spent, simp)+

lemma spent_token_writes:
  "resp (keeps (spent sv h)) (mark_auth_token_used i)"
  "resp (keeps (spent sv h)) (invalidate_unused_tokens e p)"
  "tok_hash t \<noteq> h \<Longrightarrow> resp (keeps (spent sv h)) (create_auth_token t)"
  unfolding mark_auth_token_used_def invalidate_unused_tokens_def create_auth_token_def db_def
  by (rule keeps_spent, auto simp: spent_def set_update_where run_bnd draw_def split: list.splits)+

lemma spent_user_patches:
  "resp (keeps (spent sv h)) (db (modify (set_users i f)))"
  "resp (keeps (spent sv h)) (db (\<lambda>w. if P w then (Inr (), set_users i f w) else (Inl ErrConstraint, w)))"
  "resp (keeps (spent sv h)) (db (modify (\<lambda>w. w\<lparr>totps := g w\<rparr>)))"
  "resp (keeps (spent sv h)) (get_user_totp i)"
  unfolding get_user_totp_def db_def by (rule keeps_spent, simp split: option.splits)+

lemma spent_accounts:
  "resp (keeps (spent sv h)) (store_create_user u k)"
  "resp (keeps (spent sv h)) (store_delete_user i)"
  "resp (keeps (spent sv h)) (store_update_user i patch)"
  "resp (keeps (spent sv h)) (consume_backup_code i n)"
proof -
  show "resp (keeps (spent sv h)) (store_create_user u k)" "resp (keeps (spent sv h)) (store_delete_user i)"
    unfolding store_create_user_def store_delete_user_def db_def
    by (rule keeps_spent, auto simp: spent_def set_update_where run_bnd draw_def split: list.splits)+
  show "resp (keeps (spent sv h)) (store_update_user i patch)"
    "resp (keeps (spent sv h)) (consume_backup_code i n)"
    unfolding store_update_user_def consume_backup_code_def
    by (intro resp_intros spent_user_patches)+
qed

section \<open>The two instances of the contract\<close>

definition legally :: "service \<Rightarrow> (auth_world \<Rightarrow> bool) \<Rightarrow> auth_world \<Rightarrow> bool" where
  "legally sv I w \<longleftrightarrow> (lawful_issuer sv \<longrightarrow> I w)"

lemma legally_resp: "resp (keeps I) m \<Longrightarrow> resp (keeps (legally sv I)) m"
  by (auto simp: resp_def keeps_def legally_def)

lemmas tables_keeps = keeps_user_writes keeps_create_user keeps_update_user keeps_user_email
  keeps_remove_user keeps_settings_mail keeps_tokens keeps_sessions keeps_move_session keeps_totps
  keeps_backup

lemmas spent_keeps = spent_user_writes spent_token_writes spent_accounts

lemma spent_same: "same_tables w w' \<Longrightarrow> spent sv h w \<Longrightarrow> spent sv h w'"
  by (auto simp: spent_def same_tables_def dest: set_mono_suffix)

interpretation tables: auth_history "keeps (legally sv tables_ok)" sv "\<lambda>_. True" for sv
  by unfold_locales
    (auto intro: tables_keeps legally_resp simp: keeps_def legally_def tables_ok_same)

interpretation used_up: auth_history "keeps (legally sv (spent sv h))" sv "\<lambda>k. k \<noteq> h" for sv h
  by unfold_locales
    (auto intro: spent_keeps legally_resp spent_same simp: keeps_def legally_def, auto simp: spent_def)

lemma tables_ok_history:
  "lawful_issuer sv \<Longrightarrow> tables_ok w \<Longrightarrow> tables_ok (history sv rs w)"
  using tables.history_R [of sv w rs] by (simp add: keeps_def legally_def)

lemma spent_history:
  "lawful_issuer sv \<Longrightarrow> spent sv h w \<Longrightarrow> spent sv h (history sv rs w)"
  using used_up.history_R [of sv h w rs] by (simp add: keeps_def legally_def)

end
