(* ===== verification/AuthSteps.thy ===== *)
theory AuthSteps
  imports AuthHistory
begin

text \<open>
  Inversion of the store's statements and of the service's helpers: what a successful run says of
  the tables before it and what it leaves. The properties of accounts, sessions and two-factor
  codes are read off these rules.
\<close>

section \<open>Statements\<close>

lemma db_InrE:
  assumes "db f w = (Inr x, w')"
  obtains fs where "f (w\<lparr>w_faults := fs\<rparr>) = (Inr x, w')" and "w_faults w = [] \<Longrightarrow> fs = []"
  using assms unfolding db_def by (auto elim!: io_call_InrE)

lemma db_modify_InrE:
  assumes "db (modify f) w = (Inr x, w')"
  obtains fs where "w' = f (w\<lparr>w_faults := fs\<rparr>)" and "w_faults w = [] \<Longrightarrow> fs = []"
  using assms by (elim db_InrE) auto

lemma db_gets_InrE:
  assumes "db (gets f) w = (Inr x, w')"
  obtains fs where "w' = w\<lparr>w_faults := fs\<rparr>" and "x = f w'" and "w_faults w = [] \<Longrightarrow> fs = []"
  using assms by (elim db_InrE) auto

lemma find_user_InrE:
  assumes "find_user P b w = (Inr x, w')"
  obtains r fs where "find P (users w) = Some r" and "r \<in> set (users w)" and "P r"
    and "x = (user_from_model r, if b then ur_hash r else [])" and "w' = w\<lparr>w_faults := fs\<rparr>"
    and "w_faults w = [] \<Longrightarrow> fs = []"
  using assms unfolding find_user_def
  by (elim db_InrE) (auto split: option.splits dest: find_SomeD)

lemma get_user_by_id_InrE:
  assumes "get_user_by_id i w = (Inr u, w')"
  obtains r fs where "r \<in> set (users w)" and "ur_id r = i" and "u = user_from_model r"
    and "w' = w\<lparr>w_faults := fs\<rparr>" and "w_faults w = [] \<Longrightarrow> fs = []"
  using assms unfolding get_user_by_id_def
  by (auto elim!: run_elims find_user_InrE)

lemma user_from_model_simps [simp]:
  "usr_id (user_from_model r) = ur_id r" "usr_email (user_from_model r) = ur_email r"
  "usr_role (user_from_model r) = ur_role r" "usr_enabled (user_from_model r) = ur_enabled r"
  "usr_verified_at (user_from_model r) = ur_verified_at r"
  "usr_must_change (user_from_model r) = ur_must_change r"
  by (simp_all add: user_from_model_def)

lemma hash_password_InrE:
  assumes "hash_password sv pw w = (Inr h, w')"
  obtains salt rs where "w_rand w = salt # rs" and "sv_bcrypt sv salt pw = Some h"
    and "w' = w\<lparr>w_rand := rs\<rparr>"
  using assms unfolding hash_password_def
  by (auto elim!: run_elims draw_InrE split: option.splits)

lemma new_session_token_InrE:
  assumes "new_session_token sv w = (Inr x, w')"
  obtains raw rs where "w_rand w = raw # rs" and "x = (raw, sv_sha sv raw)" and "w' = w\<lparr>w_rand := rs\<rparr>"
  using assms unfolding new_session_token_def by (auto elim!: run_elims draw_InrE)

lemma load_settings_cases:
  obtains st fs where "load_settings w = (Inr st, w\<lparr>w_faults := fs\<rparr>)"
    and "w_faults w = [] \<Longrightarrow> fs = []"
    and "\<And>st0. w_faults w = [] \<Longrightarrow> settings w = Some st0 \<Longrightarrow> st = st0"
proof -
  let ?w = "w\<lparr>w_faults := tl (w_faults w)\<rparr>"
  show thesis
  proof (cases "fault_next (w_faults w) \<or> settings w = None")
    case True
    then have "load_settings w = (Inr default_settings, ?w)"
      by (auto simp: load_settings_def store_get_settings_def db_def io_call_def Let_def run_bnd
          split: option.splits)
    moreover have "w_faults w = [] \<Longrightarrow> settings w = None"
      using True by (auto simp: fault_next_def)
    ultimately show ?thesis by (intro that [of default_settings "tl (w_faults w)"]) auto
  next
    case False
    then obtain st where "settings w = Some st" by auto
    with False have "load_settings w = (Inr st, ?w)"
      by (simp add: load_settings_def store_get_settings_def db_def io_call_def Let_def run_bnd)
    then show ?thesis
      using \<open>settings w = Some st\<close> by (intro that [of st "tl (w_faults w)"]) auto
  qed
qed

section \<open>One-time tokens\<close>

lemma validate_token_InrE:
  assumes "validate_token sv raw p w = (Inr t, w')"
  obtains fs where "t \<in> set (tokens w)" and "tok_hash t = sv_sha sv raw" and "tok_purpose t = p"
    and "tok_used t = None" and "w_now w \<le> tok_expires t" and "w' = w\<lparr>w_faults := fs\<rparr>"
    and "w_faults w = [] \<Longrightarrow> fs = []"
  using assms unfolding validate_token_def get_auth_token_by_hash_def
  by (auto elim!: run_elims db_InrE split: if_splits option.splits dest!: find_SomeD)

text \<open>A spent token is refused: either it is not there any more or it is marked as used.\<close>

lemma validate_token_spent:
  assumes "spent sv (sv_sha sv raw) w"
  shows "fst (validate_token sv raw p w) \<in> {Inl ErrInvalidToken, Inl ErrTokenUsed}"
proof (cases "trim_space raw = [] \<or> fault_next (w_faults w)")
  case True
  then show ?thesis
    by (auto simp: validate_token_def get_auth_token_by_hash_def db_def io_call_def Let_def
        run_bnd run_on_err)
next
  case False
  let ?f = "find (\<lambda>t. tok_hash t = sv_sha sv raw \<and> tok_purpose t = p) (tokens w)"
  show ?thesis
  proof (cases ?f)
    case None
    with False show ?thesis
      by (simp add: validate_token_def get_auth_token_by_hash_def db_def io_call_def Let_def
          run_bnd run_on_err)
  next
    case (Some t)
    then have "tok_used t \<noteq> None"
      using assms by (auto simp: spent_def dest!: find_SomeD)
    with Some False show ?thesis
      by (simp add: validate_token_def get_auth_token_by_hash_def db_def io_call_def Let_def
          run_bnd run_on_err)
  qed
qed

lemma mark_used_spent:
  assumes "tables_ok w" and "t \<in> set (tokens w)"
    and "tokens w' = update_where (\<lambda>t'. tok_id t' = tok_id t) (\<lambda>t'. t'\<lparr>tok_used := Some n\<rparr>) (tokens w)"
    and "\<forall>r \<in> set (w_rand w'). sv_sha sv r \<noteq> tok_hash t"
  shows "spent sv (tok_hash t) w'"
proof -
  have "t' = t" if "t' \<in> set (tokens w)" "tok_hash t' = tok_hash t" for t'
    using that assms(1,2) by (auto simp: tables_ok_def tokens_ok_def distinct_map inj_on_def)
  then show ?thesis
    using assms(3,4) by (auto simp: spent_def set_update_where)
qed

section \<open>Issuing a session\<close>

lemma same_tables_fields:
  assumes "same_tables w w'"
  shows "users w' = users w" "tokens w' = tokens w" "sessions w' = sessions w" "totps w' = totps w"
    "settings w' = settings w" "outbox w' = outbox w" "w_now w' = w_now w"
  using assms by (simp_all add: same_tables_def)

text \<open>What storing a refresh token leaves: one row with the hash of the token, for this session id,
  and every other session as it was.\<close>

lemma refresh_set_stores:
  assumes "refresh_set sv tok ident expiry w = (Inr (), w')"
  shows "users w' = users w" and "tokens w' = tokens w" and "totps w' = totps w"
    and "\<exists>s \<in> set (sessions w'). ses_id s = sid_session ident \<and> ses_hash s = sv_sha sv tok \<and>
      ses_expires s = expiry"
    and "filter (\<lambda>s. ses_id s \<noteq> sid_session ident) (sessions w') =
      filter (\<lambda>s. ses_id s \<noteq> sid_session ident) (sessions w)"
    and "\<forall>s \<in> set (sessions w'). ses_id s = sid_session ident \<longrightarrow> ses_hash s = sv_sha sv tok"
proof -
  have all: "users w' = users w \<and> tokens w' = tokens w \<and> totps w' = totps w \<and>
      (\<exists>s \<in> set (sessions w'). ses_id s = sid_session ident \<and> ses_hash s = sv_sha sv tok \<and>
        ses_expires s = expiry) \<and>
      filter (\<lambda>s. ses_id s \<noteq> sid_session ident) (sessions w') =
        filter (\<lambda>s. ses_id s \<noteq> sid_session ident) (sessions w) \<and>
      (\<forall>s \<in> set (sessions w'). ses_id s = sid_session ident \<longrightarrow> ses_hash s = sv_sha sv tok)"
    using assms
  proof (cases rule: refresh_set_InrE)
    case (update s)
    let ?ss = "update_where (\<lambda>s. ses_id s = sid_session ident)
          (\<lambda>s. s\<lparr>ses_hash := sv_sha sv tok, ses_expires := expiry\<rparr>) (sessions w)"
    have "filter (\<lambda>s. ses_id s \<noteq> sid_session ident) ?ss =
        filter (\<lambda>s. ses_id s \<noteq> sid_session ident) (sessions w)"
      by (rule filter_update_where) simp
    moreover have "s\<lparr>ses_hash := sv_sha sv tok, ses_expires := expiry\<rparr> \<in> set ?ss"
      using update(1,2) by (force simp: set_update_where)
    moreover have "\<forall>s \<in> set ?ss. ses_id s = sid_session ident \<longrightarrow> ses_hash s = sv_sha sv tok"
      by (auto simp: set_update_where)
    moreover have "sessions w' = ?ss" "users w' = users w" "tokens w' = tokens w" "totps w' = totps w"
      using update(4) by (simp_all add: same_tables_def)
    ultimately show ?thesis
      using update(2) by (auto intro!: bexI [of _ "s\<lparr>ses_hash := sv_sha sv tok, ses_expires := expiry\<rparr>"])
  next
    case (create r)
    then show ?thesis by (auto simp: same_tables_def)
  qed
  then show "users w' = users w" and "tokens w' = tokens w" and "totps w' = totps w"
    and "\<exists>s \<in> set (sessions w'). ses_id s = sid_session ident \<and> ses_hash s = sv_sha sv tok \<and>
      ses_expires s = expiry"
    and "filter (\<lambda>s. ses_id s \<noteq> sid_session ident) (sessions w') =
      filter (\<lambda>s. ses_id s \<noteq> sid_session ident) (sessions w)"
    and "\<forall>s \<in> set (sessions w'). ses_id s = sid_session ident \<longrightarrow> ses_hash s = sv_sha sv tok"
    by blast+
qed

lemma issue_session_InrE:
  assumes "lawful_issuer sv" and "issue_session sv u sm w = (Inr (p, pair), w')"
  obtains sid rs where "w_rand w = sid # rs" and "p = public_of u" and "tokens w' = tokens w"
    and "totps w' = totps w"
    and "users w' = update_where (\<lambda>r. ur_id r = usr_id u) (\<lambda>r. r\<lparr>ur_last_login := Some (w_now w)\<rparr>) (users w)"
    and "\<exists>s \<in> set (sessions w'). ses_id s = sid \<and> ses_hash s = sv_sha sv (tp_refresh pair)"
    and "filter (\<lambda>s. ses_id s \<noteq> sid) (sessions w') = filter (\<lambda>s. ses_id s \<noteq> sid) (sessions w)"
    and "\<forall>s \<in> set (sessions w'). ses_id s = sid \<longrightarrow> ses_hash s = sv_sha sv (tp_refresh pair)"
proof -
  let ?ident = "\<lambda>sid. \<lparr>sid_session = sid, sid_user_id = usr_id u, sid_user = public_of u, sid_meta = sm\<rparr>"
  from assms(2) obtain sid rs w1 where sid: "w_rand w = sid # rs" and p: "p = public_of u"
    and i: "sv_issue sv (?ident sid) (w\<lparr>w_rand := rs\<rparr>) = (Inr pair, w1)"
    and l: "update_last_login (usr_id u) (w_now w1) w1 = (Inr (), w')"
    unfolding issue_session_def by (elim run_elims draw_InrE) (auto elim!: run_elims)
  have "case sv_issue sv (?ident sid) (w\<lparr>w_rand := rs\<rparr>) of (Inl _, w') \<Rightarrow> same_tables (w\<lparr>w_rand := rs\<rparr>) w'
      | (Inr pair, w') \<Rightarrow> stores_refresh sv (?ident sid) (tp_refresh pair) (w\<lparr>w_rand := rs\<rparr>) w'"
    using assms(1) by (simp only: lawful_issuer_def)
  then have "stores_refresh sv (?ident sid) (tp_refresh pair) (w\<lparr>w_rand := rs\<rparr>) w1"
    by (simp add: i)
  then obtain w2 expiry w3 where a: "same_tables (w\<lparr>w_rand := rs\<rparr>) w2"
    and b: "refresh_set sv (tp_refresh pair) (?ident sid) expiry w2 = (Inr (), w3)" and c: "same_tables w3 w1"
    unfolding stores_refresh_def by blast
  have now: "w_now w1 = w_now w"
    using b same_tables_fields [OF a] same_tables_fields [OF c]
    by (cases rule: refresh_set_InrE) (auto simp: same_tables_def)
  show thesis
    using l sid p now refresh_set_stores [OF b] same_tables_fields [OF a] same_tables_fields [OF c]
    unfolding update_last_login_def
    by (elim db_modify_InrE) (auto simp: set_users_def intro!: that [of sid rs])
qed

end
