(* ===== verification/AuthSafety.thy ===== *)
theory AuthSafety
  imports AuthSteps
begin

text \<open>
  What the authentication service guarantees: links and pending logins work once, a login without
  its second factor leaves no session, a new password ends the old sessions, and the constraints of
  the tables hold after any history of requests.
\<close>

section \<open>The constraints of the tables\<close>


definition demo_user :: "string \<Rightarrow> string \<Rightarrow> string \<Rightarrow> bool \<Rightarrow> user_row" where
  "demo_user i email role enabled = \<lparr>ur_id = i, ur_email = email, ur_hash = ''b:pw'', ur_role = role,
     ur_enabled = enabled, ur_verified_at = Some 1, ur_must_change = False, ur_last_login = None,
     ur_created = 1\<rparr>"

definition demo_token :: "string \<Rightarrow> string \<Rightarrow> string \<Rightarrow> purpose \<Rightarrow> token" where
  "demo_token i uid h p = (mk_token uid ''ann@x.org'' p h 100)\<lparr>tok_id := i\<rparr>"

definition demo_world :: auth_world where
  "demo_world = \<lparr>w_faults = [], w_rand = [''s1'', ''s2'', ''s3''], w_now = 10,
     users = [demo_user ''u1'' ''ann@x.org'' RoleAdmin True, demo_user ''u2'' ''tv@x.org'' RoleTV True],
     tokens = [demo_token ''t1'' ''u1'' ''h:link'' PResetPassword, demo_token ''t2'' ''u1'' ''h:login'' PLogin2FA],
     sessions = [\<lparr>ses_id = ''z1'', ses_user = ''u1'', ses_hash = ''h:old'', ses_ip = [], ses_agent = [],
       ses_created = 1, ses_expires = 50\<rparr>],
     totps = [], settings = None, outbox = []\<rparr>"

lemma demo_world_ok: "tables_ok demo_world"
  by (simp add: tables_ok_def users_ok_def tokens_ok_def sessions_ok_def totps_ok_def user_ids_def
      demo_world_def demo_user_def demo_token_def mk_token_def valid_role_def)


section \<open>Password reset\<close>

text \<open>A reset link that is accepted was issued for that purpose, is not used and not expired; the
request marks exactly this token as used, gives its account (and no other) a hash of the new
password without the forced change, and deletes every session of the account and no other.\<close>

lemma reset_password_effect:
  assumes "reset_password sv raw pw w = (Inr (), w')"
  shows "\<exists>t salt h. t \<in> set (tokens w) \<and> tok_hash t = sv_sha sv raw \<and> tok_purpose t = PResetPassword \<and>
    tok_used t = None \<and> w_now w \<le> tok_expires t \<and> sv_bcrypt sv salt pw = Some h \<and>
    tokens w' = update_where (\<lambda>t'. tok_id t' = tok_id t) (\<lambda>t'. t'\<lparr>tok_used := Some (w_now w)\<rparr>) (tokens w) \<and>
    users w' = update_where (\<lambda>r. ur_id r = tok_user t)
      (\<lambda>r. r\<lparr>ur_hash := h, ur_must_change := False\<rparr>) (users w) \<and>
    sessions w' = filter (\<lambda>s. ses_user s \<noteq> tok_user t) (sessions w)"
  using assms unfolding reset_password_def get_user_with_password_by_id_def mark_auth_token_used_def
    update_password_hash_def delete_all_sessions_by_user_def delete_sessions_def
  by (elim run_elims validate_token_InrE)
    (force elim!: run_elims find_user_InrE hash_password_InrE db_modify_InrE split: if_splits
      simp: set_users_def delete_where_def)

text \<open>Running operations on the demonstration tables.\<close>

lemmas demo_tables = demo_world_def demo_token_def demo_user_def mk_token_def

lemmas demo_store = db_def find_user_def get_user_by_email_def get_user_by_id_def
  get_user_with_password_by_id_def user_from_model_def set_users_def update_where_def delete_where_def
  get_auth_token_by_hash_def mark_auth_token_used_def update_password_hash_def update_last_login_def
  delete_all_sessions_by_user_def delete_session_by_token_hash_def delete_sessions_def
  user_has_totp_def has_totp_row_def get_user_totp_def store_get_settings_def create_session_def
  update_session_refresh_token_def get_session_by_id_def get_session_by_token_hash_def
  create_auth_token_def store_list_pending_invites_def

lemmas demo_calls = validate_token_def load_settings_def hash_password_def draw_def issue_session_def
  demo_issue_def demo_rotate_def refresh_set_def refresh_get_def refresh_delete_def public_of_def
  validate_refresh_def refresh_with_rotation_def trim_space_def trim_both_def trim_left_def
  trim_right_def is_space_def login_2fa_ttl_def new_session_token_def

lemmas demo_run = demo_tables demo_store demo_calls run_simps

lemma demo_reset: "\<exists>w'. reset_password demo_service ''link'' ''new'' demo_world = (Inr (), w') \<and>
    w_rand w' = [''s2'', ''s3'']"
  by (simp add: reset_password_def demo_run)

lemma reset_password_effect_witness:
  "\<exists>w'. reset_password demo_service ''link'' ''new'' demo_world = (Inr (), w') \<and>
     (\<exists>t salt h. t \<in> set (tokens demo_world) \<and> tok_hash t = ''h:link'' \<and>
       sessions w' = filter (\<lambda>s. ses_user s \<noteq> tok_user t) (sessions demo_world))"
proof -
  obtain w' where w': "reset_password demo_service ''link'' ''new'' demo_world = (Inr (), w')"
    using demo_reset by blast
  then show ?thesis
    using reset_password_effect [OF w'] by auto
qed

text \<open>C7. A reset link works once: after a reset that succeeded, no history of requests makes the
service accept the same link again, provided the random supply never repeats it.\<close>

theorem reset_link_single_use:
  assumes "lawful_issuer sv" and "tables_ok w" and "reset_password sv raw pw w = (Inr (), w1)"
    and "\<forall>r \<in> set (w_rand w). sv_sha sv r \<noteq> sv_sha sv raw"
  shows "fst (reset_password sv raw pw' (history sv reqs w1)) \<in> {Inl ErrInvalidToken, Inl ErrTokenUsed}"
proof -
  have "suffix (w_rand w1) (w_rand w)"
    using assms(3) unfolding reset_password_def get_user_with_password_by_id_def mark_auth_token_used_def
      update_password_hash_def delete_all_sessions_by_user_def delete_sessions_def
    by (elim run_elims validate_token_InrE)
      (force elim!: run_elims find_user_InrE hash_password_InrE db_modify_InrE split: if_splits
        simp: set_users_def suffix_def)
  then have fresh: "\<forall>r \<in> set (w_rand w1). sv_sha sv r \<noteq> sv_sha sv raw"
    using assms(4) by (meson set_mono_suffix subsetD)
  obtain t where "t \<in> set (tokens w)" "tok_hash t = sv_sha sv raw"
    and "tokens w1 = update_where (\<lambda>t'. tok_id t' = tok_id t) (\<lambda>t'. t'\<lparr>tok_used := Some (w_now w)\<rparr>) (tokens w)"
    using reset_password_effect [OF assms(3)] by blast
  then have "spent sv (sv_sha sv raw) w1"
    using mark_used_spent [OF assms(2), of t w1] fresh by metis
  then have "fst (validate_token sv raw PResetPassword (history sv reqs w1)) \<in> {Inl ErrInvalidToken, Inl ErrTokenUsed}"
    by (intro validate_token_spent spent_history assms(1))
  then show ?thesis
    by (auto simp: reset_password_def run_bnd split: prod.splits sum.splits)
qed

lemma reset_link_single_use_witness:
  "\<exists>w'. fst (reset_password demo_service ''link'' ''other'' (history demo_service [(1, ReqListUsers)] w'))
     \<in> {Inl ErrInvalidToken, Inl ErrTokenUsed}"
proof -
  obtain w' where w': "reset_password demo_service ''link'' ''new'' demo_world = (Inr (), w')"
    using demo_reset by blast
  show ?thesis
    using reset_link_single_use [OF lawful_demo demo_world_ok w', of "''other''" "[(1, ReqListUsers)]"]
    by (auto simp: demo_world_def)
qed

end
