(* ===== verification/AuthLogin.thy ===== *)
theory AuthLogin
  imports AuthSafety
begin

text \<open>
  Properties of logging in: what a session presupposes, the second factor, backup codes, refresh
  token rotation and the check of each request.
\<close>

section \<open>Password login\<close>

lemma session_free: 
  assumes "create_pending_login_token sv u w = (Inr raw, w')"
  shows "sessions w' = sessions w \<and> users w' = users w \<and> totps w' = totps w"
  using assms unfolding create_pending_login_token_def create_auth_token_def
  by (auto elim!: run_elims new_session_token_InrE db_InrE draw_InrE split: if_splits)

lemma reject_if_invite_pending_InrE:
  assumes "reject_if_invite_pending sv u w = (Inr x, w')"
  obtains fs where "w' = w\<lparr>w_faults := fs\<rparr>" and "w_faults w = [] \<Longrightarrow> fs = []"
proof (cases "usr_enabled u")
  case True
  with assms show thesis by (intro that [of "w_faults w"]) (simp_all add: reject_if_invite_pending_def)
next
  case False
  with assms show thesis
    unfolding reject_if_invite_pending_def store_list_pending_invites_def
    by (auto elim!: run_elims db_gets_InrE split: list.splits intro: that)
qed

lemma pending_outcome_InrE:
  assumes "pending_two_factor_outcome sv u b c w = (Inr out, w')"
  obtains "sessions w' = sessions w" and "lo_access out = []" and "lo_refresh out = []"
    and "lo_user out = public_of u" and "lo_status out \<noteq> ''ok''"
  using assms unfolding pending_two_factor_outcome_def
  by (auto elim!: run_elims dest!: session_free)

lemma issue_login_outcome_InrE:
  assumes "issue_login_outcome sv u sm w = (Inr out, w')"
  obtains "lo_user out = public_of u" and "lo_status out = ''ok''" and "lo_pending out = []"
  using assms unfolding issue_login_outcome_def issue_session_def by (auto elim!: run_elims)

definition second_factor_due :: "auth_world \<Rightarrow> string \<Rightarrow> bool" where
  "second_factor_due w uid \<longleftrightarrow> has_totp_row (totps w) uid \<or>
     (w_faults w = [] \<and> (case settings w of None \<Rightarrow> False | Some st \<Rightarrow> two_factor_required st))"

lemma login_after_password_InrE:
  assumes "login_after_password sv u sm w = (Inr out, w')"
  obtains "lo_user out = public_of u"
    and "second_factor_due w (usr_id u) \<Longrightarrow> sessions w' = sessions w \<and> lo_access out = [] \<and>
      lo_refresh out = [] \<and> lo_status out \<noteq> ''ok''"
proof -
  obtain st fs where st: "load_settings w = (Inr st, w\<lparr>w_faults := fs\<rparr>)" "w_faults w = [] \<Longrightarrow> fs = []"
    "\<And>st0. w_faults w = [] \<Longrightarrow> settings w = Some st0 \<Longrightarrow> st = st0"
    by (rule load_settings_cases [of w]) blast
  from assms st(1) obtain b w1 where b: "user_has_totp (usr_id u) (w\<lparr>w_faults := fs\<rparr>) = (Inr b, w1)"
    and rest: "(if b \<or> two_factor_required st
       then pending_two_factor_outcome sv u b (two_factor_required st)
       else issue_login_outcome sv u sm) w1 = (Inr out, w')"
    unfolding login_after_password_def by (auto elim!: run_elims)
  from b have b': "b = has_totp_row (totps w) (usr_id u)" and w1: "sessions w1 = sessions w"
    unfolding user_has_totp_def by (auto elim!: db_gets_InrE)
  show thesis
  proof (cases "b \<or> two_factor_required st")
    case True
    with rest w1 show thesis by (auto elim!: pending_outcome_InrE intro!: that)
  next
    case False
    then have "\<not> second_factor_due w (usr_id u)"
      using b' st(3) by (auto simp: second_factor_due_def split: option.splits)
    with False rest show thesis by (auto elim!: issue_login_outcome_InrE intro!: that)
  qed
qed

text \<open>C5. A password login that is answered, in any state and under any failures, names an existing,
enabled account with this email and password that is not a TV account; when its second factor is
due (an enrolled authenticator, or the policy as loaded without failures) the answer carries no
token and the session table is unchanged; and when the policy asks for a confirmed address, the
address is confirmed.\<close>

theorem login_requires:
  assumes "login sv email pw sm w = (Inr out, w')"
  shows "\<exists>r \<in> set (users w). ur_email r = email \<and> sv_bcrypt_ok sv (ur_hash r) pw \<and> ur_enabled r \<and>
    ur_role r \<noteq> RoleTV \<and> lo_user out = public_of (user_from_model r) \<and>
    (second_factor_due w (ur_id r) \<longrightarrow>
       sessions w' = sessions w \<and> lo_access out = [] \<and> lo_refresh out = [] \<and> lo_status out \<noteq> ''ok'') \<and>
    (w_faults w = [] \<longrightarrow> settings w = Some st \<longrightarrow> email_confirmation_required st \<longrightarrow>
       ur_verified_at r \<noteq> None)"
proof -
  from assms obtain u h fs r where r: "r \<in> set (users w)" "ur_email r = email"
      "u = user_from_model r" "h = ur_hash r"
    and fs: "w_faults w = [] \<Longrightarrow> fs = []" and
    rest: "seqm (reject_if_invite_pending sv u)
     (if \<not> sv_bcrypt_ok sv h pw then throw ErrInvalidCredentials
      else if \<not> allows_web_login (usr_role u) then throw ErrTVWebAuth
      else bnd load_settings (\<lambda>st.
        if \<not> usr_enabled u \<or> (email_confirmation_required st \<and> usr_verified_at u = None)
        then seqm (ensure_confirm_email_sent sv u) (throw ErrUserDisabled)
        else login_after_password sv u sm)) (w\<lparr>w_faults := fs\<rparr>) = (Inr out, w')"
    unfolding login_def get_user_by_email_def
    by (elim bnd_InrE on_err_InrE find_user_InrE) (simp only: prod.case if_True, blast)
  from rest obtain x w1 where x: "reject_if_invite_pending sv u (w\<lparr>w_faults := fs\<rparr>) = (Inr x, w1)"
    and rest1: "(if \<not> sv_bcrypt_ok sv h pw then throw ErrInvalidCredentials
      else if \<not> allows_web_login (usr_role u) then throw ErrTVWebAuth
      else bnd load_settings (\<lambda>st.
        if \<not> usr_enabled u \<or> (email_confirmation_required st \<and> usr_verified_at u = None)
        then seqm (ensure_confirm_email_sent sv u) (throw ErrUserDisabled)
        else login_after_password sv u sm)) w1 = (Inr out, w')"
    by (rule seqm_InrE)
  from x obtain fs1 where "w1 = w\<lparr>w_faults := fs, w_faults := fs1\<rparr>" "fs = [] \<Longrightarrow> fs1 = []"
    by (rule reject_if_invite_pending_InrE) simp
  with fs have w1: "w1 = w\<lparr>w_faults := fs1\<rparr>" "w_faults w = [] \<Longrightarrow> fs1 = []" by auto
  obtain st1 fs2 where st: "load_settings w1 = (Inr st1, w\<lparr>w_faults := fs2\<rparr>)"
    "w_faults w = [] \<Longrightarrow> fs2 = []" "\<And>st. w_faults w = [] \<Longrightarrow> settings w = Some st \<Longrightarrow> st1 = st"
    by (rule load_settings_cases [of w1]) (use w1 in auto)
  with rest1 have ok: "sv_bcrypt_ok sv h pw" "usr_role u \<noteq> RoleTV" "usr_enabled u"
    "email_confirmation_required st1 \<Longrightarrow> usr_verified_at u \<noteq> None"
    and fin: "login_after_password sv u sm (w\<lparr>w_faults := fs2\<rparr>) = (Inr out, w')"
    by (auto simp: allows_web_login_def run_bnd run_seqm split: if_splits prod.splits sum.splits)
  have "second_factor_due (w\<lparr>w_faults := fs2\<rparr>) (usr_id u)" if "second_factor_due w (usr_id u)"
    using that st(2) by (auto simp: second_factor_due_def)
  with fin ok r st(3) show ?thesis
    by (elim login_after_password_InrE) (auto intro!: bexI [of _ r])
qed

definition demo_meta :: session_meta where
  "demo_meta = \<lparr>meta_ip = ''ip'', meta_agent = ''ua''\<rparr>"

lemma demo_login:
  "\<exists>out w'. login demo_service ''ann@x.org'' ''pw'' demo_meta demo_world = (Inr out, w') \<and>
     lo_status out = ''ok'' \<and> length (sessions w') = 2"
  by (simp add: login_def reject_if_invite_pending_def login_after_password_def
      issue_login_outcome_def default_settings_def allows_web_login_def demo_meta_def demo_run)

lemma login_requires_witness:
  "\<exists>out w'. login demo_service ''ann@x.org'' ''pw'' demo_meta demo_world = (Inr out, w') \<and>
     (\<exists>r \<in> set (users demo_world). ur_email r = ''ann@x.org'' \<and> ur_hash r = ''b:pw'' \<and> ur_enabled r)"
proof -
  obtain out w' where l: "login demo_service ''ann@x.org'' ''pw'' demo_meta demo_world = (Inr out, w')"
    using demo_login by blast
  then show ?thesis using login_requires [OF l] by auto
qed

section \<open>The second step\<close>

text \<open>A second factor: a TOTP code of the account's secret, or the backup code at some position.\<close>

definition code_matches :: "service \<Rightarrow> int \<Rightarrow> totp_row \<Rightarrow> string \<Rightarrow> bool" where
  "code_matches sv now t code \<longleftrightarrow>
     (case sv_decrypt sv (tr_secret t) of None \<Rightarrow> False
      | Some secret \<Rightarrow> validate_totp_code sv secret code (sv_leeway sv) now)"

definition backup_matches :: "service \<Rightarrow> totp_row \<Rightarrow> string \<Rightarrow> nat \<Rightarrow> bool" where
  "backup_matches sv t code i \<longleftrightarrow> looks_like_backup_code code \<and> i < length (tr_backup t) \<and>
     tr_backup t ! i \<noteq> [] \<and> sv_bcrypt_ok sv (tr_backup t ! i) (to_upper (trim_space code))"

text \<open>The totp table after the backup code at position \<open>i\<close> of the account is consumed.\<close>

definition blank_backup :: "string \<Rightarrow> string list \<Rightarrow> nat \<Rightarrow> totp_row list \<Rightarrow> totp_row list" where
  "blank_backup uid bs i ts = update_where (\<lambda>t. tr_user t = uid) (\<lambda>t. t\<lparr>tr_backup := bs[i := []]\<rparr>) ts"

lemma get_user_totp_InrE:
  assumes "get_user_totp i w = (Inr rec, w')"
  obtains t fs where "t \<in> set (totps w)" and "tr_user t = i" and "tr_enabled_at t \<noteq> None"
    and "totp_secret rec = tr_secret t" and "totp_backup rec = tr_backup t" and "w' = w\<lparr>w_faults := fs\<rparr>"
    and "find (\<lambda>t. tr_user t = i \<and> tr_enabled_at t \<noteq> None) (totps w) = Some t"
  using assms unfolding get_user_totp_def
  by (elim db_InrE) (auto split: option.splits dest: find_SomeD)

lemma backup_loop_True:
  assumes "backup_loop sv uid code k hs w = (Inr True, w')"
    and "find (\<lambda>t. tr_user t = uid \<and> tr_enabled_at t \<noteq> None) (totps w) = Some t" and "0 \<le> k"
    and "hs = drop (nat k) (tr_backup t)"
  shows "\<exists>i fs. i < length (tr_backup t) \<and> tr_backup t ! i \<noteq> [] \<and> sv_bcrypt_ok sv (tr_backup t ! i) code \<and>
    w' = w\<lparr>w_faults := fs, totps := blank_backup uid (tr_backup t) i (totps w)\<rparr>"
  using assms
proof (induction hs arbitrary: k)
  case Nil
  then show ?case by simp
next
  case (Cons h hs)
  have k: "nat k < length (tr_backup t)" and h: "h = tr_backup t ! nat k"
    and hs: "hs = drop (nat (k + 1)) (tr_backup t)"
    using Cons.prems(3,4)
    by (metis drop_all list.distinct(1) not_le, metis Cons.prems(4) nth_via_drop,
        metis Cons.prems(4) Suc_nat_eq_nat_zadd1 add.commute drop_Suc list.sel(3) tl_drop)
  show ?case
  proof (cases "h \<noteq> [] \<and> sv_bcrypt_ok sv h code")
    case True
    with Cons.prems(1) have "consume_backup_code uid k w = (Inr (), w')"
      by (auto elim!: seqm_InrE)
    then obtain fs where "w' = w\<lparr>w_faults := fs, totps := blank_backup uid (tr_backup t) (nat k) (totps w)\<rparr>"
      using Cons.prems(2) unfolding consume_backup_code_def
      by (auto elim!: bnd_InrE get_user_totp_InrE db_modify_InrE split: if_splits simp: blank_backup_def)
    with True k h show ?thesis by blast
  next
    case False
    with Cons.prems(1) have "backup_loop sv uid code (k + 1) hs w = (Inr True, w')"
      by (auto split: if_splits)
    then show ?thesis using Cons.IH [of "k + 1"] Cons.prems(2,3) hs by simp
  qed
qed

lemma verify_two_factor_code_True:
  assumes "get_user_totp uid w0 = (Inr rec, w)"
    and "verify_two_factor_code sv uid rec code (sv_leeway sv) w = (Inr True, w')"
  shows "\<exists>t \<in> set (totps w0). tr_user t = uid \<and> tr_enabled_at t \<noteq> None \<and>
    (code_matches sv (w_now w0) t code \<and> (\<exists>fs. w' = w0\<lparr>w_faults := fs\<rparr>) \<or>
     (\<exists>i fs. backup_matches sv t code i \<and>
        w' = w0\<lparr>w_faults := fs, totps := blank_backup uid (tr_backup t) i (totps w0)\<rparr>))"
proof -
  obtain t fs where t: "t \<in> set (totps w0)" "tr_user t = uid" "tr_enabled_at t \<noteq> None"
    "totp_secret rec = tr_secret t" "totp_backup rec = tr_backup t" "w = w0\<lparr>w_faults := fs\<rparr>"
    "find (\<lambda>t. tr_user t = uid \<and> tr_enabled_at t \<noteq> None) (totps w0) = Some t"
    using assms(1) by (rule get_user_totp_InrE)
  obtain secret where s: "sv_decrypt sv (tr_secret t) = Some secret"
    using assms(2) t(4) by (auto simp: verify_two_factor_code_def split: option.splits)
  show ?thesis
  proof (cases "validate_totp_code sv secret code (sv_leeway sv) (w_now w0)")
    case True
    with assms(2) s t show ?thesis
      by (auto simp: verify_two_factor_code_def run_bnd code_matches_def intro!: bexI [of _ t])
  next
    case False
    with assms(2) s t have "looks_like_backup_code code"
      and "backup_loop sv uid (to_upper (trim_space code)) 0 (tr_backup t) w = (Inr True, w')"
      by (auto simp: verify_two_factor_code_def run_bnd validate_backup_code_def split: if_splits)
    with backup_loop_True [of sv uid _ 0 "tr_backup t" w w' t] t show ?thesis
      by (fastforce simp: backup_matches_def)
  qed
qed

text \<open>C6. The second step of a login succeeds only for a pending-login token that is unused and not
expired, of an enabled account with an enrolled authenticator, and with a valid code: either a code
of the authenticator, or an unused backup code, which the step removes from the account. The token
is marked as used, and a session with the hash of the returned refresh token exists.\<close>

theorem verify_login_two_factor_requires:
  assumes "lawful_issuer sv" and "verify_login_two_factor sv raw code sm w = (Inr (p, pair), w')"
  shows "\<exists>tok \<in> set (tokens w). \<exists>r \<in> set (users w). \<exists>t \<in> set (totps w).
    tok_hash tok = sv_sha sv raw \<and> tok_purpose tok = PLogin2FA \<and> tok_used tok = None \<and>
    w_now w \<le> tok_expires tok \<and> ur_id r = tok_user tok \<and> ur_enabled r \<and>
    p = public_of (user_from_model r) \<and> tr_user t = ur_id r \<and> tr_enabled_at t \<noteq> None \<and>
    (code_matches sv (w_now w) t code \<and> totps w' = totps w \<or>
     (\<exists>i. backup_matches sv t code i \<and> totps w' = blank_backup (ur_id r) (tr_backup t) i (totps w))) \<and>
    tokens w' = update_where (\<lambda>t. tok_id t = tok_id tok) (\<lambda>t. t\<lparr>tok_used := Some (w_now w)\<rparr>) (tokens w) \<and>
    (\<exists>s \<in> set (sessions w'). ses_hash s = sv_sha sv (tp_refresh pair))"
proof -
  from assms(2) obtain tok w1 where v: "validate_token sv raw PLogin2FA w = (Inr tok, w1)"
    and rest: "bnd (on_err (get_user_by_id (tok_user tok)) (\<lambda>_. ErrInvalidToken)) (\<lambda>u.
     if \<not> usr_enabled u then throw ErrUserDisabled
     else bnd (get_user_totp (usr_id u)) (\<lambda>record.
       bnd (verify_two_factor_code sv (usr_id u) record code (sv_leeway sv)) (\<lambda>ok.
       if \<not> ok then throw ErrInvalidTwoFactorCode
       else seqm (mark_auth_token_used (tok_id tok)) (issue_session sv u sm)))) w1 = (Inr (p, pair), w')"
    unfolding verify_login_two_factor_def by (rule bnd_InrE)
  from v obtain fs where tok: "tok \<in> set (tokens w)" "tok_hash tok = sv_sha sv raw"
      "tok_purpose tok = PLogin2FA" "tok_used tok = None" "w_now w \<le> tok_expires tok"
    and w1: "w1 = w\<lparr>w_faults := fs\<rparr>"
    by (rule validate_token_InrE)
  from rest obtain u w2 where u: "get_user_by_id (tok_user tok) w1 = (Inr u, w2)"
    and rest2: "(if \<not> usr_enabled u then throw ErrUserDisabled
     else bnd (get_user_totp (usr_id u)) (\<lambda>record.
       bnd (verify_two_factor_code sv (usr_id u) record code (sv_leeway sv)) (\<lambda>ok.
       if \<not> ok then throw ErrInvalidTwoFactorCode
       else seqm (mark_auth_token_used (tok_id tok)) (issue_session sv u sm)))) w2 = (Inr (p, pair), w')"
    by (rule bnd_InrE) (erule on_err_InrE)
  from u obtain r fs2 where r: "r \<in> set (users w)" "ur_id r = tok_user tok" "u = user_from_model r"
    and w2: "w2 = w\<lparr>w_faults := fs2\<rparr>"
    unfolding w1 by (rule get_user_by_id_InrE) simp
  from rest2 have en: "ur_enabled r"
    using r(3) by (auto split: if_splits)
  with rest2 obtain rec w3 ok w4 w5 where t: "get_user_totp (ur_id r) (w\<lparr>w_faults := fs2\<rparr>) = (Inr rec, w3)"
    and v0: "verify_two_factor_code sv (ur_id r) rec code (sv_leeway sv) w3 = (Inr ok, w4)"
    and ok: ok and m: "mark_auth_token_used (tok_id tok) w4 = (Inr (), w5)"
    and i: "issue_session sv (user_from_model r) sm w5 = (Inr (p, pair), w')"
    unfolding w2 r(3) by (auto elim!: bnd_InrE seqm_InrE split: if_splits)
  from v0 ok have v: "verify_two_factor_code sv (ur_id r) rec code (sv_leeway sv) w3 = (Inr True, w4)" by simp
  obtain row where row: "row \<in> set (totps w)" "tr_user row = ur_id r" "tr_enabled_at row \<noteq> None"
    and alt: "code_matches sv (w_now w) row code \<and> (\<exists>fs. w4 = w\<lparr>w_faults := fs\<rparr>) \<or>
      (\<exists>i fs. backup_matches sv row code i \<and>
        w4 = w\<lparr>w_faults := fs, totps := blank_backup (ur_id r) (tr_backup row) i (totps w)\<rparr>)"
    using verify_two_factor_code_True [OF t v] by (auto simp del: not_None_eq)
  obtain fs5 where w5: "w5 = w4\<lparr>w_faults := fs5, tokens := update_where (\<lambda>t. tok_id t = tok_id tok)
      (\<lambda>t. t\<lparr>tok_used := Some (w_now w)\<rparr>) (tokens w)\<rparr>"
    using m alt unfolding mark_auth_token_used_def by (auto elim!: db_modify_InrE)
  show ?thesis
    using assms(1) i
  proof (cases rule: issue_session_InrE)
    case (1 sid rs)
    with w5 alt have "code_matches sv (w_now w) row code \<and> totps w' = totps w \<or>
     (\<exists>i. backup_matches sv row code i \<and> totps w' = blank_backup (ur_id r) (tr_backup row) i (totps w))"
      by auto
    moreover have "\<exists>s \<in> set (sessions w'). ses_hash s = sv_sha sv (tp_refresh pair)"
      using 1 by blast
    moreover have "p = public_of (user_from_model r)" and
      "tokens w' = update_where (\<lambda>t. tok_id t = tok_id tok) (\<lambda>t. t\<lparr>tok_used := Some (w_now w)\<rparr>) (tokens w)"
      using 1 w5 by auto
    ultimately show ?thesis using tok r(1,2) en row
      by (intro bexI [of _ tok] bexI [of _ r] bexI [of _ row]) simp_all
  qed
qed

definition demo_world_2fa :: auth_world where
  "demo_world_2fa = demo_world\<lparr>totps := [\<lparr>tr_user = ''u1'', tr_secret = ''e:key'',
     tr_enabled_at = Some 2, tr_backup = [''b:ABCDEFGH'']\<rparr>]\<rparr>"

lemmas demo_2fa = demo_world_2fa_def verify_two_factor_code_def validate_totp_code_def
  validate_backup_code_def looks_like_backup_code_def backup_code_alphabet_def backup_code_length_def
  consume_backup_code_def

lemma demo_verify:
  "\<exists>p pair w'. verify_login_two_factor demo_service ''login'' ''123456'' demo_meta demo_world_2fa = (Inr (p, pair), w')"
  by (simp add: verify_login_two_factor_def demo_2fa demo_meta_def demo_run)

lemma verify_login_two_factor_requires_witness:
  "\<exists>p pair w'. verify_login_two_factor demo_service ''login'' ''123456'' demo_meta demo_world_2fa = (Inr (p, pair), w') \<and>
     (\<exists>s \<in> set (sessions w'). ses_hash s = ''h:'' @ tp_refresh pair)"
proof -
  obtain p pair w' where v:
    "verify_login_two_factor demo_service ''login'' ''123456'' demo_meta demo_world_2fa = (Inr (p, pair), w')"
    using demo_verify by blast
  then show ?thesis using verify_login_two_factor_requires [OF lawful_demo v] by auto
qed

end
