(* ===== verification/AuthSessions.thy ===== *)
theory AuthSessions
  imports AuthLogin
begin

text \<open>
  Properties of sessions: the check of every authenticated request, rotation of refresh tokens,
  revocation, and what changing a password does to them.
\<close>

section \<open>The check of a request\<close>

text \<open>What the check asks of the tables.\<close>

definition session_valid :: "auth_world \<Rightarrow> string \<Rightarrow> string \<Rightarrow> bool" where
  "session_valid w sid uid \<longleftrightarrow> sid \<noteq> [] \<and> uid \<noteq> [] \<and>
     (\<exists>s \<in> set (sessions w). ses_id s = sid \<and> ses_user s = uid \<and> w_now w \<le> ses_expires s) \<and>
     (\<exists>r \<in> set (users w). ur_id r = uid \<and> ur_enabled r)"

lemma get_session_by_id_run:
  "get_session_by_id i w = (if fault_next (w_faults w) then Inl ErrDb else
     (case find (\<lambda>s. ses_id s = i) (sessions w) of None \<Rightarrow> Inl ErrNoRow | Some s \<Rightarrow> Inr s),
     w\<lparr>w_faults := tl (w_faults w)\<rparr>)"
  by (simp add: get_session_by_id_def db_def io_call_def Let_def split: option.splits)

lemma get_user_by_id_run:
  "get_user_by_id i w = (if fault_next (w_faults w) then Inl ErrDb else
     (case find (\<lambda>r. ur_id r = i) (users w) of None \<Rightarrow> Inl ErrManagedUserNotFound
      | Some r \<Rightarrow> Inr (user_from_model r)), w\<lparr>w_faults := tl (w_faults w)\<rparr>)"
  by (simp add: get_user_by_id_def find_user_def db_def io_call_def Let_def run_bnd split: option.splits)

lemma authorizer_True:
  assumes "fst (authorizer sid uid w) = Inr True"
  shows "session_valid w sid uid"
  using assms
  by (auto simp: authorizer_def run_bnd get_session_by_id_run get_user_by_id_run session_valid_def
      split: if_splits option.splits dest!: find_SomeD)

text \<open>C9. A request is let through only with the id of a stored, unexpired session of its user, whose
account exists and is enabled, under any failures; without failures every such request is let
through.\<close>

theorem authorizer_exact:
  shows "(fst (authorizer sid uid w) = Inr True \<longrightarrow> session_valid w sid uid) \<and>
    (tables_ok w \<and> w_faults w = [] \<longrightarrow> fst (authorizer sid uid w) = Inr (session_valid w sid uid))"
proof (intro conjI impI)
  assume "tables_ok w \<and> w_faults w = []"
  then have ok: "tables_ok w" and fs: "w_faults w = []" by auto
  show "fst (authorizer sid uid w) = Inr (session_valid w sid uid)"
  proof (cases "session_valid w sid uid")
    case True
    then obtain s r where s: "s \<in> set (sessions w)" "ses_id s = sid" "ses_user s = uid" "w_now w \<le> ses_expires s"
      and r: "r \<in> set (users w)" "ur_id r = uid" "ur_enabled r" and ne: "sid \<noteq> []" "uid \<noteq> []"
      by (auto simp: session_valid_def)
    have "find (\<lambda>s. ses_id s = sid) (sessions w) = Some s"
      using find_unique [of ses_id "sessions w" s] ok s by (simp add: tables_ok_def sessions_ok_def)
    moreover have "find (\<lambda>r. ur_id r = uid) (users w) = Some r"
      using find_unique [of ur_id "users w" r] ok r by (simp add: tables_ok_def users_ok_def)
    ultimately show ?thesis
      using True s r fs ne by (simp add: authorizer_def run_bnd get_session_by_id_run get_user_by_id_run fault_next_def)
  next
    case False
    then have "fst (authorizer sid uid w) \<noteq> Inr True" using authorizer_True by blast
    moreover have "\<not> isl (fst (authorizer sid uid w))"
      by (simp add: authorizer_def run_bnd get_session_by_id_run get_user_by_id_run split: option.splits)
    ultimately show ?thesis using False by (cases "fst (authorizer sid uid w)") auto
  qed
qed (rule authorizer_True)

lemma authorizer_exact_witness:
  "fst (authorizer ''z1'' ''u1'' demo_world) = Inr True \<and> fst (authorizer ''z1'' ''u2'' demo_world) = Inr False"
  using authorizer_exact [of "''z1''" "''u1''" demo_world] authorizer_exact [of "''z1''" "''u2''" demo_world]
    demo_world_ok
  by (simp add: session_valid_def demo_world_def demo_user_def)

section \<open>Rotation of refresh tokens\<close>

lemma validate_refresh_InrE:
  assumes "validate_refresh sv raw w = (Inr ident, w')"
  obtains s r fs where "s \<in> set (sessions w)" and "ses_hash s = sv_sha sv raw" and "w_now w \<le> ses_expires s"
    and "r \<in> set (users w)" and "ur_id r = ses_user s" and "sid_session ident = ses_id s"
    and "sid_user_id ident = ses_user s" and "w' = w\<lparr>w_faults := fs\<rparr>"
proof -
  from assms have "refresh_get sv raw w = (Inr ident, w')"
    by (auto simp: validate_refresh_def elim!: on_err_InrE split: if_splits)
  then obtain s w1 where s: "get_session_by_token_hash (sv_sha sv raw) w = (Inr s, w1)"
    and rest: "bnd (gets w_now) (\<lambda>now.
     if now > ses_expires s
     then seqm (ignore (delete_session_by_token_hash (sv_sha sv raw))) (throw RefreshTokenExpired)
     else bnd (on_err (get_user_by_id (ses_user s)) (\<lambda>_. RefreshTokenNotFound)) (\<lambda>u.
       ret \<lparr>sid_session = ses_id s, sid_user_id = usr_id u, sid_user = public_of u,
         sid_meta = \<lparr>meta_ip = ses_ip s, meta_agent = ses_agent s\<rparr>\<rparr>)) w1 = (Inr ident, w')"
    unfolding refresh_get_def by (rule bnd_InrE) (erule on_err_InrE)
  from s obtain fs where "s \<in> set (sessions w)" "ses_hash s = sv_sha sv raw" "w1 = w\<lparr>w_faults := fs\<rparr>"
    unfolding get_session_by_token_hash_def
    by (elim db_InrE) (auto split: option.splits dest!: find_SomeD)
  moreover from rest this have "w_now w \<le> ses_expires s"
    by (auto simp: run_bnd run_seqm split: if_splits)
  ultimately show thesis
    using rest by (auto simp: run_bnd run_seqm elim!: bnd_InrE on_err_InrE get_user_by_id_InrE
        split: if_splits sum.splits prod.splits intro: that)
qed

lemma refresh_delete_InrE:
  assumes "refresh_delete sv tok w = (Inr x, w')"
  obtains fs where "w' = w\<lparr>w_faults := fs, sessions := filter (\<lambda>s. ses_hash s \<noteq> sv_sha sv tok) (sessions w)\<rparr>"
  using assms unfolding refresh_delete_def delete_session_by_token_hash_def delete_sessions_def
  by (auto elim!: db_modify_InrE simp: delete_where_def)

text \<open>Presenting a refresh token whose hash no session has.\<close>

lemma refresh_unknown:
  assumes "\<forall>s \<in> set (sessions w). ses_hash s \<noteq> sv_sha sv raw"
  shows "fst (refresh sv raw w) = Inl ErrSessionNotFound"
proof -
  have "find (\<lambda>s. ses_hash s = sv_sha sv raw) (sessions w) = None"
    using assms by (simp add: find_None_iff)
  then show ?thesis
    by (simp add: refresh_def refresh_with_rotation_def validate_refresh_def refresh_get_def run_simps
        get_session_by_token_hash_def db_def io_call_def Let_def)
qed

text \<open>C10. A refresh that succeeds was made with the token of a stored, unexpired session of an enabled
account; it leaves users, auth tokens and the sessions with other ids and hashes as they were,
moves the session to the hash of the new token, and makes the old token useless: presenting it
again is answered with "session not found".\<close>

theorem refresh_rotates:
  assumes "lawful_issuer sv" and "refresh sv raw w = (Inr (p, pair), w')"
  shows "(\<exists>s \<in> set (sessions w). \<exists>r \<in> set (users w). ses_hash s = sv_sha sv raw \<and>
      w_now w \<le> ses_expires s \<and> ur_id r = ses_user s \<and> ur_enabled r \<and> p = public_of (user_from_model r) \<and>
      filter (\<lambda>s'. ses_id s' \<noteq> ses_id s) (sessions w') =
        filter (\<lambda>s'. ses_id s' \<noteq> ses_id s \<and> ses_hash s' \<noteq> sv_sha sv raw) (sessions w) \<and>
      (sv_sha sv (tp_refresh pair) \<noteq> sv_sha sv raw \<longrightarrow>
        (\<exists>s' \<in> set (sessions w'). ses_id s' = ses_id s \<and> ses_hash s' = sv_sha sv (tp_refresh pair)))) \<and>
    users w' = users w \<and> tokens w' = tokens w \<and> fst (refresh sv raw w') = Inl ErrSessionNotFound"
proof -
  from assms(2) obtain ident where rot: "refresh_with_rotation sv raw w = (Inr (ident, pair), w')"
    and p: "p = sid_user ident"
    by (auto simp: refresh_def elim!: bnd_InrE on_err_InrE split: if_splits)
  from rot obtain id0 w1 where v: "validate_refresh sv raw w = (Inr id0, w1)"
    and rest: "bnd (on_err (get_user_by_id (sid_user_id id0)) (\<lambda>_. ErrSessionNotFound)) (\<lambda>u.
     if \<not> usr_enabled u then throw ErrUserDisabled
     else let ident' = id0\<lparr>sid_user := public_of u\<rparr> in
       bnd (sv_issue_rotate sv ident' raw) (\<lambda>pair. ret (ident', pair))) w1 = (Inr (ident, pair), w')"
    unfolding refresh_with_rotation_def by (rule bnd_InrE)
  from v obtain s r0 fs where s: "s \<in> set (sessions w)" "ses_hash s = sv_sha sv raw" "w_now w \<le> ses_expires s"
    "sid_session id0 = ses_id s" "sid_user_id id0 = ses_user s" and w1: "w1 = w\<lparr>w_faults := fs\<rparr>"
    by (rule validate_refresh_InrE)
  from rest obtain u w2 where u: "get_user_by_id (ses_user s) w1 = (Inr u, w2)" and en: "usr_enabled u"
    and ident: "ident = id0\<lparr>sid_user := public_of u\<rparr>"
    and i: "sv_issue_rotate sv ident raw w2 = (Inr pair, w')"
    unfolding s(5) Let_def by (auto elim!: bnd_InrE on_err_InrE split: if_splits)
  from u obtain r fs2 where r: "r \<in> set (users w)" "ur_id r = ses_user s" "u = user_from_model r"
    and w2: "w2 = w\<lparr>w_faults := fs2\<rparr>"
    unfolding w1 by (rule get_user_by_id_InrE) simp
  have "case sv_issue_rotate sv ident raw w2 of
        (Inl _, w') \<Rightarrow> same_tables w2 w' \<or> (\<exists>refresh. stores_refresh sv ident refresh w2 w')
      | (Inr pair, w') \<Rightarrow> \<exists>w1 wd. stores_refresh sv ident (tp_refresh pair) w2 w1 \<and>
          refresh_delete sv raw w1 = (Inr (), wd) \<and> same_tables wd w'"
    using assms(1) by (simp only: lawful_issuer_def)
  then obtain wa wb wc wd expiry where a: "same_tables w2 wa"
    and b: "refresh_set sv (tp_refresh pair) ident expiry wa = (Inr (), wb)" and c: "same_tables wb wc"
    and d: "refresh_delete sv raw wc = (Inr (), wd)" and e: "same_tables wd w'"
    unfolding i prod.case sum.case stores_refresh_def by blast
  note fields = same_tables_fields [OF a] same_tables_fields [OF c] same_tables_fields [OF e] refresh_set_stores [OF b]
  from d obtain fd where wd: "wd = wc\<lparr>w_faults := fd, sessions := filter (\<lambda>s. ses_hash s \<noteq> sv_sha sv raw) (sessions wc)\<rparr>"
    by (rule refresh_delete_InrE)
  have id: "sid_session ident = ses_id s" using ident s(4) by simp
  have ss: "sessions w' = filter (\<lambda>s. ses_hash s \<noteq> sv_sha sv raw) (sessions wb)"
    using wd fields by simp
  have "filter (\<lambda>s'. ses_id s' \<noteq> ses_id s) (sessions wb) = filter (\<lambda>s'. ses_id s' \<noteq> ses_id s) (sessions w)"
    using fields w2 id by simp
  then have "filter (\<lambda>s'. ses_id s' \<noteq> ses_id s) (sessions w') =
      filter (\<lambda>s'. ses_id s' \<noteq> ses_id s \<and> ses_hash s' \<noteq> sv_sha sv raw) (sessions w)"
    unfolding ss by (metis (no_types, lifting) filter_cong filter_filter)
  moreover have "\<exists>s' \<in> set (sessions w'). ses_id s' = ses_id s \<and> ses_hash s' = sv_sha sv (tp_refresh pair)"
    if "sv_sha sv (tp_refresh pair) \<noteq> sv_sha sv raw"
    using that refresh_set_stores(4) [OF b] id unfolding ss by auto
  moreover have "fst (refresh sv raw w') = Inl ErrSessionNotFound"
    by (rule refresh_unknown) (simp add: ss)
  moreover have "users w' = users w" "tokens w' = tokens w"
    using wd fields w2 by simp_all
  moreover have "p = public_of (user_from_model r)" using p ident r(3) by simp
  ultimately show ?thesis using s r en by auto
qed

lemma demo_refresh_run:
  "\<exists>p pair w'. refresh demo_service ''old'' demo_world = (Inr (p, pair), w') \<and> tp_refresh pair = ''s1''"
  by (simp add: refresh_def demo_run)

lemma refresh_rotates_witness:
  "\<exists>p pair w'. refresh demo_service ''old'' demo_world = (Inr (p, pair), w') \<and>
     fst (refresh demo_service ''old'' w') = Inl ErrSessionNotFound"
proof -
  obtain p pair w' where v: "refresh demo_service ''old'' demo_world = (Inr (p, pair), w')"
    using demo_refresh_run by blast
  then show ?thesis using refresh_rotates [OF lawful_demo v] by auto
qed

section \<open>Changing the password\<close>

lemma user_has_totp_InrE:
  assumes "user_has_totp i w = (Inr b, w')"
  obtains fs where "b = has_totp_row (totps w) i" and "w' = w\<lparr>w_faults := fs\<rparr>"
  using assms unfolding user_has_totp_def by (auto elim!: db_gets_InrE)

text \<open>The second factor on a step that asks for it: the tables afterwards and the row that matched.\<close>

lemma require_user_totp_InrE:
  assumes "require_user_totp sv uid code w = (Inr x, w')"
  obtains t where "t \<in> set (totps w)" and "tr_user t = uid" and "tr_enabled_at t \<noteq> None"
    and "code_matches sv (w_now w) t code \<or> (\<exists>i. backup_matches sv t code i)"
    and "users w' = users w" and "sessions w' = sessions w" and "tokens w' = tokens w" and "w_now w' = w_now w"
proof -
  from assms obtain rec w1 ok where t: "get_user_totp uid w = (Inr rec, w1)"
    and v: "verify_two_factor_code sv uid rec code (sv_leeway sv) w1 = (Inr ok, w')" and ok: ok
    by (auto simp: require_user_totp_def elim!: bnd_InrE split: if_splits)
  from v ok have "verify_two_factor_code sv uid rec code (sv_leeway sv) w1 = (Inr True, w')" by simp
  from verify_two_factor_code_True [OF t this] show thesis by (auto intro: that)
qed


lemma demo_change:
  "\<exists>p pair w'. change_password demo_service ''u1'' ''pw'' ''new'' [] demo_meta demo_world = (Inr (p, pair), w')"
  by (simp add: change_password_def demo_meta_def demo_run)


section \<open>Listing and revoking\<close>

text \<open>A user revokes exactly the named session, and only one of their own: the request fails
without a change of the tables when the session belongs to someone else, and otherwise removes the
rows with this id and reports whether it was the caller's current session.\<close>

lemma revoke_user_session_own:
  shows "case revoke_user_session uid sid cur w of
      (Inr current, w') \<Rightarrow> (\<exists>s \<in> set (sessions w). ses_id s = sid \<and> ses_user s = uid) \<and>
        sessions w' = filter (\<lambda>s. ses_id s \<noteq> sid) (sessions w) \<and> (current \<longleftrightarrow> cur \<noteq> [] \<and> sid = cur) \<and>
        users w' = users w \<and> tokens w' = tokens w
    | (Inl e, w') \<Rightarrow> same_tables w w'"
  by (auto simp: revoke_user_session_def run_bnd run_seqm get_session_by_id_run delete_session_by_id_def
      delete_sessions_def db_def io_call_def Let_def delete_where_def
      split: prod.splits sum.splits option.splits if_splits dest!: find_SomeD)

end
