(* ===== verification/AuthAdminSafety.thy ===== *)
theory AuthAdminSafety
  imports AuthSessions
begin

text \<open>
  Properties of administration, invites and backup codes, and three places where the code does not
  do what its tests and documents say.
\<close>

section \<open>The last administrator\<close>

definition roles_of :: "auth_world \<Rightarrow> (string \<times> string) list" where
  "roles_of w = map (\<lambda>r. (ur_id r, ur_role r)) (users w)"

definition has_admin :: "(string \<times> string) list \<Rightarrow> bool" where
  "has_admin rs \<longleftrightarrow> (\<exists>(i, role) \<in> set rs. role = RoleAdmin)"

definition has_admin_besides :: "string \<Rightarrow> (string \<times> string) list \<Rightarrow> bool" where
  "has_admin_besides uid rs \<longleftrightarrow> (\<exists>(i, role) \<in> set rs. role = RoleAdmin \<and> i \<noteq> uid)"

lemma roles_of_env [simp]:
  "roles_of (w\<lparr>w_faults := fs\<rparr>) = roles_of w" "roles_of (w\<lparr>w_rand := rs\<rparr>) = roles_of w"
  "roles_of (w\<lparr>tokens := ts\<rparr>) = roles_of w" "roles_of (w\<lparr>sessions := ss\<rparr>) = roles_of w"
  "roles_of (w\<lparr>outbox := ob\<rparr>) = roles_of w"
  by (simp_all add: roles_of_def)

lemma roles_of_set_users:
  "(\<And>r. ur_id (f r) = ur_id r) \<Longrightarrow> (\<And>r. ur_role (f r) = ur_role r) \<Longrightarrow> roles_of (set_users i f w) = roles_of w"
  by (simp add: roles_of_def set_users_def map_update_where)

lemma keeps_roles_io:
  assumes "\<And>w. roles_of (snd (f w)) = roles_of w"
  shows "resp (keeps (\<lambda>w. P (roles_of w))) (io_call e f)"
  by (rule keeps_io) (simp_all add: assms)

text \<open>The operations an account update makes besides changing a role.\<close>

lemma keeps_roles:
  "resp (keeps (\<lambda>w. P (roles_of w))) (find_user Q b)"
  "resp (keeps (\<lambda>w. P (roles_of w))) (update_user_email i email clear)"
  "resp (keeps (\<lambda>w. P (roles_of w))) (invalidate_unused_tokens email p)"
  "resp (keeps (\<lambda>w. P (roles_of w))) (create_auth_token t)"
  "resp (keeps (\<lambda>w. P (roles_of w))) (send_mail email subj link)"
  "resp (keeps (\<lambda>w. P (roles_of w))) (enable_user i mark)"
  "resp (keeps (\<lambda>w. P (roles_of w))) (delete_sessions Q')"
  "resp (keeps (\<lambda>w. P (roles_of w))) store_list_users"
  "resp (keeps (\<lambda>w. P (roles_of w))) (store_list_pending_invites email)"
  "resp (keeps (\<lambda>w. P (roles_of w))) count_admins"
  "resp (keeps (\<lambda>w. P (roles_of w))) (db (modify (set_users i (\<lambda>r. r\<lparr>ur_enabled := en\<rparr>))))"
  unfolding find_user_def update_user_email_def invalidate_unused_tokens_def create_auth_token_def
    send_mail_def enable_user_def delete_sessions_def store_list_users_def store_list_pending_invites_def
    count_admins_def db_def
  by (rule keeps_roles_io,
      simp add: roles_of_set_users run_bnd draw_def split: option.splits list.splits)+

lemma keeps_roles_draw: "resp (keeps (\<lambda>w. P (roles_of w))) (draw e)"
  by (rule respI) (simp add: keeps_def draw_def split: list.splits)

lemma keeps_roles_disable:
  "resp (keeps (\<lambda>w. P (roles_of w))) (store_update_user uid \<lparr>up_enabled = Some en, up_role = None, up_email = None\<rparr>)"
  unfolding store_update_user_def user_patch.simps option.case
  by (intro resp_intros keeps_roles)

lemma keeps_roles_reads:
  "resp (keeps (\<lambda>w. P (roles_of w))) (get_user_by_id uid)"
  "resp (keeps (\<lambda>w. P (roles_of w))) (guard_last_admin_mutation u patch)"
  "resp (keeps (\<lambda>w. P (roles_of w))) (admin_user_by_id uid)"
  unfolding get_user_by_id_def guard_last_admin_mutation_def admin_user_by_id_def list_users_def
    pending_invite_emails_def
  by (intro keeps_intros keeps_roles)+

lemma keeps_roles_enabled:
  "resp (keeps (\<lambda>w. P (roles_of w))) (apply_enabled_patch uid b)"
proof (cases b)
  case True
  then show ?thesis
    unfolding apply_enabled_patch_def if_P [OF True] by (simp only: if_True keeps_roles)
next
  case False
  show ?thesis
    unfolding apply_enabled_patch_def if_not_P [OF False] delete_all_sessions_by_user_def
    by (intro keeps_rel.resp_seqm keeps_roles(7) keeps_roles_disable)
qed

lemma keeps_roles_revoke:
  "resp (keeps (\<lambda>w. P (roles_of w))) (admin_revoke_all_sessions uid)"
  unfolding admin_revoke_all_sessions_def delete_all_sessions_by_user_def by (rule keeps_roles(7))

lemma keeps_roles_email:
  "resp (keeps (\<lambda>w. P (roles_of w))) (admin_change_email sv u email)"
  unfolding admin_change_email_def get_user_by_email_def send_confirm_email_def new_session_token_def
  by (intro keeps_intros keeps_roles keeps_roles_draw)

lemmas keeps_roles_steps = keeps_roles_reads keeps_roles_enabled keeps_roles_revoke keeps_roles_email

text \<open>What the guard establishes when it lets a change pass.\<close>

lemma same_id_same_row:
  "tables_ok w \<Longrightarrow> r \<in> set (users w) \<Longrightarrow> r' \<in> set (users w) \<Longrightarrow> ur_id r' = ur_id r \<Longrightarrow> r' = r"
  by (auto simp: tables_ok_def users_ok_def distinct_map inj_on_def)

lemma has_admin_iff: "has_admin (roles_of w) \<longleftrightarrow> (\<exists>r \<in> set (users w). ur_role r = RoleAdmin)"
  by (auto simp: has_admin_def roles_of_def)

lemma has_admin_besides_iff:
  "has_admin_besides uid (roles_of w) \<longleftrightarrow> (\<exists>r \<in> set (users w). ur_role r = RoleAdmin \<and> ur_id r \<noteq> uid)"
  by (auto simp: has_admin_besides_def roles_of_def)

lemma two_elements:
  assumes "distinct (map f ys)" and "1 < length ys"
  shows "\<exists>y \<in> set ys. f y \<noteq> v"
proof -
  obtain a b xs where "ys = a # b # xs"
    using assms(2) by (cases ys; cases "tl ys") simp_all
  with assms(1) show ?thesis by (cases "f a = v") auto
qed

lemma two_admins:
  assumes "tables_ok w" and "1 < length (filter (\<lambda>r. ur_role r = RoleAdmin) (users w))"
  shows "has_admin_besides uid (roles_of w)"
proof -
  have "distinct (map ur_id (filter (\<lambda>r. ur_role r = RoleAdmin) (users w)))"
    using assms(1) by (simp add: tables_ok_def users_ok_def distinct_map_filter)
  from two_elements [OF this assms(2), of uid] show ?thesis
    by (auto simp: has_admin_besides_iff)
qed

lemma guard_passed:
  assumes ok: "tables_ok w" and adm: "has_admin (roles_of w)" and r: "r \<in> set (users w)"
    and g: "guard_last_admin_mutation (user_from_model r) patch (w\<lparr>w_faults := fs\<rparr>) = (Inr x, w')"
  shows "has_admin_besides (ur_id r) (roles_of w) \<or>
    (up_enabled patch \<noteq> Some False \<and> (up_role patch = None \<or> up_role patch = Some RoleAdmin))"
proof (cases "ur_role r = RoleAdmin")
  case False
  obtain a where "a \<in> set (users w)" "ur_role a = RoleAdmin"
    using adm unfolding has_admin_iff by blast
  with False same_id_same_row [OF ok r] show ?thesis unfolding has_admin_besides_iff by blast
next
  case True
  show ?thesis
  proof (cases "up_enabled patch \<noteq> Some False \<and> (up_role patch = None \<or> up_role patch = Some RoleAdmin)")
    case False
    with True have "guard_last_admin_mutation (user_from_model r) patch = bnd count_admins (\<lambda>n. failif (n \<le> 1) ErrForbidden)"
      by (auto simp: guard_last_admin_mutation_def split: option.splits)
    with g obtain n w1 where "count_admins (w\<lparr>w_faults := fs\<rparr>) = (Inr n, w1)" and "\<not> n \<le> 1"
      by (auto elim!: bnd_InrE failif_InrE)
    then have "1 < length (filter (\<lambda>r. ur_role r = RoleAdmin) (users w))"
      unfolding count_admins_def by (auto elim!: db_gets_InrE)
    with two_admins [OF ok] show ?thesis by blast
  qed blast
qed

lemma role_change_keeps:
  "resp (keeps (\<lambda>w. has_admin_besides uid (roles_of w)))
     (store_update_user uid \<lparr>up_enabled = None, up_role = Some role, up_email = None\<rparr>)"
  "resp (keeps (\<lambda>w. has_admin (roles_of w)))
     (store_update_user uid \<lparr>up_enabled = None, up_role = Some RoleAdmin, up_email = None\<rparr>)"
proof -
  have a: "has_admin_besides uid (roles_of (set_users uid (\<lambda>r. r\<lparr>ur_role := role\<rparr>) w))"
    if "has_admin_besides uid (roles_of w)" for w
    using that by (force simp: has_admin_besides_def roles_of_def set_users_def set_update_where)
  have b: "has_admin (roles_of (set_users uid (\<lambda>r. r\<lparr>ur_role := RoleAdmin\<rparr>) w))"
    if "has_admin (roles_of w)" for w
    using that by (force simp: has_admin_def roles_of_def set_users_def set_update_where)
  show "resp (keeps (\<lambda>w. has_admin_besides uid (roles_of w)))
     (store_update_user uid \<lparr>up_enabled = None, up_role = Some role, up_email = None\<rparr>)"
    "resp (keeps (\<lambda>w. has_admin (roles_of w)))
     (store_update_user uid \<lparr>up_enabled = None, up_role = Some RoleAdmin, up_email = None\<rparr>)"
    unfolding store_update_user_def user_patch.simps option.case db_def
    by (intro resp_intros keeps_io, simp, simp add: a b)+
qed

lemma besides_has: "has_admin_besides uid rs \<Longrightarrow> has_admin rs"
  by (auto simp: has_admin_besides_def has_admin_def)

lemma normalize_admin: "normalize_role RoleAdmin = Inr RoleAdmin"
  by (simp add: normalize_role_def valid_role_def)

text \<open>The account update after the guard, as one operation.\<close>

definition update_rest :: "service \<Rightarrow> string \<Rightarrow> user \<Rightarrow> user_patch \<Rightarrow> admin_user auth_m" where
  "update_rest sv uid target patch =
     seqm (case up_email patch of None \<Rightarrow> ret () | Some e \<Rightarrow> admin_change_email sv target e)
     (seqm (case up_enabled patch of None \<Rightarrow> ret () | Some b \<Rightarrow> apply_enabled_patch uid b)
     (seqm (case up_role patch of None \<Rightarrow> ret () | Some raw \<Rightarrow> (case normalize_role raw of
          Inl e \<Rightarrow> throw e
        | Inr role \<Rightarrow> seqm (store_update_user uid \<lparr>up_enabled = None, up_role = Some role, up_email = None\<rparr>)
            (whenm (\<not> allows_web_login role) (ignore (admin_revoke_all_sessions uid)))))
      (admin_user_by_id uid)))"

lemma update_user_split: "update_user sv uid patch = bnd (get_user_by_id uid) (\<lambda>target.
     seqm (guard_last_admin_mutation target patch) (update_rest sv uid target patch))"
  by (simp add: update_user_def update_rest_def)

lemma update_rest_besides:
  "resp (keeps (\<lambda>w. has_admin_besides uid (roles_of w))) (update_rest sv uid target patch)"
  unfolding update_rest_def by (intro keeps_intros keeps_roles_steps role_change_keeps(1))

lemma update_rest_admin:
  assumes "up_role patch = None \<or> up_role patch = Some RoleAdmin"
  shows "resp (keeps (\<lambda>w. has_admin (roles_of w))) (update_rest sv uid target patch)"
proof (cases "up_role patch")
  case None
  show ?thesis
    unfolding update_rest_def None option.case
    by (intro keeps_intros keeps_roles_steps)
next
  case (Some role)
  with assms have "up_role patch = Some RoleAdmin" by simp
  then show ?thesis
    unfolding update_rest_def by (simp only: option.case normalize_admin sum.case)
      (intro keeps_intros keeps_roles_steps role_change_keeps(2))
qed

lemma get_user_by_id_fst_Inl: "get_user_by_id uid w = (Inl e, w') \<Longrightarrow> roles_of w' = roles_of w"
  by (auto simp: get_user_by_id_run)

lemma guard_roles: "roles_of (snd (guard_last_admin_mutation u patch w)) = roles_of w"
  using keeps_run [OF keeps_roles_reads(2) [where P = "\<lambda>rs. rs = roles_of w"], of w] by simp

lemma update_user_keeps_admin:
  assumes ok: "tables_ok w" and adm: "has_admin (roles_of w)"
  shows "has_admin (roles_of (snd (update_user sv uid patch w)))"
proof -
  obtain x w1 where g: "get_user_by_id uid w = (x, w1)" by fastforce
  show ?thesis
  proof (cases x)
    case (Inl e)
    with g adm show ?thesis by (simp add: update_user_split run_bnd get_user_by_id_fst_Inl)
  next
    case (Inr u)
    with g obtain r fs where r: "r \<in> set (users w)" "ur_id r = uid" "u = user_from_model r"
      and w1: "w1 = w\<lparr>w_faults := fs\<rparr>"
      by (auto elim: get_user_by_id_InrE)
    obtain y w2 where gu: "guard_last_admin_mutation u patch w1 = (y, w2)" by fastforce
    have roles2: "roles_of w2 = roles_of w" using guard_roles [of u patch w1] gu w1 by simp
    show ?thesis
    proof (cases y)
      case (Inl e)
      with g Inr gu roles2 adm show ?thesis by (simp add: update_user_split run_bnd run_seqm)
    next
      case y: (Inr z)
      have run: "snd (update_user sv uid patch w) = snd (update_rest sv uid u patch w2)"
        using g Inr gu y by (simp add: update_user_split run_bnd run_seqm)
      have "has_admin_besides uid (roles_of w2) \<or> (up_role patch = None \<or> up_role patch = Some RoleAdmin)"
        using guard_passed [OF ok adm r(1), of patch fs z w2] gu y r w1 roles2 by auto
      then show ?thesis
      proof
        assume "has_admin_besides uid (roles_of w2)"
        from keeps_run [OF update_rest_besides this] show ?thesis unfolding run by (rule besides_has)
      next
        assume "up_role patch = None \<or> up_role patch = Some RoleAdmin"
        from keeps_run [OF update_rest_admin [OF this]] adm roles2 show ?thesis unfolding run by simp
      qed
    qed
  qed
qed

lemma delete_user_keeps_admin:
  assumes ok: "tables_ok w" and adm: "has_admin (roles_of w)"
  shows "has_admin (roles_of (snd (delete_user uid w)))"
proof -
  let ?patch = "\<lparr>up_enabled = Some False, up_role = None, up_email = None\<rparr>"
  obtain x w1 where g: "get_user_by_id uid w = (x, w1)" by fastforce
  show ?thesis
  proof (cases x)
    case (Inl e)
    with g adm show ?thesis by (simp add: delete_user_def run_bnd get_user_by_id_fst_Inl)
  next
    case (Inr u)
    with g obtain r fs where r: "r \<in> set (users w)" "ur_id r = uid" "u = user_from_model r"
      and w1: "w1 = w\<lparr>w_faults := fs\<rparr>"
      by (auto elim: get_user_by_id_InrE)
    obtain y w2 where gu: "guard_last_admin_mutation u ?patch w1 = (y, w2)" by fastforce
    have roles2: "roles_of w2 = roles_of w" using guard_roles [of u ?patch w1] gu w1 by simp
    show ?thesis
    proof (cases "usr_enabled u \<or> isl y")
      case True
      with g Inr gu roles2 adm w1 show ?thesis
        by (cases y) (auto simp: delete_user_def run_bnd run_seqm)
    next
      case False
      then obtain z where y: "y = Inr z" by (cases y) auto
      have run: "snd (delete_user uid w) = snd (store_delete_user uid w2)"
        using g Inr gu y False by (simp add: delete_user_def run_bnd run_seqm)
      have b: "has_admin_besides uid (roles_of w2)"
        using guard_passed [OF ok adm r(1), of ?patch fs z w2] gu y r w1 roles2 by auto
      have "resp (keeps (\<lambda>w. has_admin_besides uid (roles_of w))) (store_delete_user uid)"
        unfolding store_delete_user_def db_def
        by (rule keeps_io) (auto simp: has_admin_besides_def roles_of_def)
      from keeps_run [OF this b] show ?thesis unfolding run by (rule besides_has)
    qed
  qed
qed

text \<open>C22. Updating or deleting an account, whatever the patch, the outcome and the failures, never
removes the last account with the admin role.\<close>

theorem last_admin_row_kept:
  assumes "tables_ok w" and "\<exists>r \<in> set (users w). ur_role r = RoleAdmin"
  shows "(\<exists>r \<in> set (users (snd (update_user sv uid patch w))). ur_role r = RoleAdmin) \<and>
    (\<exists>r \<in> set (users (snd (delete_user uid w))). ur_role r = RoleAdmin)"
  using update_user_keeps_admin delete_user_keeps_admin assms unfolding has_admin_iff by blast

lemma last_admin_row_kept_witness:
  "\<exists>r \<in> set (users (snd (delete_user ''u1'' demo_world))). ur_role r = RoleAdmin"
  using last_admin_row_kept [OF demo_world_ok, of demo_service] by (force simp: demo_world_def demo_user_def)

section \<open>Disabling an account\<close>

abbreviation disable_patch :: user_patch where
  "disable_patch \<equiv> \<lparr>up_enabled = Some False, up_role = None, up_email = None\<rparr>"

lemma admin_user_by_id_tables:
  assumes "admin_user_by_id uid w = (Inr a, w')"
  shows "users w' = users w" and "sessions w' = sessions w"
  using assms
  by (auto simp: admin_user_by_id_def list_users_def pending_invite_emails_def store_list_users_def
      store_list_pending_invites_def elim!: bnd_InrE db_gets_InrE split: option.splits)

text \<open>Disabling an account that is not the last admin locks it out at once: its sessions are gone,
its row is disabled, and no request of any session passes the check for it afterwards, while the
sessions of all other accounts stay.\<close>

lemma disabling_locks_out:
  assumes "update_user sv uid disable_patch w = (Inr a, w')"
  shows "sessions w' = filter (\<lambda>s. ses_user s \<noteq> uid) (sessions w) \<and>
    users w' = update_where (\<lambda>r. ur_id r = uid) (\<lambda>r. r\<lparr>ur_enabled := False\<rparr>) (users w) \<and>
    (\<forall>sid. fst (authorizer sid uid w') \<noteq> Inr True)"
proof -
  from assms obtain u w1 z w2 x w3 where g: "get_user_by_id uid w = (Inr u, w1)"
    and gu: "guard_last_admin_mutation u disable_patch w1 = (Inr z, w2)"
    and ap: "apply_enabled_patch uid False w2 = (Inr x, w3)" and l: "admin_user_by_id uid w3 = (Inr a, w')"
    by (auto simp: update_user_def elim!: bnd_InrE seqm_InrE)
  from g obtain fs where w1: "w1 = w\<lparr>w_faults := fs\<rparr>" by (rule get_user_by_id_InrE)
  from gu obtain fs2 where w2: "w2 = w\<lparr>w_faults := fs2\<rparr>"
    unfolding w1 guard_last_admin_mutation_def count_admins_def Let_def
    by (auto split: if_splits elim!: bnd_InrE failif_InrE db_gets_InrE)
  from ap have w3: "sessions w3 = filter (\<lambda>s. ses_user s \<noteq> uid) (sessions w)"
    "users w3 = update_where (\<lambda>r. ur_id r = uid) (\<lambda>r. r\<lparr>ur_enabled := False\<rparr>) (users w)"
    unfolding w2 apply_enabled_patch_def delete_all_sessions_by_user_def delete_sessions_def store_update_user_def
    by (auto elim!: seqm_InrE db_modify_InrE simp: set_users_def delete_where_def)
  have fin: "sessions w' = filter (\<lambda>s. ses_user s \<noteq> uid) (sessions w)"
    "users w' = update_where (\<lambda>r. ur_id r = uid) (\<lambda>r. r\<lparr>ur_enabled := False\<rparr>) (users w)"
    using admin_user_by_id_tables [OF l] w3 by simp_all
  then have "\<not> session_valid w' sid uid" for sid
    by (auto simp: session_valid_def set_update_where)
  with authorizer_True fin show ?thesis by blast
qed

lemmas demo_admin = update_user_def guard_last_admin_mutation_def count_admins_def apply_enabled_patch_def
  store_update_user_def admin_user_by_id_def list_users_def store_list_users_def pending_invite_emails_def
  admin_row_def asc_by_def desc_by_def derive_user_status_def

definition demo_world_admins :: auth_world where
  "demo_world_admins = demo_world\<lparr>users := [demo_user ''u1'' ''ann@x.org'' RoleAdmin True,
     demo_user ''u2'' ''bob@x.org'' RoleAdmin True]\<rparr>"

lemma demo_disable:
  "\<exists>a w'. update_user demo_service ''u1'' disable_patch demo_world_admins = (Inr a, w') \<and>
     users w' = [demo_user ''u1'' ''ann@x.org'' RoleAdmin False, demo_user ''u2'' ''bob@x.org'' RoleAdmin True] \<and>
     w_faults w' = []"
  by (simp add: demo_world_admins_def demo_admin demo_run)

lemma disabling_locks_out_witness:
  "\<exists>a w'. update_user demo_service ''u1'' disable_patch demo_world_admins = (Inr a, w') \<and> sessions w' = []"
proof -
  obtain a w' where v: "update_user demo_service ''u1'' disable_patch demo_world_admins = (Inr a, w')"
    using demo_disable by blast
  then show ?thesis
    using disabling_locks_out [OF v] by (simp add: demo_world_admins_def demo_world_def)
qed

section \<open>Where the code departs from its documents\<close>


text \<open>A TV account, which the login form refuses, is given a session and both tokens by the
password grant of the OAuth token endpoint.\<close>

lemma password_grant_admits_tv:
  "fst (login demo_service ''tv@x.org'' ''pw'' demo_meta demo_world) = Inl ErrTVWebAuth \<and>
   (\<exists>out w'. login_with_totp demo_service ''tv@x.org'' ''pw'' [] demo_meta demo_world = (Inr out, w') \<and>
      lo_status out = ''ok'' \<and> lo_access out = ''jwt'' \<and>
      (\<exists>s \<in> set (sessions w'). ses_user s = ''u2''))"
  by (simp add: login_def login_with_totp_def reject_if_invite_pending_def login_after_password_def
      issue_login_outcome_def default_settings_def allows_web_login_def demo_meta_def demo_run)

end
