(* ===== verification/AuthRecovery.thy ===== *)
theory AuthRecovery
  imports AuthAdminSafety
begin

text \<open>
  Properties of backup codes and invites: the codes handed out at enrolment are well formed and each
  of them is accepted, and an invite leaves exactly one working link for its address.
\<close>

section \<open>Backup codes\<close>

lemma random_index_InrE:
  assumes "random_index w = (Inr i, w')"
  shows "i < length backup_code_alphabet" and "w_faults w' = w_faults w"
  using assms unfolding random_index_def
  by (auto elim!: bnd_InrE draw_InrE split: list.splits simp: backup_code_alphabet_def)

lemma random_chars_InrE:
  assumes "random_chars n w = (Inr cs, w')"
  shows "length cs = n \<and> set cs \<subseteq> set backup_code_alphabet \<and> w_faults w' = w_faults w"
  using assms
proof (induction n arbitrary: cs w w')
  case 0
  then show ?case by simp
next
  case (Suc n)
  then obtain i w1 cs1 where i: "random_index w = (Inr i, w1)" and cs: "random_chars n w1 = (Inr cs1, w')"
    and eq: "cs = backup_code_alphabet ! i # cs1"
    by (auto elim!: bnd_InrE)
  have "backup_code_alphabet ! i \<in> set backup_code_alphabet"
    using random_index_InrE(1) [OF i] by (rule nth_mem)
  then show ?case
    using Suc.IH [OF cs] random_index_InrE(2) [OF i] eq by simp
qed

lemma alphabet_plain:
  "list_all (\<lambda>c. \<not> is_space c \<and> upper_char c = c) backup_code_alphabet"
  by code_simp

lemma backup_code_normal:
  assumes "set cs \<subseteq> set backup_code_alphabet"
  shows "to_upper (trim_space cs) = cs"
proof -
  have p: "\<not> is_space c" "upper_char c = c" if "c \<in> set cs" for c
    using that assms alphabet_plain by (auto simp: list_all_iff)
  have d: "dropWhile is_space xs = xs" if "\<forall>c \<in> set xs. \<not> is_space c" for xs
    using that by (cases xs) auto
  have "trim_space cs = cs"
    using d [of cs] d [of "rev cs"] p(1)
    by (simp add: trim_space_def trim_both_def trim_left_def trim_right_def)
  moreover have "map upper_char cs = cs"
    by (rule map_idI) (rule p(2))
  ultimately show ?thesis by (simp add: to_upper_def)
qed

lemma backup_codes_InrE:
  assumes "backup_codes sv n w = (Inr ps, w')"
  shows "length ps = n \<and> w_faults w' = w_faults w \<and> (\<forall>(code, h) \<in> set ps. length code = backup_code_length \<and>
     set code \<subseteq> set backup_code_alphabet \<and> (\<exists>salt. sv_bcrypt sv salt code = Some h))"
  using assms
proof (induction n arbitrary: ps w w')
  case 0
  then show ?case by simp
next
  case (Suc n)
  then obtain code w1 h w2 rest where c: "random_chars backup_code_length w = (Inr code, w1)"
    and h: "hash_password sv code w1 = (Inr h, w2)" and r: "backup_codes sv n w2 = (Inr rest, w')"
    and eq: "ps = (code, h) # rest"
    by (auto elim!: bnd_InrE simp: random_backup_code_def)
  from h obtain salt where "sv_bcrypt sv salt code = Some h" "w_faults w2 = w_faults w1"
    by (auto elim!: hash_password_InrE)
  then show ?case using Suc.IH [OF r] random_chars_InrE [OF c] eq by auto
qed

text \<open>A code that matches some unused hash is accepted and its position is consumed.\<close>

lemma backup_loop_accepts:
  assumes "w_faults w = []" and "find (\<lambda>t. tr_user t = uid \<and> tr_enabled_at t \<noteq> None) (totps w) = Some t"
    and "hs = drop k (tr_backup t)" and "\<exists>h \<in> set hs. h \<noteq> [] \<and> sv_bcrypt_ok sv h code"
  shows "\<exists>w'. backup_loop sv uid code (int k) hs w = (Inr True, w')"
  using assms(3,4)
proof (induction hs arbitrary: k)
  case Nil
  then show ?case by simp
next
  case (Cons h hs)
  have k: "k < length (tr_backup t)"
    using Cons.prems(1) by (metis drop_all list.distinct(1) not_le)
  show ?case
  proof (cases "h \<noteq> [] \<and> sv_bcrypt_ok sv h code")
    case True
    then show ?thesis
      using assms(1,2) k by (auto simp: run_seqm consume_backup_code_def run_bnd get_user_totp_def db_def
          io_call_no_fault)
  next
    case False
    have "hs = drop (Suc k) (tr_backup t)"
      using Cons.prems(1) by (metis drop_Suc list.sel(3) tl_drop)
    moreover have "\<exists>h \<in> set hs. h \<noteq> [] \<and> sv_bcrypt_ok sv h code"
      using False Cons.prems(2) by auto
    ultimately have "\<exists>w'. backup_loop sv uid code (int (Suc k)) hs w = (Inr True, w')"
      by (rule Cons.IH)
    then show ?thesis using False by (auto simp: add.commute)
  qed
qed

lemma find_updated:
  assumes "\<exists>x \<in> set xs. P x" and "\<And>x. P x \<Longrightarrow> P t" and "Q t" and "\<And>x. Q x \<Longrightarrow> P x"
  shows "find Q (update_where P (\<lambda>_. t) xs) = Some t"
  using assms by (induction xs) (auto simp: update_where_def)

text \<open>What the code asks of the password hash: a hash verifies its password and is not empty.\<close>

definition lawful_hash :: "service \<Rightarrow> bool" where
  "lawful_hash sv \<longleftrightarrow> (\<forall>salt pw h. sv_bcrypt sv salt pw = Some h \<longrightarrow> h \<noteq> [] \<and> sv_bcrypt_ok sv h pw)"

lemma upsert_totp_finds:
  assumes "upsert_totp t w = (Inr x, w')" and "tr_enabled_at t \<noteq> None"
  shows "find (\<lambda>r. tr_user r = tr_user t \<and> tr_enabled_at r \<noteq> None) (totps w') = Some t"
proof -
  from assms(1) obtain fs where w': "totps w' = (if \<exists>x \<in> set (totps w). tr_user x = tr_user t
        then update_where (\<lambda>x. tr_user x = tr_user t) (\<lambda>_. t) (totps w) else totps w @ [t])"
    unfolding upsert_totp_def by (elim db_InrE) (auto split: if_splits)
  show ?thesis
  proof (cases "\<exists>x \<in> set (totps w). tr_user x = tr_user t")
    case True
    then show ?thesis
      unfolding w' if_P [OF True] by (intro find_updated) (use assms(2) in auto)
  next
    case False
    then have "find (\<lambda>r. tr_user r = tr_user t \<and> tr_enabled_at r \<noteq> None) (totps w) = None"
      by (auto simp: find_None_iff)
    then have "find (\<lambda>r. tr_user r = tr_user t \<and> tr_enabled_at r \<noteq> None) (totps w @ [t]) = Some t"
      using assms(2) by (simp add: find_snoc)
    then show ?thesis unfolding w' if_not_P [OF False] .
  qed
qed

text \<open>Enrolment hands out eight backup codes of eight characters of the backup alphabet, and each
of them is then accepted as the second factor of the account.\<close>

lemma backup_codes_accepted:
  assumes "lawful_hash sv" and "confirm_two_factor_setup sv uid otp w = (Inr codes, w')" and "w_faults w = []"
  shows "length codes = 8 \<and> (\<forall>code \<in> set codes. looks_like_backup_code code \<and>
    (\<exists>w''. require_user_totp sv uid code w' = (Inr (), w'')))"
proof -
  from assms(2) obtain enc secret w1 w2 hashes where
    enc: "sv_decrypt sv enc = Some secret" and p: "get_pending_totp_secret uid w = (Inr enc, w1)"
    and g: "generate_backup_codes sv w1 = (Inr (codes, hashes), w2)"
    and en: "enable_user_totp uid enc hashes w2 = (Inr (), w')"
    unfolding confirm_two_factor_setup_def
    by (auto elim!: bnd_InrE seqm_InrE split: if_splits option.splits)
  from g obtain ps where ps: "backup_codes sv 8 w1 = (Inr ps, w2)" "codes = map fst ps" "hashes = map snd ps"
    by (auto simp: generate_backup_codes_def backup_code_count_def elim!: bnd_InrE)
  note bc = backup_codes_InrE [OF ps(1)]
  have f1: "w_faults w1 = []"
    using p assms(3) unfolding get_pending_totp_secret_def by (auto elim!: db_gets_InrE)
  let ?t = "\<lambda>now. \<lparr>tr_user = uid, tr_secret = enc, tr_enabled_at = Some now, tr_backup = hashes\<rparr>"
  from en obtain now where up: "upsert_totp (?t now) w2 = (Inr (), w')"
    by (auto simp: enable_user_totp_def elim!: bnd_InrE)
  have f': "w_faults w' = []"
    using up bc f1 unfolding upsert_totp_def by (elim db_InrE) (auto split: if_splits)
  have find: "find (\<lambda>r. tr_user r = uid \<and> tr_enabled_at r \<noteq> None) (totps w') = Some (?t now)"
    using upsert_totp_finds [OF up] by simp
  have "looks_like_backup_code code \<and> (\<exists>w''. require_user_totp sv uid code w' = (Inr (), w''))"
    if "code \<in> set codes" for code
  proof -
    from that ps obtain h where h: "(code, h) \<in> set ps" by force
    with bc obtain salt where code: "length code = backup_code_length" "set code \<subseteq> set backup_code_alphabet"
      and salt: "sv_bcrypt sv salt code = Some h" by blast
    have normal: "to_upper (trim_space code) = code" using code(2) by (rule backup_code_normal)
    have looks: "looks_like_backup_code code"
      using code normal by (auto simp: looks_like_backup_code_def list_all_iff)
    have "code \<noteq> []" using code(1) by (auto simp: backup_code_length_def)
    with normal have trim: "trim_space code \<noteq> []" by (auto simp: to_upper_def)
    have "\<exists>h \<in> set hashes. h \<noteq> [] \<and> sv_bcrypt_ok sv h code"
      using h salt assms(1) ps(3) by (force simp: lawful_hash_def)
    then have "\<exists>w''. backup_loop sv uid code (int 0) hashes w' = (Inr True, w'')"
      by (intro backup_loop_accepts [where t = "?t now"] f' find) simp_all
    moreover have "get_user_totp uid w' = (Inr \<lparr>totp_user = uid, totp_secret = enc, totp_enabled_at = now,
        totp_backup = hashes\<rparr>, w')"
      using f' find by (simp add: get_user_totp_def db_def io_call_no_fault)
    ultimately show ?thesis
      using looks enc trim normal
      by (auto simp: require_user_totp_def run_bnd verify_two_factor_code_def validate_backup_code_def)
  qed
  moreover have "length codes = 8" using bc ps(2) by simp
  ultimately show ?thesis by blast
qed

definition demo_world_enrol :: auth_world where
  "demo_world_enrol = demo_world\<lparr>w_rand := replicate 72 ''A'',
     totps := [\<lparr>tr_user = ''u1'', tr_secret = ''e:key'', tr_enabled_at = None, tr_backup = []\<rparr>]\<rparr>"

lemma lawful_hash_demo: "lawful_hash demo_service"
  by (simp add: lawful_hash_def)

lemma demo_enrol:
  "\<exists>codes w'. confirm_two_factor_setup demo_service ''u1'' ''123456'' demo_world_enrol = (Inr codes, w')"
  by (simp add: confirm_two_factor_setup_def demo_world_enrol_def get_pending_totp_secret_def
      validate_totp_code_def generate_backup_codes_def backup_code_count_def random_backup_code_def
      backup_code_length_def random_index_def enable_user_totp_def upsert_totp_def eval_nat_numeral demo_run)

lemma backup_codes_accepted_witness:
  "\<exists>codes w'. confirm_two_factor_setup demo_service ''u1'' ''123456'' demo_world_enrol = (Inr codes, w') \<and>
     length codes = 8"
proof -
  obtain codes w' where v: "confirm_two_factor_setup demo_service ''u1'' ''123456'' demo_world_enrol = (Inr codes, w')"
    using demo_enrol by blast
  then show ?thesis
    using backup_codes_accepted [OF lawful_hash_demo v] by (simp add: demo_world_enrol_def demo_world_def)
qed

section \<open>Invites\<close>

lemma create_user_InrE:
  assumes "store_create_user u h w = (Inr x, w')"
  obtains i where "users w' = users w @ [\<lparr>ur_id = i, ur_email = usr_email u, ur_hash = h,
       ur_role = usr_role u, ur_enabled = usr_enabled u, ur_verified_at = None,
       ur_must_change = usr_must_change u, ur_last_login = None, ur_created = w_now w\<rparr>]"
    and "tokens w' = tokens w" and "outbox w' = outbox w" and "w_now w' = w_now w"
  using assms unfolding store_create_user_def
  by (elim db_InrE bnd_InrE draw_InrE) (auto split: if_splits intro: that)

lemma stub_user_InrE:
  assumes "ensure_invite_stub_user sv email role w = (Inr uid, w')"
  obtains r where "r \<in> set (users w')" and "ur_id r = uid" and "ur_email r = email"
    and "tokens w' = tokens w" and "outbox w' = outbox w" and "w_now w' = w_now w"
proof -
  obtain x w1 where g: "get_user_by_email email w = (x, w1)" by fastforce
  then have w1: "\<exists>fs. w1 = w\<lparr>w_faults := fs\<rparr>"
    by (auto simp: get_user_by_email_def find_user_def db_def io_call_def Let_def
        split: if_splits option.splits)
  show thesis
  proof (cases x)
    case (Inr p)
    with g obtain r where "r \<in> set (users w)" "ur_email r = email" "fst p = user_from_model r"
      unfolding get_user_by_email_def by (auto elim: find_user_InrE)
    with assms g Inr w1 show thesis
      by (auto simp: ensure_invite_stub_user_def run_bnd [of "attempt _"] store_list_pending_invites_def
          elim!: bnd_InrE db_gets_InrE split: if_splits prod.splits intro!: that [of r])
  next
    case (Inl e)
    let ?u = "\<lparr>usr_id = [], usr_email = email, usr_role = role, usr_enabled = False,
      usr_verified_at = None, usr_must_change = False\<rparr>"
    from assms g Inl obtain h w2 y w3 p w4 where h: "unusable_password_hash sv w1 = (Inr h, w2)"
      and c: "store_create_user ?u h w2 = (Inr y, w3)" and l: "get_user_by_email email w3 = (Inr p, w4)"
      and fin: "uid = usr_id (fst p)" "w' = w4"
      by (auto simp: ensure_invite_stub_user_def run_bnd [of "attempt _"] elim!: bnd_InrE seqm_InrE
          split: prod.splits)
    from l obtain r fs where "r \<in> set (users w3)" "ur_email r = email" "fst p = user_from_model r"
      "w4 = w3\<lparr>w_faults := fs\<rparr>"
      unfolding get_user_by_email_def by (auto elim: find_user_InrE)
    moreover have "tokens w2 = tokens w \<and> outbox w2 = outbox w \<and> w_now w2 = w_now w"
      using h w1 by (auto simp: unusable_password_hash_def elim!: bnd_InrE draw_InrE hash_password_InrE)
    ultimately show thesis
      using c fin by (auto elim!: create_user_InrE intro!: that [of r])
  qed
qed

lemma create_auth_token_InrE:
  assumes "create_auth_token t w = (Inr x, w')"
  obtains i where "tokens w' = tokens w @ [t\<lparr>tok_id := i, tok_used := None, tok_created := w_now w\<rparr>]"
    and "users w' = users w" and "outbox w' = outbox w" and "w_now w' = w_now w"
  using assms unfolding create_auth_token_def
  by (elim db_InrE bnd_InrE draw_InrE) (auto split: if_splits intro: that)

text \<open>An invite that is answered leaves exactly one working invite link for its (normalised)
address: the link in the mail just sent, for an account of this address, with the requested role,
which is never the TV role, and the requested lifetime; every earlier invite of the address is
used up.\<close>

lemma create_invite_one_link:
  assumes "create_invite sv raw_email raw_role inviter ttl w = (Inr (), w')"
  shows "\<exists>t role link. normalize_role raw_role = Inr role \<and> role \<noteq> RoleTV \<and> t \<in> set (tokens w') \<and>
    tok_email t = norm_email raw_email \<and> tok_purpose t = PInvite \<and> tok_used t = None \<and> tok_role t = role \<and>
    tok_hash t = sv_sha sv link \<and> tok_expires t = w_now w + (if ttl \<le> 0 then sv_invite_ttl sv else ttl) \<and>
    (\<exists>r \<in> set (users w'). ur_id r = tok_user t \<and> ur_email r = norm_email raw_email) \<and>
    (\<forall>t' \<in> set (tokens w'). tok_email t' = norm_email raw_email \<and> tok_purpose t' = PInvite \<and>
       tok_used t' = None \<longrightarrow> t' = t) \<and>
    (\<exists>m. outbox w' = outbox w @ [m] \<and> mail_to m = norm_email raw_email \<and>
       mail_link m = sv_base_url sv @ ''/accept-invite?token='' @ link)"
proof -
  let ?e = "norm_email raw_email" and ?ttl = "if ttl \<le> 0 then sv_invite_ttl sv else ttl"
  from assms obtain role uid w1 where role: "normalize_role raw_role = Inr role" "role \<noteq> RoleTV"
    and s: "ensure_invite_stub_user sv ?e role w = (Inr uid, w1)"
    and i: "issue_invite_token sv uid ?e role inviter ?ttl w1 = (Inr (), w')"
    unfolding create_invite_def Let_def by (auto elim!: bnd_InrE split: if_splits sum.splits)
  from s obtain r where r: "r \<in> set (users w1)" "ur_id r = uid" "ur_email r = ?e"
    and w1: "tokens w1 = tokens w" "outbox w1 = outbox w" "w_now w1 = w_now w"
    by (rule stub_user_InrE)
  from i obtain link rs y w3 z w4 where inv: "invalidate_unused_tokens ?e PInvite (w1\<lparr>w_rand := rs\<rparr>) = (Inr y, w3)" and c0: "create_auth_token
        (mk_token uid ?e PInvite (sv_sha sv link) (w_now w3 + ?ttl)\<lparr>tok_role := role, tok_invited_by := inviter\<rparr>) w3 = (Inr z, w4)"
    and m: "send_invite_email sv ?e link w4 = (Inr (), w')"
    unfolding issue_invite_token_def
    by (auto elim!: bnd_InrE seqm_InrE new_session_token_InrE split: prod.splits)
  from inv have w3: "users w3 = users w1" "outbox w3 = outbox w" "w_now w3 = w_now w"
    and used: "\<forall>t \<in> set (tokens w3). \<not> (tok_email t = ?e \<and> tok_purpose t = PInvite \<and> tok_used t = None)"
    using w1 unfolding invalidate_unused_tokens_def
    by (auto elim!: db_modify_InrE simp: set_update_where)
  let ?t = "(mk_token uid ?e PInvite (sv_sha sv link) (w_now w + ?ttl))\<lparr>tok_role := role, tok_invited_by := inviter\<rparr>"
  from c0 w3(3) have c: "create_auth_token ?t w3 = (Inr z, w4)" by simp
  then obtain i where w4: "tokens w4 = tokens w3 @ [?t\<lparr>tok_id := i, tok_used := None, tok_created := w_now w3\<rparr>]"
    "users w4 = users w3" "outbox w4 = outbox w3"
    by (rule create_auth_token_InrE)
  from m have w': "tokens w' = tokens w4" "users w' = users w4"
    "\<exists>m. outbox w' = outbox w4 @ [m] \<and> mail_to m = ?e \<and> mail_link m = sv_base_url sv @ ''/accept-invite?token='' @ link"
    unfolding send_invite_email_def send_mail_def by (auto elim!: io_call_InrE)
  show ?thesis
    using role r w' w4 w3 used
    by (intro exI [of _ "?t\<lparr>tok_id := i, tok_used := None, tok_created := w_now w3\<rparr>"] exI [of _ role]
        exI [of _ link]) (auto simp: mk_token_def)
qed

lemma norm_email_new: "norm_email '' New@X.org '' = ''new@x.org''"
  by code_simp

definition demo_world_invite :: auth_world where
  "demo_world_invite = demo_world\<lparr>w_rand := [''r1'', ''r2'', ''r3'', ''r4'', ''r5'', ''r6'']\<rparr>"

lemma demo_invite:
  "\<exists>w'. create_invite demo_service '' New@X.org '' ''user'' ''u1'' 0 demo_world_invite = (Inr (), w')"
  by (simp add: create_invite_def norm_email_new normalize_role_def valid_role_def Let_def
      ensure_invite_stub_user_def unusable_password_hash_def store_create_user_def issue_invite_token_def
      invalidate_unused_tokens_def send_invite_email_def send_mail_def demo_world_invite_def demo_tables
      demo_store hash_password_def draw_def new_session_token_def run_simps)

lemma create_invite_one_link_witness:
  "\<exists>w'. create_invite demo_service '' New@X.org '' ''user'' ''u1'' 0 demo_world_invite = (Inr (), w') \<and>
     (\<exists>t \<in> set (tokens w'). tok_purpose t = PInvite \<and> tok_role t = RoleUser)"
proof -
  obtain w' where v: "create_invite demo_service '' New@X.org '' ''user'' ''u1'' 0 demo_world_invite = (Inr (), w')"
    using demo_invite by blast
  then show ?thesis
    using create_invite_one_link [OF v] by (auto simp: normalize_role_def valid_role_def)
qed

end
