(* ===== verification/Watch.thy ===== *)
theory Watch
  imports AccessService
begin

text \<open>
  Watch state and playback progress: \<open>internal/watch\<close> and its store \<open>internal/watch/postgres\<close>, on the
  \<open>watches\<close> table of the access world (removing a root or a library removes its rows there). Seconds
  are rationals for \<open>float64\<close>. The checks for an unconfigured service are the two flags of
  \<open>watch_wiring\<close>. Text is ASCII.
\<close>

section \<open>Types\<close>

datatype watch_err = WatchInvalidPath | WatchUnknownLibrary | WatchStoreUnavailable | WatchDbError

type_synonym 'a watch_m = "(access_world, watch_err, 'a) m"

record watch_wiring =
  ww_store :: bool
  ww_access :: bool

record watch_state =
  ws_watched :: bool
  ws_position :: "rat option"
  ws_duration :: "rat option"

record watch_patch =
  pt_watched :: "bool option"
  pt_position :: "rat option"
  pt_duration :: "rat option"

definition zero_state :: watch_state where
  "zero_state = \<lparr>ws_watched = False, ws_position = None, ws_duration = None\<rparr>"

section \<open>Progress\<close>

definition is_complete :: "rat \<Rightarrow> rat \<Rightarrow> bool" where
  "is_complete position duration =
     (if duration \<le> 0 \<or> position < 0 then False
      else if position / duration \<ge> 9 / 10 then True
      else duration - position \<le> 30)"

definition should_save_progress :: "rat \<Rightarrow> bool" where
  "should_save_progress position \<longleftrightarrow> position \<ge> 10"

definition has_progress :: "watch_state \<Rightarrow> bool" where
  "has_progress s \<longleftrightarrow> \<not> ws_watched s \<and>
     (case ws_position s of None \<Rightarrow> False | Some p \<Rightarrow> should_save_progress p)"

definition deref_seconds :: "rat option \<Rightarrow> rat" where
  "deref_seconds v = (case v of None \<Rightarrow> 0 | Some x \<Rightarrow> x)"

definition merge_watch_patch :: "watch_state \<Rightarrow> watch_patch \<Rightarrow> watch_state" where
  "merge_watch_patch current p =
     (let n1 = (if pt_position p \<noteq> None then current\<lparr>ws_position := pt_position p\<rparr> else current);
          n2 = (if pt_duration p \<noteq> None then n1\<lparr>ws_duration := pt_duration p\<rparr> else n1);
          n3 = (if pt_watched p = Some True then n2\<lparr>ws_watched := True\<rparr> else n2)
      in if is_complete (deref_seconds (ws_position n3)) (deref_seconds (ws_duration n3))
         then n3\<lparr>ws_watched := True\<rparr> else n3)"

definition skip_progress_write :: "watch_state \<Rightarrow> watch_state \<Rightarrow> bool" where
  "skip_progress_write current next \<longleftrightarrow> \<not> ws_watched next \<and>
     \<not> should_save_progress (deref_seconds (ws_position next)) \<and> \<not> ws_watched current \<and>
     ws_position current = None"

section \<open>Paths\<close>

text \<open>The decoding loop ends: a round that changes the text makes it shorter.\<close>

function unescape_all :: "string \<Rightarrow> string" where
  "unescape_all s = (case path_unescape s of None \<Rightarrow> s | Some t \<Rightarrow> if t = s then s else unescape_all t)"
  by pat_completeness auto

lemma path_unescape_progress: "path_unescape s = Some t \<Longrightarrow> t \<noteq> s \<Longrightarrow> length t < length s"
  using path_unescape_id path_unescape_shrinks by fastforce

termination unescape_all
  by (relation "measure length") (simp_all add: path_unescape_progress)

declare unescape_all.simps [simp del]

definition normalize_media_path :: "string \<Rightarrow> string" where
  "normalize_media_path raw = unescape_all (trim_prefix (trim_space raw) ''/'')"

definition path_escape_segments :: "string \<Rightarrow> string" where
  "path_escape_segments rel = join_on CHR ''/'' (map path_escape (split_on CHR ''/'' rel))"

section \<open>The store\<close>

definition wdb :: "'a watch_m \<Rightarrow> 'a watch_m" where
  "wdb f = io_call WatchDbError f"

definition watch_key :: "string \<Rightarrow> string \<Rightarrow> string \<Rightarrow> watch_row \<Rightarrow> bool" where
  "watch_key uid lib path r \<longleftrightarrow> mr_user r = uid \<and> mr_lib r = lib \<and> mr_path r = path"

definition model_to_state :: "watch_row \<Rightarrow> watch_state" where
  "model_to_state r = \<lparr>ws_watched = wr_watched r, ws_position = wr_position r, ws_duration = wr_duration r\<rparr>"

definition wstore_get :: "string \<Rightarrow> string \<Rightarrow> string \<Rightarrow> watch_state watch_m" where
  "wstore_get uid lib path = wdb (gets (\<lambda>w. case find (watch_key uid lib path) (watches w) of
     None \<Rightarrow> zero_state | Some r \<Rightarrow> model_to_state r))"

text \<open>\<open>INSERT ... ON CONFLICT DO UPDATE\<close>; an unknown user or library violates a foreign key.\<close>

definition wstore_upsert :: "string \<Rightarrow> string \<Rightarrow> string \<Rightarrow> watch_state \<Rightarrow> unit watch_m" where
  "wstore_upsert uid lib path st = wdb (\<lambda>w. let now = w_now w in
     if \<exists>r \<in> set (watches w). watch_key uid lib path r
     then (Inr (), w\<lparr>watches := update_where (watch_key uid lib path)
       (\<lambda>r. r\<lparr>wr_watched := ws_watched st, wr_position := ws_position st, wr_duration := ws_duration st,
              wr_updated_at := now,
              wr_watched_at := (if ws_watched st then now else wr_watched_at r)\<rparr>) (watches w)\<rparr>)
     else if uid \<notin> set (accounts w) \<or> lib \<notin> lr_id ` set (libs w) then (Inl WatchDbError, w)
     else (Inr (), w\<lparr>watches := watches w @ [\<lparr>mr_user = uid, mr_lib = lib, mr_path = path,
       wr_watched = ws_watched st, wr_position = ws_position st, wr_duration = ws_duration st,
       wr_watched_at = now, wr_updated_at = now\<rparr>]\<rparr>))"

definition wstore_clear :: "string \<Rightarrow> string \<Rightarrow> string \<Rightarrow> unit watch_m" where
  "wstore_clear uid lib path = wdb (modify (\<lambda>w.
     w\<lparr>watches := delete_where (watch_key uid lib path) (watches w)\<rparr>))"

text \<open>The result map as the list of its entries.\<close>

definition wstore_list_for_paths :: "string \<Rightarrow> string \<Rightarrow> string list \<Rightarrow> (string \<times> bool) list watch_m" where
  "wstore_list_for_paths uid lib paths = (if paths = [] then ret []
     else wdb (gets (\<lambda>w. map (\<lambda>r. (mr_path r, wr_watched r))
       (filter (\<lambda>r. mr_user r = uid \<and> mr_lib r = lib \<and> wr_watched r \<and> mr_path r \<in> set paths) (watches w)))))"

definition wstore_list_rows :: "string \<Rightarrow> string list \<Rightarrow> int \<Rightarrow> int \<Rightarrow> (watch_row \<Rightarrow> bool)
    \<Rightarrow> (watch_row \<Rightarrow> int) \<Rightarrow> watch_row list watch_m" where
  "wstore_list_rows uid ids limit offset P key =
     (if ids = [] \<or> limit \<le> 0 then ret []
      else let off = (if offset < 0 then 0 else offset) in
        wdb (gets (\<lambda>w. take (nat limit) (drop (nat off)
          (desc_by key (filter (\<lambda>r. mr_user r = uid \<and> mr_lib r \<in> set ids \<and> P r) (watches w)))))))"

definition wstore_count_rows :: "string \<Rightarrow> string list \<Rightarrow> (watch_row \<Rightarrow> bool) \<Rightarrow> nat watch_m" where
  "wstore_count_rows uid ids P = (if ids = [] then ret 0
     else wdb (gets (\<lambda>w. length (filter (\<lambda>r. mr_user r = uid \<and> mr_lib r \<in> set ids \<and> P r) (watches w)))))"

definition in_progress :: "watch_row \<Rightarrow> bool" where
  "in_progress r \<longleftrightarrow> \<not> wr_watched r \<and> deref_seconds (wr_position r) \<ge> 10"

definition list_for_user :: "string \<Rightarrow> string list \<Rightarrow> int \<Rightarrow> int \<Rightarrow> watch_row list watch_m" where
  "list_for_user uid ids limit offset = wstore_list_rows uid ids limit offset wr_watched wr_watched_at"

definition count_for_user :: "string \<Rightarrow> string list \<Rightarrow> nat watch_m" where
  "count_for_user uid ids = wstore_count_rows uid ids wr_watched"

definition list_continue :: "string \<Rightarrow> string list \<Rightarrow> int \<Rightarrow> int \<Rightarrow> watch_row list watch_m" where
  "list_continue uid ids limit offset = wstore_list_rows uid ids limit offset in_progress wr_updated_at"

definition count_continue :: "string \<Rightarrow> string list \<Rightarrow> nat watch_m" where
  "count_continue uid ids = wstore_count_rows uid ids in_progress"

definition count_by_libraries :: "string \<Rightarrow> string list \<Rightarrow> (string \<rightharpoonup> nat) watch_m" where
  "count_by_libraries uid ids = (if ids = [] then ret Map.empty
     else wdb (gets (\<lambda>w i. let n = length (filter (\<lambda>r. mr_user r = uid \<and> mr_lib r = i \<and> wr_watched r) (watches w))
       in if i \<in> set ids \<and> n > 0 then Some n else None)))"

definition wstore_delete_for_path :: "string \<Rightarrow> string \<Rightarrow> unit watch_m" where
  "wstore_delete_for_path lib path = wdb (modify (\<lambda>w.
     w\<lparr>watches := delete_where (under_prefix lib path) (watches w)\<rparr>))"

section \<open>The service\<close>

definition watch_resolve_path :: "watch_wiring \<Rightarrow> string \<Rightarrow> (string \<times> string) watch_m" where
  "watch_resolve_path sv raw = (let rel = normalize_media_path raw in
     if rel = [] then throw WatchInvalidPath
     else if \<not> ww_access sv then throw WatchUnknownLibrary
     else bnd (on_err list_libraries (\<lambda>_. WatchDbError)) (\<lambda>ls.
       case match_library ls rel of
         None \<Rightarrow> throw WatchUnknownLibrary
       | Some l \<Rightarrow> ret (lib_id l, rel)))"

definition watch_get :: "watch_wiring \<Rightarrow> string \<Rightarrow> string \<Rightarrow> watch_state watch_m" where
  "watch_get sv uid raw =
     (if \<not> ww_store sv then throw WatchStoreUnavailable
      else bnd (watch_resolve_path sv raw) (\<lambda>(lib, rel).
        bnd (wstore_get uid lib rel) (\<lambda>st.
          if \<not> ws_watched st \<and> \<not> has_progress st \<and> path_escape_segments rel \<noteq> rel
          then wstore_get uid lib (path_escape_segments rel)
          else ret st)))"

definition clear_legacy :: "string \<Rightarrow> string \<Rightarrow> string \<Rightarrow> unit watch_m" where
  "clear_legacy uid lib rel = whenm (path_escape_segments rel \<noteq> rel)
     (ignore (wstore_clear uid lib (path_escape_segments rel)))"

text \<open>\<open>Patch\<close> after the path is resolved.\<close>

definition watch_write :: "string \<Rightarrow> string \<Rightarrow> string \<Rightarrow> watch_patch \<Rightarrow> watch_state watch_m" where
  "watch_write uid lib rel p =
     bnd (wstore_get uid lib rel) (\<lambda>current.
       if pt_watched p = Some False
       then seqm (wstore_clear uid lib rel) (seqm (clear_legacy uid lib rel) (ret zero_state))
       else let next = merge_watch_patch current p in
         if skip_progress_write current next then ret current
         else seqm (wstore_upsert uid lib rel next) (seqm (clear_legacy uid lib rel) (ret next)))"

definition watch_apply :: "watch_wiring \<Rightarrow> string \<Rightarrow> string \<Rightarrow> watch_patch \<Rightarrow> watch_state watch_m" where
  "watch_apply sv uid raw p =
     (if \<not> ww_store sv then throw WatchStoreUnavailable
      else bnd (watch_resolve_path sv raw) (\<lambda>(lib, rel). watch_write uid lib rel p))"

definition watch_set :: "watch_wiring \<Rightarrow> string \<Rightarrow> string \<Rightarrow> bool \<Rightarrow> watch_state watch_m" where
  "watch_set sv uid raw b = watch_apply sv uid raw
     \<lparr>pt_watched = Some b, pt_position = None, pt_duration = None\<rparr>"

text \<open>The loop of \<open>watchLookupPaths\<close>: the paths collected so far, which are also the seen ones.\<close>

fun lookup_loop :: "string list \<Rightarrow> string list \<Rightarrow> string list" where
  "lookup_loop acc [] = acc"
| "lookup_loop acc (p # ps) = (let rel = normalize_media_path p in
     if rel = [] then lookup_loop acc ps
     else let a1 = (if rel \<in> set acc then acc else acc @ [rel]);
              legacy = path_escape_segments rel;
              a2 = (if legacy \<in> set a1 then a1 else a1 @ [legacy])
          in lookup_loop a2 ps)"

definition watch_lookup_paths :: "string list \<Rightarrow> string list" where
  "watch_lookup_paths ps = lookup_loop [] ps"

text \<open>The keys of the result map.\<close>

definition map_watched_flags :: "string list \<Rightarrow> (string \<times> bool) list \<Rightarrow> string list" where
  "map_watched_flags items flags =
     (let norm = map (\<lambda>(p, _). normalize_media_path p) (filter snd flags)
      in filter (\<lambda>p. normalize_media_path p \<in> set norm) items)"

definition watched_for_paths :: "watch_wiring \<Rightarrow> string \<Rightarrow> string \<Rightarrow> string list \<Rightarrow> string list watch_m" where
  "watched_for_paths sv uid folder items =
     (if \<not> ww_store sv \<or> items = [] then ret []
      else bnd (watch_resolve_path sv folder) (\<lambda>(lib, _).
        bnd (wstore_list_for_paths uid lib (watch_lookup_paths items)) (\<lambda>flags.
          ret (map_watched_flags items flags))))"

definition watch_delete_for_path :: "watch_wiring \<Rightarrow> string \<Rightarrow> unit watch_m" where
  "watch_delete_for_path sv raw =
     (if \<not> ww_store sv then ret ()
      else bnd (attempt (watch_resolve_path sv raw)) (\<lambda>res. case res of
        Inl e \<Rightarrow> (if e = WatchUnknownLibrary then ret () else throw e)
      | Inr (lib, rel) \<Rightarrow> wstore_delete_for_path lib rel))"

end
