(* ===== verification/WatchSafety.thy ===== *)
theory WatchSafety
  imports Watch AccessSafety
begin

text \<open>
  What the watch service guarantees: its decoding loop ends within half the length of the request path,
  a reported state is what is read back, and where the fallback to percent-encoded rows breaks that.
\<close>

section \<open>The decoding loop\<close>

definition decode_step :: "string \<Rightarrow> string" where
  "decode_step s = (case path_unescape s of None \<Rightarrow> s | Some t \<Rightarrow> t)"

lemma path_unescape_shrinks2:
  "path_unescape s = Some t \<Longrightarrow> t \<noteq> s \<Longrightarrow> length t + 2 \<le> length s"
proof (induction s arbitrary: t rule: path_unescape.induct)
  case 1
  then show ?case by simp
next
  case (2 c s)
  then show ?case
    by (fastforce split: if_splits list.splits option.splits dest: path_unescape_length)
qed

lemma unescape_all_rounds:
  "\<exists>k. 2 * k + length (unescape_all s) \<le> length s \<and> unescape_all s = (decode_step ^^ k) s \<and>
    decode_step (unescape_all s) = unescape_all s"
proof (induction s rule: unescape_all.induct)
  case (1 s)
  show ?case
  proof (cases "\<exists>t. path_unescape s = Some t \<and> t \<noteq> s")
    case False
    then have "unescape_all s = s" "decode_step s = s"
      by (auto simp: unescape_all.simps [of s] decode_step_def split: option.splits)
    then show ?thesis by (intro exI [of _ 0]) simp
  next
    case True
    then obtain t where t: "path_unescape s = Some t" "t \<noteq> s" by blast
    then have u: "unescape_all s = unescape_all t" and d: "decode_step s = t"
      by (simp_all add: unescape_all.simps [of s] decode_step_def)
    from "1.IH" [OF t] obtain k where "2 * k + length (unescape_all t) \<le> length t"
      "unescape_all t = (decode_step ^^ k) t" "decode_step (unescape_all t) = unescape_all t" by blast
    with path_unescape_shrinks2 [OF t] u d show ?thesis
      by (intro exI [of _ "Suc k"]) (simp add: funpow_Suc_right del: funpow.simps)
  qed
qed

text \<open>The loop of \<open>normalizeMediaPath\<close> that decodes a path until nothing changes always ends: after at
  most half as many rounds as the path has characters it has reached a text that one more
  \<open>url.PathUnescape\<close> leaves alone (or refuses).\<close>

lemma normalize_media_path_terminates:
  "\<exists>k. 2 * k \<le> length raw \<and>
    normalize_media_path raw = (decode_step ^^ k) (trim_prefix (trim_space raw) ''/'') \<and>
    decode_step (normalize_media_path raw) = normalize_media_path raw"
proof -
  let ?s = "trim_prefix (trim_space raw) ''/''"
  have "length (trim_left P s) \<le> length s" "length (trim_right P s) \<le> length s" for P s
    by (simp_all add: trim_left_def trim_right_def length_dropWhile_le [THEN le_trans])
  then have "length (trim_space raw) \<le> length raw"
    unfolding trim_space_def trim_both_def by (meson le_trans)
  then have "length ?s \<le> length raw" by (simp add: trim_prefix_def le_diff_conv)
  with unescape_all_rounds [of ?s] show ?thesis
    unfolding normalize_media_path_def by (metis add_leD1 le_trans)
qed

section \<open>Reading back what was written\<close>

lemma wdb_no_fault: "w_faults w = [] \<Longrightarrow> wdb f w = f w"
  by (simp add: wdb_def io_call_no_fault)

definition row_state :: "string \<Rightarrow> string \<Rightarrow> string \<Rightarrow> access_world \<Rightarrow> watch_state" where
  "row_state uid lib path w = (case find (watch_key uid lib path) (watches w) of
     None \<Rightarrow> zero_state | Some r \<Rightarrow> model_to_state r)"

lemma wstore_get_run: "w_faults w = [] \<Longrightarrow> wstore_get uid lib path w = (Inr (row_state uid lib path w), w)"
  by (simp add: wstore_get_def wdb_no_fault row_state_def)

lemma find_update_where:
  "find P xs = Some x \<Longrightarrow> (\<And>y. P y \<Longrightarrow> P (f y)) \<Longrightarrow> find P (update_where P f xs) = Some (f x)"
  by (induction xs) (auto simp: update_where_def split: if_splits)

lemma find_delete_where: "find P (delete_where P xs) = None"
  by (simp add: find_None_iff)

lemma find_delete_other:
  "(\<And>y. P y \<Longrightarrow> \<not> Q y) \<Longrightarrow> find P (delete_where Q xs) = find P xs"
  by (induction xs) (auto simp: delete_where_def)

definition visible_state :: "watch_state \<Rightarrow> bool" where
  "visible_state st \<longleftrightarrow> ws_watched st \<or> has_progress st"

lemma clear_legacy_run:
  assumes "w_faults w = []"
  obtains w' where "clear_legacy uid lib rel w = (Inr (), w')" and "w_faults w' = []"
    and "row_state uid lib rel w' = row_state uid lib rel w" and "libs w' = libs w" "roots w' = roots w"
    and "path_escape_segments rel \<noteq> rel \<Longrightarrow> row_state uid lib (path_escape_segments rel) w' = zero_state"
proof (cases "path_escape_segments rel = rel")
  case True
  with assms that [of w] show ?thesis by (simp add: clear_legacy_def)
next
  case False
  let ?w = "w\<lparr>watches := delete_where (watch_key uid lib (path_escape_segments rel)) (watches w)\<rparr>"
  have "row_state uid lib rel ?w = row_state uid lib rel w"
    using False by (auto simp: row_state_def watch_key_def intro!: arg_cong2 [where f = "case_option zero_state"]
      find_delete_other)
  with assms False that [of ?w] show ?thesis
    by (simp add: clear_legacy_def wstore_clear_def wdb_no_fault row_state_def find_delete_where)
qed

lemma wstore_upsert_run:
  assumes "w_faults w = []" and "wstore_upsert uid lib rel st w = (Inr x, w')"
  shows "w_faults w' = [] \<and> row_state uid lib rel w' = st \<and> libs w' = libs w \<and> roots w' = roots w"
proof (cases "find (watch_key uid lib rel) (watches w)")
  case None
  then have "\<not> (\<exists>r \<in> set (watches w). watch_key uid lib rel r)" by (auto simp: find_None_iff)
  with None assms show ?thesis
    by (auto simp: wstore_upsert_def wdb_no_fault row_state_def watch_key_def find_snoc model_to_state_def
        Let_def split: if_splits)
next
  case (Some r)
  then have "\<exists>r \<in> set (watches w). watch_key uid lib rel r" by (auto dest: find_SomeD)
  with assms have w': "w' = w\<lparr>watches := update_where (watch_key uid lib rel)
       (\<lambda>r. r\<lparr>wr_watched := ws_watched st, wr_position := ws_position st, wr_duration := ws_duration st,
              wr_updated_at := w_now w,
              wr_watched_at := (if ws_watched st then w_now w else wr_watched_at r)\<rparr>) (watches w)\<rparr>"
    by (simp add: wstore_upsert_def wdb_no_fault Let_def)
  let ?f = "\<lambda>r. r\<lparr>wr_watched := ws_watched st, wr_position := ws_position st, wr_duration := ws_duration st,
      wr_updated_at := w_now w, wr_watched_at := (if ws_watched st then w_now w else wr_watched_at r)\<rparr>"
  have "find (watch_key uid lib rel) (update_where (watch_key uid lib rel) ?f (watches w)) = Some (?f r)"
    using Some by (rule find_update_where) (simp add: watch_key_def)
  then show ?thesis
    unfolding w' row_state_def using assms(1) by (simp add: model_to_state_def)
qed

lemma store_list_libraries_run:
  "w_faults w = [] \<Longrightarrow>
   on_err list_libraries h w = (Inr (map (library_from_model w) (asc_by lr_name (libs w))), w)"
  by (simp add: list_libraries_def store_list_libraries_def adb_def io_call_no_fault on_err_def)

lemma library_from_model_same: "roots v = roots w \<Longrightarrow> library_from_model v = library_from_model w"
  by (rule ext) (simp add: library_from_model_def roots_of_def)

lemma watch_resolve_run:
  assumes "w_faults w = []" and "watch_resolve_path sv raw w = (Inr (lib, rel), w1)"
  shows "w1 = w" and "rel = normalize_media_path raw"
    and "w_faults v = [] \<Longrightarrow> libs v = libs w \<Longrightarrow> roots v = roots w \<Longrightarrow>
      watch_resolve_path sv raw v = (Inr (lib, rel), v)"
proof -
  let ?ls = "map (library_from_model w) (asc_by lr_name (libs w))"
  from assms have rel: "normalize_media_path raw \<noteq> []" "ww_access sv"
    by (auto simp: watch_resolve_path_def Let_def split: if_splits)
  with assms obtain l where l: "match_library ?ls (normalize_media_path raw) = Some l"
      "lib = lib_id l" "rel = normalize_media_path raw" "w1 = w"
    by (auto simp: watch_resolve_path_def Let_def run_bnd store_list_libraries_run split: option.splits)
  then show "w1 = w" and "rel = normalize_media_path raw" by auto
  assume v: "w_faults v = []" "libs v = libs w" "roots v = roots w"
  with rel l library_from_model_same [OF v(3)] show "watch_resolve_path sv raw v = (Inr (lib, rel), v)"
    by (simp add: watch_resolve_path_def Let_def run_bnd store_list_libraries_run)
qed

lemma watch_write_run:
  assumes db: "w_faults w = []" and run: "watch_write uid lib rel p w = (Inr st, w')"
  shows "w_faults w' = [] \<and> libs w' = libs w \<and> roots w' = roots w \<and> row_state uid lib rel w' = st"
proof -
  let ?cur = "row_state uid lib rel w"
  let ?next = "merge_watch_patch ?cur p"
  consider (clear) "pt_watched p = Some False"
    | (skip) "pt_watched p \<noteq> Some False" and "skip_progress_write ?cur ?next"
    | (stored) "pt_watched p \<noteq> Some False" and "\<not> skip_progress_write ?cur ?next" by blast
  then show ?thesis
  proof cases
    case clear
    let ?w = "w\<lparr>watches := delete_where (watch_key uid lib rel) (watches w)\<rparr>"
    have zero: "row_state uid lib rel ?w = zero_state" by (simp add: row_state_def find_delete_where)
    have "w_faults ?w = []" using db by simp
    then show ?thesis
    proof (rule clear_legacy_run [where uid = uid and lib = lib and rel = rel])
      fix v
      assume "clear_legacy uid lib rel ?w = (Inr (), v)" "w_faults v = []"
        "row_state uid lib rel v = row_state uid lib rel ?w" "libs v = libs ?w" "roots v = roots ?w"
      with clear run db zero show ?thesis
        by (simp add: watch_write_def run_bnd run_seqm wstore_get_run wstore_clear_def wdb_no_fault)
    qed
  next
    case skip
    with run db show ?thesis by (auto simp: watch_write_def run_bnd wstore_get_run Let_def)
  next
    case stored
    with run db have seq: "seqm (wstore_upsert uid lib rel ?next) (seqm (clear_legacy uid lib rel) (ret ?next)) w = (Inr st, w')"
      by (simp add: watch_write_def run_bnd wstore_get_run Let_def)
    then obtain x w2 where up: "wstore_upsert uid lib rel ?next w = (Inr x, w2)"
      and fin: "seqm (clear_legacy uid lib rel) (ret ?next) w2 = (Inr st, w')" by (rule seqm_InrE)
    from wstore_upsert_run [OF db up] have w2: "w_faults w2 = []" "row_state uid lib rel w2 = ?next"
      "libs w2 = libs w" "roots w2 = roots w" by auto
    from w2(1) show ?thesis
    proof (rule clear_legacy_run [where uid = uid and lib = lib and rel = rel])
      fix v
      assume "clear_legacy uid lib rel w2 = (Inr (), v)" "w_faults v = []"
        "row_state uid lib rel v = row_state uid lib rel w2" "libs v = libs w2" "roots v = roots w2"
      with fin w2 show ?thesis by (simp add: run_seqm)
    qed
  qed
qed

lemma watch_get_run:
  assumes "ww_store sv" and "watch_resolve_path sv raw v = (Inr (lib, rel), v)" and "w_faults v = []"
  shows "watch_get sv uid raw v = (Inr (if visible_state (row_state uid lib rel v) \<or> path_escape_segments rel = rel
    then row_state uid lib rel v else row_state uid lib (path_escape_segments rel) v), v)"
  using assms by (simp add: watch_get_def run_bnd wstore_get_run visible_state_def)

lemma zero_not_visible: "\<not> visible_state zero_state"
  by (simp add: visible_state_def zero_state_def has_progress_def)

text \<open>C14. Round trip: while the database answers, the state a client is told after marking a title watched or
  unwatched or reporting progress is the state it reads back, whenever that state is watched or in
  progress, and always for a path without characters that need escaping.\<close>

theorem watch_apply_read_back:
  assumes db: "w_faults w = []" and run: "watch_apply sv uid raw p w = (Inr st, w')"
    and seen: "visible_state st \<or> path_escape_segments (normalize_media_path raw) = normalize_media_path raw"
  shows "fst (watch_get sv uid raw w') = Inr st"
proof -
  from run have store: "ww_store sv" by (auto simp: watch_apply_def split: if_splits)
  with run have "bnd (watch_resolve_path sv raw) (\<lambda>(lib, rel). watch_write uid lib rel p) w = (Inr st, w')"
    by (simp add: watch_apply_def)
  then obtain lr w1 where "watch_resolve_path sv raw w = (Inr lr, w1)"
    and "(case lr of (lib, rel) \<Rightarrow> watch_write uid lib rel p) w1 = (Inr st, w')" by (rule bnd_InrE)
  then obtain lib rel where res: "watch_resolve_path sv raw w = (Inr (lib, rel), w1)"
    and wr: "watch_write uid lib rel p w1 = (Inr st, w')" by (cases lr) auto
  note again = watch_resolve_run [OF db res]
  from watch_write_run [OF _ wr] db again(1) have w': "w_faults w' = []" "libs w' = libs w" "roots w' = roots w"
    "row_state uid lib rel w' = st" by auto
  from watch_get_run [OF store again(3) [OF w'(1-3)] w'(1)] w'(4) seen again(2) show ?thesis by simp
qed

definition wiring :: watch_wiring where
  "wiring = \<lparr>ww_store = True, ww_access = True\<rparr>"

definition at_position :: "rat \<Rightarrow> watch_patch" where
  "at_position p = \<lparr>pt_watched = None, pt_position = Some p, pt_duration = Some 120\<rparr>"

lemma watch_apply_read_back_witness:
  "fst (watch_get wiring ''u'' ''shows/1.mkv'' (snd (watch_apply wiring ''u'' ''shows/1.mkv'' (at_position 110) demo_registry)))
   = Inr \<lparr>ws_watched = True, ws_position = Some 110, ws_duration = Some 120\<rparr>"
proof -
  let ?x = "watch_apply wiring ''u'' ''shows/1.mkv'' (at_position 110) demo_registry"
  have r: "fst ?x = Inr \<lparr>ws_watched = True, ws_position = Some 110, ws_duration = Some 120\<rparr>" by code_simp
  then have run: "?x = (Inr \<lparr>ws_watched = True, ws_position = Some 110, ws_duration = Some 120\<rparr>, snd ?x)"
    by (simp add: prod_eq_iff)
  have "w_faults demo_registry = []" by (simp add: demo_registry_def)
  from watch_apply_read_back [OF this run] show ?thesis by (simp add: visible_state_def)
qed

definition legacy_world :: access_world where
  "legacy_world = demo_registry\<lparr>watches := [\<lparr>mr_user = ''u'', mr_lib = ''s'', mr_path = ''shows/a%20b.mkv'',
     wr_watched = True, wr_position = None, wr_duration = None, wr_watched_at = 0, wr_updated_at = 0\<rparr>]\<rparr>"

text \<open>Progress loses the watched mark of a percent-encoded row: a title that reads as watched through
  the fallback to the old encoded path is unwatched after an ordinary progress report, which only looks at the
  decoded path and then deletes the encoded row.\<close>

lemma progress_forgets_legacy_watched:
  "map_sum id ws_watched (fst (watch_get wiring ''u'' ''shows/a b.mkv'' legacy_world)) = Inr True \<and>
   map_sum id ws_watched (fst (watch_get wiring ''u'' ''shows/a b.mkv''
     (snd (watch_apply wiring ''u'' ''shows/a b.mkv'' (at_position 25) legacy_world)))) = Inr False"
  by code_simp

end
