(* ===== verification/Favorite.thy ===== *)
theory Favorite
  imports Watch
begin

text \<open>
  Favourites: \<open>internal/favorite\<close> and its store, on the \<open>favs\<close> table of the access world. Paths are
  decoded by the same loop as in \<open>internal/watch\<close> (the code repeats it), so \<open>normalize_media_path\<close> is shared.
\<close>

datatype favorite_err = FavInvalidPath | FavUnknownLibrary | FavStoreUnavailable | FavDbError

type_synonym 'a favorite_m = "(access_world, favorite_err, 'a) m"

definition fdb :: "'a favorite_m \<Rightarrow> 'a favorite_m" where
  "fdb f = io_call FavDbError f"

section \<open>The store\<close>

definition fav_key :: "string \<Rightarrow> string \<Rightarrow> string \<Rightarrow> fav_row \<Rightarrow> bool" where
  "fav_key uid lib path r \<longleftrightarrow> mr_user r = uid \<and> mr_lib r = lib \<and> mr_path r = path"

definition fstore_get :: "string \<Rightarrow> string \<Rightarrow> string \<Rightarrow> bool favorite_m" where
  "fstore_get uid lib path = fdb (gets (\<lambda>w. length (filter (fav_key uid lib path) (favs w)) > 0))"

definition fstore_set :: "string \<Rightarrow> string \<Rightarrow> string \<Rightarrow> bool \<Rightarrow> unit favorite_m" where
  "fstore_set uid lib path b =
     (if \<not> b then fdb (modify (\<lambda>w. w\<lparr>favs := delete_where (fav_key uid lib path) (favs w)\<rparr>))
      else fdb (\<lambda>w. let now = w_now w in
        if \<exists>r \<in> set (favs w). fav_key uid lib path r
        then (Inr (), w\<lparr>favs := update_where (fav_key uid lib path) (\<lambda>r. r\<lparr>fv_created_at := now\<rparr>) (favs w)\<rparr>)
        else if uid \<notin> set (accounts w) \<or> lib \<notin> lr_id ` set (libs w) then (Inl FavDbError, w)
        else (Inr (), w\<lparr>favs := favs w @
          [\<lparr>mr_user = uid, mr_lib = lib, mr_path = path, fv_created_at = now\<rparr>]\<rparr>)))"

definition fstore_list_for_paths :: "string \<Rightarrow> string \<Rightarrow> string list \<Rightarrow> string list favorite_m" where
  "fstore_list_for_paths uid lib paths = (if paths = [] then ret []
     else fdb (gets (\<lambda>w. map mr_path
       (filter (\<lambda>r. mr_user r = uid \<and> mr_lib r = lib \<and> mr_path r \<in> set paths) (favs w)))))"

definition fstore_list_for_user :: "string \<Rightarrow> string list \<Rightarrow> int \<Rightarrow> int \<Rightarrow> fav_row list favorite_m" where
  "fstore_list_for_user uid ids limit offset =
     (if ids = [] \<or> limit \<le> 0 then ret []
      else let off = (if offset < 0 then 0 else offset) in
        fdb (gets (\<lambda>w. take (nat limit) (drop (nat off)
          (desc_by fv_created_at (filter (\<lambda>r. mr_user r = uid \<and> mr_lib r \<in> set ids) (favs w)))))))"

definition fstore_count_for_user :: "string \<Rightarrow> string list \<Rightarrow> nat favorite_m" where
  "fstore_count_for_user uid ids = (if ids = [] then ret 0
     else fdb (gets (\<lambda>w. length (filter (\<lambda>r. mr_user r = uid \<and> mr_lib r \<in> set ids) (favs w)))))"

definition fstore_delete_for_path :: "string \<Rightarrow> string \<Rightarrow> unit favorite_m" where
  "fstore_delete_for_path lib path = fdb (modify (\<lambda>w.
     w\<lparr>favs := delete_where (under_prefix lib path) (favs w)\<rparr>))"

section \<open>The service\<close>

definition favorite_resolve_path :: "watch_wiring \<Rightarrow> string \<Rightarrow> (string \<times> string) favorite_m" where
  "favorite_resolve_path sv raw = (let rel = normalize_media_path raw in
     if rel = [] then throw FavInvalidPath
     else if \<not> ww_access sv then throw FavUnknownLibrary
     else bnd (on_err list_libraries (\<lambda>_. FavDbError)) (\<lambda>ls.
       case match_library ls rel of
         None \<Rightarrow> throw FavUnknownLibrary
       | Some l \<Rightarrow> ret (lib_id l, rel)))"

definition favorite_get :: "watch_wiring \<Rightarrow> string \<Rightarrow> string \<Rightarrow> bool favorite_m" where
  "favorite_get sv uid raw =
     (if \<not> ww_store sv then throw FavStoreUnavailable
      else bnd (favorite_resolve_path sv raw) (\<lambda>(lib, rel). fstore_get uid lib rel))"

definition favorite_set :: "watch_wiring \<Rightarrow> string \<Rightarrow> string \<Rightarrow> bool \<Rightarrow> bool favorite_m" where
  "favorite_set sv uid raw b =
     (if \<not> ww_store sv then throw FavStoreUnavailable
      else bnd (favorite_resolve_path sv raw) (\<lambda>(lib, rel). seqm (fstore_set uid lib rel b) (ret b)))"

definition favorited_for_paths :: "watch_wiring \<Rightarrow> string \<Rightarrow> string \<Rightarrow> string list \<Rightarrow> string list favorite_m" where
  "favorited_for_paths sv uid folder items =
     (if \<not> ww_store sv \<or> items = [] then ret []
      else bnd (favorite_resolve_path sv folder) (\<lambda>(lib, _).
        bnd (fstore_list_for_paths uid lib (filter (\<lambda>p. p \<noteq> []) (map normalize_media_path items))) (\<lambda>flags.
          ret (filter (\<lambda>p. normalize_media_path p \<in> set flags) items))))"

definition favorite_delete_for_path :: "watch_wiring \<Rightarrow> string \<Rightarrow> unit favorite_m" where
  "favorite_delete_for_path sv raw =
     (if \<not> ww_store sv then ret ()
      else bnd (attempt (favorite_resolve_path sv raw)) (\<lambda>res. case res of
        Inl e \<Rightarrow> (if e = FavUnknownLibrary then ret () else throw e)
      | Inr (lib, rel) \<Rightarrow> fstore_delete_for_path lib rel))"

section \<open>What is read back\<close>

lemma update_where_hit:
  "(\<And>y. P y \<Longrightarrow> P (f y)) \<Longrightarrow> (\<exists>r \<in> set (update_where P f xs). P r) \<longleftrightarrow> (\<exists>r \<in> set xs. P r)"
  by (induction xs) (auto simp: update_where_def)

lemma update_where_miss:
  "(\<And>y. P y \<Longrightarrow> P (f y)) \<Longrightarrow> \<not> P r \<Longrightarrow> r \<in> set (update_where P f xs) \<longleftrightarrow> r \<in> set xs"
  by (induction xs) (auto simp: update_where_def)

lemma fdb_InrE:
  assumes "fdb f w = (Inr x, w')"
  obtains "f (w\<lparr>w_faults := tl (w_faults w)\<rparr>) = (Inr x, w')"
  using assms unfolding fdb_def by (rule io_call_InrE)

lemma fav_key_created: "fav_key uid lib rel r \<Longrightarrow> fav_key uid lib rel (r\<lparr>fv_created_at := n\<rparr>)"
  by (simp add: fav_key_def)

text \<open>Setting a favourite: the row of the key is there exactly when asked for, no other row changes.\<close>

lemma fstore_set_effect:
  assumes "fstore_set uid lib rel b w = (Inr x, w')"
  shows "(\<exists>r \<in> set (favs w'). fav_key uid lib rel r) \<longleftrightarrow> b"
    and "\<not> fav_key uid lib rel r \<Longrightarrow> r \<in> set (favs w') \<longleftrightarrow> r \<in> set (favs w)"
  using assms
    update_where_hit [of "fav_key uid lib rel" "\<lambda>r. r\<lparr>fv_created_at := w_now w\<rparr>" "favs w", OF fav_key_created]
    update_where_miss [of "fav_key uid lib rel" "\<lambda>r. r\<lparr>fv_created_at := w_now w\<rparr>" r "favs w", OF fav_key_created]
  by (auto simp: fstore_set_def Let_def elim!: fdb_InrE split: if_splits) (auto simp: fav_key_def)

end
