(* ===== verification/MediaTree.thy ===== *)
theory MediaTree
  imports MediaFs
begin

text \<open>
  The media tree on disk as far as \<open>internal/mediafs\<close> uses the \<open>os\<close> package: a finite list of paths (lists of
  segments below the media root) with their nodes, no symbolic links. Each call of \<open>os\<close> is one
  function that succeeds with a new tree or fails; the reasons of a failure are not told apart.
  The JSON text of an \<open>info.json\<close> is represented by the value it encodes.
\<close>

section \<open>Trees\<close>

record trash_info =
  ti_id :: string
  ti_original :: string
  ti_trash :: string
  ti_library :: string
  ti_deleted_at :: "int option"
  ti_deleted_by :: string

datatype content = Bytes string | InfoText trash_info

datatype node = DirNode | FileNode content

type_synonym tree = "(string list \<times> node) list"

definition node_at :: "tree \<Rightarrow> string list \<Rightarrow> node option" where
  "node_at t p = map_of t p"

text \<open>\<open>os.MkdirAll\<close>\<close>

definition mkdir_all :: "string list \<Rightarrow> tree \<Rightarrow> tree option" where
  "mkdir_all p t =
     (if \<exists>q \<in> set (prefixes p). (case node_at t q of Some (FileNode _) \<Rightarrow> True | _ \<Rightarrow> False) then None
      else Some (t @ map (\<lambda>q. (q, DirNode)) (filter (\<lambda>q. node_at t q = None) (prefixes p))))"

text \<open>\<open>os.Rename\<close>: a directory is never replaced, and never moved below itself.\<close>

definition move_tree :: "string list \<Rightarrow> string list \<Rightarrow> tree \<Rightarrow> tree" where
  "move_tree s d t = map (\<lambda>(p, n). (if prefix s p then d @ drop (length s) p else p, n)) t"

definition rename :: "string list \<Rightarrow> string list \<Rightarrow> tree \<Rightarrow> tree option" where
  "rename s d t =
     (case node_at t s of
        None \<Rightarrow> None
      | Some n \<Rightarrow>
          if s = d then Some t
          else if node_at t (butlast d) \<noteq> Some DirNode \<or> prefix s d then None
          else (case node_at t d of
              None \<Rightarrow> Some (move_tree s d t)
            | Some DirNode \<Rightarrow> None
            | Some (FileNode _) \<Rightarrow>
                if n = DirNode then None else Some (move_tree s d (filter (\<lambda>(p, _). p \<noteq> d) t))))"

text \<open>\<open>os.RemoveAll\<close>: a missing path is no error.\<close>

definition remove_all :: "string list \<Rightarrow> tree \<Rightarrow> tree" where
  "remove_all p t = filter (\<lambda>(q, _). \<not> prefix p q) t"

definition write_file :: "string list \<Rightarrow> content \<Rightarrow> tree \<Rightarrow> tree option" where
  "write_file p c t =
     (if node_at t (butlast p) \<noteq> Some DirNode \<or> node_at t p = Some DirNode then None
      else Some (filter (\<lambda>(q, _). q \<noteq> p) t @ [(p, FileNode c)]))"

definition read_file :: "string list \<Rightarrow> tree \<Rightarrow> content option" where
  "read_file p t = (case node_at t p of Some (FileNode c) \<Rightarrow> Some c | _ \<Rightarrow> None)"

text \<open>\<open>os.ReadDir\<close>: the names of the entries with whether they are directories.\<close>

definition read_dir :: "string list \<Rightarrow> tree \<Rightarrow> (string \<times> bool) list" where
  "read_dir p t = map (\<lambda>(q, n). (last q, n = DirNode)) (filter (\<lambda>(q, _). q \<noteq> [] \<and> butlast q = p) t)"

section \<open>Finding a request path\<close>

definition media_dir :: string where
  "media_dir = ''/media''"

definition segs :: "string \<Rightarrow> string list" where
  "segs rel = (if rel = [] then [] else split_on CHR ''/'' rel)"

text \<open>\<open>filepath.EvalSymlinks\<close> without links: an entry of the tree evaluates to itself, a path through a
  file fails otherwise than by not existing.\<close>

definition tree_eval :: "tree \<Rightarrow> string \<Rightarrow> symlink_result" where
  "tree_eval t full =
     (let p = segs (drop (length media_dir + 1) full)
      in if node_at t p \<noteq> None then SymTarget full
         else if \<exists>q \<in> set (prefixes p). (case node_at t q of Some (FileNode _) \<Rightarrow> True | _ \<Rightarrow> False)
         then SymFailed else SymNotExist)"

text \<open>\<open>resolve\<close> on the tree: the relative path stands for the full one, which is below the root.\<close>

definition locate :: "tree \<Rightarrow> string \<Rightarrow> media_err + string" where
  "locate t raw = (case resolve (tree_eval t) media_dir raw of Inl e \<Rightarrow> Inl e | Inr (_, rel) \<Rightarrow> Inr rel)"

section \<open>Lemmas on trees\<close>

definition wf_tree :: "tree \<Rightarrow> bool" where
  "wf_tree t \<longleftrightarrow> distinct (map fst t) \<and> node_at t [] = Some DirNode \<and>
     (\<forall>(p, n) \<in> set t. p \<noteq> [] \<longrightarrow> node_at t (butlast p) = Some DirNode)"

lemma node_at_in: "distinct (map fst t) \<Longrightarrow> node_at t p = Some n \<longleftrightarrow> (p, n) \<in> set t"
  by (simp add: node_at_def)

lemma node_at_None: "node_at t p = None \<longleftrightarrow> p \<notin> fst ` set t"
  by (simp add: node_at_def map_of_eq_None_iff)

lemma wf_parent: "wf_tree t \<Longrightarrow> node_at t p = Some n \<Longrightarrow> p \<noteq> [] \<Longrightarrow> node_at t (butlast p) = Some DirNode"
  by (auto simp: wf_tree_def node_at_in)

lemma wf_prefix_dir:
  assumes "wf_tree t" and "node_at t p = Some n" and "strict_prefix q p"
  shows "node_at t q = Some DirNode"
  using assms(2,3)
proof (induction p arbitrary: n rule: rev_induct)
  case Nil
  then show ?case by simp
next
  case (snoc x p)
  from wf_parent [OF assms(1) snoc.prems(1)] have p: "node_at t p = Some DirNode" by simp
  from snoc.prems(2) have "prefix q p" by (auto simp: strict_prefix_def)
  then show ?case using p snoc.IH [OF p] by (cases "q = p") (auto simp: strict_prefix_def)
qed

lemma wf_nothing_below:
  assumes "wf_tree t" and "node_at t q = None" and "prefix q p"
  shows "node_at t p = None"
proof (rule ccontr)
  assume "node_at t p \<noteq> None"
  then obtain n where n: "node_at t p = Some n" by blast
  with assms(2) have "q \<noteq> p" by auto
  with assms(3) have "strict_prefix q p" by (simp add: strict_prefix_def)
  from wf_prefix_dir [OF assms(1) n this] assms(2) show False by simp
qed

lemma node_at_remove_all: "node_at (remove_all p t) q = (if prefix p q then None else node_at t q)"
  by (induction t) (auto simp: node_at_def remove_all_def)

lemma moved_path_eq:
  assumes "\<not> prefix d p"
  shows "(if prefix s p then d @ drop (length s) p else p) = q \<longleftrightarrow>
    (if prefix d q then p = s @ drop (length d) q else \<not> prefix s q \<and> p = q)"
proof (cases "prefix s p")
  case True
  then obtain x where p: "p = s @ x" by (auto elim: prefixE)
  show ?thesis
  proof (cases "prefix d q")
    case True
    then obtain y where "q = d @ y" by (auto elim: prefixE)
    with p show ?thesis by simp
  next
    case False
    with p show ?thesis by auto
  qed
next
  case False
  with assms show ?thesis by auto
qed

lemma node_at_move:
  assumes free: "\<forall>q. prefix d q \<longrightarrow> node_at t q = None"
  shows "node_at (move_tree s d t) q =
    (if prefix d q then node_at t (s @ drop (length d) q) else if prefix s q then None else node_at t q)"
proof -
  have out: "\<not> prefix d p" if "(p, n) \<in> set t" for p n
    using that free by (force simp: node_at_None)
  have "map_of (move_tree s d xs) q =
      (if prefix d q then map_of xs (s @ drop (length d) q) else if prefix s q then None else map_of xs q)"
    if "set xs \<subseteq> set t" for xs
    using that
  proof (induction xs)
    case Nil
    then show ?case by (simp add: move_tree_def)
  next
    case (Cons x xs)
    obtain p n where x: "x = (p, n)" by fastforce
    with Cons.prems have "(p, n) \<in> set t" by simp
    then have "\<not> prefix d p" by (rule out)
    from moved_path_eq [OF this, of s q] Cons x show ?case
      by (cases "prefix d q") (auto simp: move_tree_def)
  qed
  then show ?thesis by (simp add: node_at_def)
qed

lemma node_at_mkdir_all:
  assumes "mkdir_all p t = Some t'"
  shows "node_at t' q = (if node_at t q = None \<and> prefix q p then Some DirNode else node_at t q)"
proof -
  have "map_of (map (\<lambda>q. (q, DirNode)) qs) q = (if q \<in> set qs then Some DirNode else None)" for qs
    by (induction qs) auto
  with assms show ?thesis
    by (auto simp: mkdir_all_def node_at_def map_add_def split: if_splits option.splits)
qed

lemma node_at_write_file:
  assumes "write_file p c t = Some t'"
  shows "node_at t' q = (if q = p then Some (FileNode c) else node_at t q)"
proof -
  have "map_of (filter (\<lambda>(q, _). q \<noteq> p) t) q = (if q = p then None else map_of t q)"
    by (induction t) auto
  with assms show ?thesis
    by (auto simp: write_file_def node_at_def map_add_def split: if_splits option.splits)
qed

end
