(* ===== verification/Trash.thy ===== *)
theory Trash
  imports MediaTree AccessStore
begin

text \<open>
  The recycle bin: \<open>internal/trash\<close> (service, settings, purge) with its store, and the operations of
  \<open>internal/mediafs\<close> that delete, move and restore files (\<open>delete.go\<close>, \<open>trash.go\<close>), on the tree of
  \<open>MediaTree\<close> and the table \<open>trash_items\<close>. Every call of \<open>os\<close> and of the database takes an entry of the
  fault schedule. The library of a path is a parameter (\<open>access.Service\<close> is modelled in
  \<open>AccessService\<close>); foreign keys of the table are among the failures of the database. A read-only
  file system is not told apart from another failure. Times are nanoseconds.
\<close>

section \<open>State\<close>

datatype trash_err =
    TrashUnavailable
  | TrashNotFound
  | TrashPath media_err
  | TrashForbidden
  | RestoreConflict
  | TrashItemMissing
  | DeleteNotEmpty
  | TrashIo
  | TrashDb
  | InvalidRetention
  | TrashSettingsUnavailable

record trash_item =
  ti_row_id :: string
  ti_row_original :: string
  ti_row_trash :: string
  ti_row_library :: string
  ti_row_deleted_at :: int
  ti_row_deleted_by :: string

record trash_settings =
  tr_enabled :: bool
  tr_days :: int

text \<open>The value of the \<open>recycle_bin\<close> key: no row, text that does not parse, or settings.\<close>

datatype settings_value = NoValue | CorruptValue | StoredValue trash_settings

record trash_world = env +
  tree :: tree
  bin :: "trash_item list"
  bin_settings :: settings_value
  cleaned :: "trash_item list"

type_synonym 'a trash_m = "(trash_world, trash_err, 'a) m"

text \<open>What the service is wired with.\<close>

record trash_wiring =
  tw_wired :: bool
  tw_settings :: bool
  tw_cleaner :: bool
  tw_library :: "string \<Rightarrow> access_err + library option"

section \<open>Files (\<open>mediafs\<close>)\<close>

definition tio :: "'a trash_m \<Rightarrow> 'a trash_m" where
  "tio f = io_call TrashIo f"

definition tdb :: "'a trash_m \<Rightarrow> 'a trash_m" where
  "tdb f = io_call TrashDb f"

definition at_path :: "string \<Rightarrow> string trash_m" where
  "at_path raw = (\<lambda>w. case locate (tree w) raw of Inl e \<Rightarrow> (Inl (TrashPath e), w) | Inr rel \<Rightarrow> (Inr rel, w))"

definition checked_id :: "string \<Rightarrow> unit trash_m" where
  "checked_id i = (case validate_trash_item_id i of Inl e \<Rightarrow> throw (TrashPath e) | Inr _ \<Rightarrow> ret ())"

definition os_change :: "(tree \<Rightarrow> tree option) \<Rightarrow> unit trash_m" where
  "os_change f = tio (\<lambda>w. case f (tree w) of None \<Rightarrow> (Inl TrashIo, w) | Some t \<Rightarrow> (Inr (), w\<lparr>tree := t\<rparr>))"

definition os_stat :: "string list \<Rightarrow> node option trash_m" where
  "os_stat p = tio (gets (\<lambda>w. node_at (tree w) p))"

definition media_delete :: "string \<Rightarrow> bool \<Rightarrow> unit trash_m" where
  "media_delete raw recursive = bnd (at_path raw) (\<lambda>rel.
     bnd (os_stat (segs rel)) (\<lambda>n. case n of
       None \<Rightarrow> throw TrashIo
     | Some DirNode \<Rightarrow> bnd (tio (gets (\<lambda>w. read_dir (segs rel) (tree w)))) (\<lambda>entries.
         if entries \<noteq> [] \<and> \<not> recursive then throw DeleteNotEmpty
         else os_change (\<lambda>t. Some (remove_all (segs rel) t)))
     | Some (FileNode _) \<Rightarrow> os_change (\<lambda>t. Some (remove_all (segs rel) t))))"

definition move_to_trash :: "string \<Rightarrow> string \<Rightarrow> (string \<times> string) trash_m" where
  "move_to_trash raw i = seqm (checked_id i) (bnd (at_path raw) (\<lambda>rel.
     if rel = [] \<or> is_trash_path rel then throw TrashForbidden
     else bnd (os_stat (segs rel)) (\<lambda>n.
       if n = None then throw TrashIo
       else let trash_rel = path_join [''.trash'', i, rel] in
         bnd (at_path trash_rel) (\<lambda>dest.
           seqm (os_change (mkdir_all (butlast (segs dest))))
          (seqm (os_change (rename (segs rel) (segs dest)))
            (ret (rel, trash_rel)))))))"

definition remove_trash_item :: "string \<Rightarrow> unit trash_m" where
  "remove_trash_item i = seqm (checked_id i) (bnd (at_path (path_join [''.trash'', i])) (\<lambda>rel.
     os_change (\<lambda>t. Some (remove_all (segs rel) t))))"

definition resolve_restore_paths :: "string \<Rightarrow> string \<Rightarrow> (string \<times> string) trash_m" where
  "resolve_restore_paths original trash_rel = bnd (at_path trash_rel) (\<lambda>src.
     bnd (os_stat (segs src)) (\<lambda>n.
       if n = None then throw TrashItemMissing
       else bnd (at_path original) (\<lambda>dest.
         bnd (os_stat (segs dest)) (\<lambda>m.
           if m \<noteq> None then throw RestoreConflict else ret (src, dest)))))"

definition restore_from_trash :: "string \<Rightarrow> string \<Rightarrow> string \<Rightarrow> unit trash_m" where
  "restore_from_trash original0 trash0 i = seqm (checked_id i)
     (let original = trim_prefix original0 ''/''; trash_rel = trim_prefix trash0 ''/'' in
      if original = [] \<or> is_trash_path original \<or> \<not> is_trash_path trash_rel then throw (TrashPath MediaInvalidPath)
      else bnd (resolve_restore_paths original trash_rel) (\<lambda>(src, dest).
        seqm (os_change (mkdir_all (butlast (segs dest))))
       (seqm (os_change (rename (segs src) (segs dest)))
         (remove_trash_item i))))"

definition write_trash_info :: "string \<Rightarrow> trash_info \<Rightarrow> unit trash_m" where
  "write_trash_info i info = seqm (checked_id i) (bnd (at_path (path_join [''.trash'', i])) (\<lambda>rel.
     seqm (os_change (mkdir_all (segs rel)))
       (os_change (write_file (segs rel @ [''info.json'']) (InfoText info)))))"

definition read_trash_info :: "string \<Rightarrow> trash_info trash_m" where
  "read_trash_info i = seqm (checked_id i) (bnd (at_path (path_join [''.trash'', i])) (\<lambda>rel.
     tio (\<lambda>w. case read_file (segs rel @ [''info.json'']) (tree w) of
       Some (InfoText info) \<Rightarrow> (Inr info, w)
     | _ \<Rightarrow> (Inl TrashIo, w))))"

definition list_trash_item_ids :: "string list trash_m" where
  "list_trash_item_ids = bnd (at_path ''.trash'') (\<lambda>rel. tio (\<lambda>w.
     case node_at (tree w) (segs rel) of
       None \<Rightarrow> (Inr [], w)
     | Some (FileNode _) \<Rightarrow> (Inl TrashIo, w)
     | Some DirNode \<Rightarrow> (Inr (sort (map fst (filter (\<lambda>(name, dir). dir \<and> validate_trash_item_id name = Inr ())
         (read_dir (segs rel) (tree w))))), w)))"

section \<open>The store\<close>

definition tstore_insert :: "trash_item \<Rightarrow> unit trash_m" where
  "tstore_insert item = tdb (\<lambda>w.
     if \<exists>r \<in> set (bin w). ti_row_id r = ti_row_id item \<or> ti_row_trash r = ti_row_trash item
     then (Inl TrashDb, w) else (Inr (), w\<lparr>bin := bin w @ [item]\<rparr>))"

definition tstore_get :: "string \<Rightarrow> trash_item trash_m" where
  "tstore_get i = tdb (\<lambda>w. case find (\<lambda>r. ti_row_id r = i) (bin w) of
     None \<Rightarrow> (Inl TrashNotFound, w) | Some r \<Rightarrow> (Inr r, w))"

definition tstore_list :: "trash_item list trash_m" where
  "tstore_list = tdb (gets (\<lambda>w. desc_by ti_row_deleted_at (bin w)))"

definition tstore_delete :: "string \<Rightarrow> unit trash_m" where
  "tstore_delete i = tdb (modify (\<lambda>w. w\<lparr>bin := delete_where (\<lambda>r. ti_row_id r = i) (bin w)\<rparr>))"

definition tstore_original_prefixes :: "string list trash_m" where
  "tstore_original_prefixes = tdb (gets (\<lambda>w. map ti_row_original (bin w)))"

section \<open>Settings\<close>

definition default_trash_settings :: trash_settings where
  "default_trash_settings = \<lparr>tr_enabled = False, tr_days = 1\<rparr>"

definition normalize_trash_settings :: "trash_settings \<Rightarrow> trash_err + trash_settings" where
  "normalize_trash_settings s =
     (if tr_days s < 1 \<or> tr_days s > 36500 then Inl InvalidRetention else Inr s)"

definition get_trash_settings :: "trash_wiring \<Rightarrow> trash_settings trash_m" where
  "get_trash_settings sv =
     (if \<not> tw_settings sv then ret default_trash_settings
      else bnd (attempt (tdb (gets bin_settings))) (\<lambda>v. case v of
        Inr (StoredValue s) \<Rightarrow>
          (let s' = (if tr_days s < 1 then s\<lparr>tr_days := 1\<rparr> else s) in
           case normalize_trash_settings s' of Inl e \<Rightarrow> throw e | Inr n \<Rightarrow> ret n)
      | _ \<Rightarrow> ret default_trash_settings))"

definition save_trash_settings :: "trash_wiring \<Rightarrow> trash_settings \<Rightarrow> trash_settings trash_m" where
  "save_trash_settings sv s =
     (if \<not> tw_settings sv then throw TrashSettingsUnavailable
      else case normalize_trash_settings s of
        Inl e \<Rightarrow> throw e
      | Inr n \<Rightarrow> seqm (tdb (modify (\<lambda>w. w\<lparr>bin_settings := StoredValue n\<rparr>))) (ret n))"

section \<open>The service\<close>

definition attach_library :: "trash_wiring \<Rightarrow> trash_item \<Rightarrow> trash_item" where
  "attach_library sv item = (case tw_library sv (ti_row_original item) of
     Inr (Some l) \<Rightarrow> item\<lparr>ti_row_library := lib_id l\<rparr>
   | _ \<Rightarrow> item)"

definition info_of :: "trash_item \<Rightarrow> trash_info" where
  "info_of item = \<lparr>ti_id = ti_row_id item, ti_original = ti_row_original item, ti_trash = ti_row_trash item,
     ti_library = ti_row_library item, ti_deleted_at = Some (ti_row_deleted_at item),
     ti_deleted_by = ti_row_deleted_by item\<rparr>"

definition item_from_info :: "int \<Rightarrow> trash_info \<Rightarrow> trash_item" where
  "item_from_info now info = \<lparr>ti_row_id = ti_id info, ti_row_original = ti_original info,
     ti_row_trash = ti_trash info, ti_row_library = ti_library info,
     ti_row_deleted_at = (case ti_deleted_at info of None \<Rightarrow> now | Some t \<Rightarrow> t),
     ti_row_deleted_by = ti_deleted_by info\<rparr>"

definition move_item :: "trash_wiring \<Rightarrow> string \<Rightarrow> string \<Rightarrow> trash_item trash_m" where
  "move_item sv raw deleted_by =
     (if \<not> tw_wired sv then throw TrashUnavailable
      else bnd (draw TrashIo) (\<lambda>i.
        bnd (move_to_trash raw i) (\<lambda>(original, trash_rel).
        bnd (gets w_now) (\<lambda>now.
          let item = attach_library sv \<lparr>ti_row_id = i, ti_row_original = original, ti_row_trash = trash_rel,
            ti_row_library = [], ti_row_deleted_at = now, ti_row_deleted_by = deleted_by\<rparr> in
          seqm (ignore (write_trash_info i (info_of item)))
          (bnd (attempt (tstore_insert item)) (\<lambda>res. case res of
            Inl e \<Rightarrow> seqm (ignore (restore_from_trash (ti_row_original item) (ti_row_trash item) i)) (throw e)
          | Inr _ \<Rightarrow> ret item))))))"

fun reconcile_ids :: "string list \<Rightarrow> unit trash_m" where
  "reconcile_ids [] = ret ()"
| "reconcile_ids (i # is) = seqm
     (bnd (attempt (tstore_get i)) (\<lambda>got. case got of
        Inr _ \<Rightarrow> ret ()
      | Inl _ \<Rightarrow> bnd (attempt (read_trash_info i)) (\<lambda>read. case read of
          Inl _ \<Rightarrow> ret ()
        | Inr info \<Rightarrow> bnd (gets w_now) (\<lambda>now. ignore (tstore_insert (item_from_info now info))))))
     (reconcile_ids is)"

definition reconcile_disk :: "unit trash_m" where
  "reconcile_disk = bnd (attempt list_trash_item_ids) (\<lambda>ids. case ids of
     Inl _ \<Rightarrow> ret () | Inr is \<Rightarrow> reconcile_ids is)"

definition list_items :: "trash_wiring \<Rightarrow> trash_item list trash_m" where
  "list_items sv = (if \<not> tw_wired sv then throw TrashUnavailable else seqm reconcile_disk tstore_list)"

definition restore_item :: "trash_wiring \<Rightarrow> string \<Rightarrow> trash_item trash_m" where
  "restore_item sv i =
     (if \<not> tw_wired sv then throw TrashUnavailable
      else bnd (tstore_get i) (\<lambda>item.
        seqm (restore_from_trash (ti_row_original item) (ti_row_trash item) (ti_row_id item))
       (seqm (tstore_delete (ti_row_id item)) (ret item))))"

definition delete_forever :: "trash_wiring \<Rightarrow> string \<Rightarrow> unit trash_m" where
  "delete_forever sv i =
     (if \<not> tw_wired sv then throw TrashUnavailable
      else bnd (tstore_get i) (\<lambda>item.
        seqm (whenm (tw_cleaner sv) (modify (\<lambda>w. w\<lparr>cleaned := cleaned w @ [item]\<rparr>)))
       (seqm (remove_trash_item (ti_row_id item))
         (tstore_delete (ti_row_id item)))))"

fun delete_each :: "trash_wiring \<Rightarrow> trash_item list \<Rightarrow> nat \<Rightarrow> nat trash_m" where
  "delete_each sv [] n = ret n"
| "delete_each sv (item # items) n = seqm (delete_forever sv (ti_row_id item)) (delete_each sv items (n + 1))"

definition empty_all :: "trash_wiring \<Rightarrow> nat trash_m" where
  "empty_all sv = bnd (list_items sv) (\<lambda>items. delete_each sv items 0)"

definition original_prefixes :: "trash_wiring \<Rightarrow> string list trash_m" where
  "original_prefixes sv = (if \<not> tw_wired sv then ret [] else tstore_original_prefixes)"

text \<open>\<open>AddDate(0, 0, days)\<close> on a UTC time.\<close>

definition day_ns :: int where
  "day_ns = 24 * 60 * 60 * 1000000000"

definition expired :: "int \<Rightarrow> trash_settings \<Rightarrow> trash_item \<Rightarrow> bool" where
  "expired now s item \<longleftrightarrow> \<not> now < ti_row_deleted_at item + tr_days s * day_ns"

fun purge_each :: "trash_wiring \<Rightarrow> int \<Rightarrow> trash_settings \<Rightarrow> trash_item list \<Rightarrow> nat \<Rightarrow> nat trash_m" where
  "purge_each sv now s [] n = ret n"
| "purge_each sv now s (item # items) n =
     (if \<not> expired now s item then purge_each sv now s items n
      else seqm (delete_forever sv (ti_row_id item)) (purge_each sv now s items (n + 1)))"

definition purge_expired :: "trash_wiring \<Rightarrow> nat trash_m" where
  "purge_expired sv = bnd (get_trash_settings sv) (\<lambda>s.
     if \<not> tr_enabled s then ret 0
     else bnd (list_items sv) (\<lambda>items. bnd (gets w_now) (\<lambda>now. purge_each sv now s items 0)))"

definition next_utc_midnight :: "int \<Rightarrow> int" where
  "next_utc_midnight now = (now div day_ns + 1) * day_ns"

end
