(* ===== verification/TrashSafety.thy ===== *)
theory TrashSafety
  imports Trash
begin

text \<open>
  What the recycle bin guarantees. The main result is the round trip: trashing an entry and restoring it
  gives back the tree as it was. Purging removes what is due and nothing else.
\<close>

section \<open>Locating plain paths\<close>

lemma media_dir_root: "media_root media_dir"
  unfolding media_root_def by (rule exI [of _ "[''media'']"]) (simp add: good_seg_def media_dir_def)

definition blocked :: "tree \<Rightarrow> string list \<Rightarrow> bool" where
  "blocked t p \<longleftrightarrow> node_at t p = None \<and>
     (\<exists>q \<in> set (prefixes p). (case node_at t q of Some (FileNode _) \<Rightarrow> True | _ \<Rightarrow> False))"

lemma locate_decoded:
  assumes "path_unescape (trim_prefix raw ''/'') = Some v" and "nul \<notin> set v"
  shows "locate t raw = (if blocked t (segs (resolve_rel v)) then Inl MediaSymlinkError else Inr (resolve_rel v))"
proof -
  let ?rel = "resolve_rel v"
  let ?full = "if ?rel = [] then media_dir else media_dir @ CHR ''/'' # ?rel"
  have "segs (drop (length media_dir + 1) ?full) = segs ?rel" by simp
  then have "tree_eval t ?full = (if node_at t (segs ?rel) \<noteq> None then SymTarget ?full
      else if blocked t (segs ?rel) then SymFailed else SymNotExist)"
    by (simp add: tree_eval_def blocked_def Let_def)
  moreover have "is_within_root media_dir ?full"
    using within_root_below media_root_no_trailing [OF media_dir_root] by simp
  ultimately show ?thesis
    unfolding locate_def resolve_run [OF media_dir_root assms] Let_def
    by (auto simp: blocked_def)
qed

lemma resolve_rel_clean: "resolve_rel v = clean_media_rel_path v"
  by (auto simp: resolve_rel_def clean_media_join clean_rooted_def Let_def trim_prefix_def has_prefix_def)

lemma locate_Inr:
  assumes "locate t raw = Inr rel"
  shows "safe_rel rel" and "nul \<notin> set rel" and "\<not> blocked t (segs rel)"
proof -
  from assms obtain full where "resolve (tree_eval t) media_dir raw = Inr (full, rel)"
    by (auto simp: locate_def split: sum.splits)
  then obtain v where v: "path_unescape (trim_prefix raw ''/'') = Some v" "nul \<notin> set v" "rel = resolve_rel v"
    by (rule resolve_Inr) blast
  show "safe_rel rel" using v(3) by (simp add: fs_cleaner.norm_safe)
  show "\<not> blocked t (segs rel)" using assms v(3) locate_decoded [OF v(1,2), of t] by (auto split: if_splits)
  from v nul_clean show "nul \<notin> set rel" by (simp add: resolve_rel_clean)
qed

text \<open>A path that is found as it is written.\<close>

definition plain_path :: "string \<Rightarrow> bool" where
  "plain_path rel \<longleftrightarrow> safe_rel rel \<and> nul \<notin> set rel \<and> CHR ''%'' \<notin> set rel"

lemma locate_plain:
  assumes "plain_path rel"
  shows "locate t rel = (if blocked t (segs rel) then Inl MediaSymlinkError else Inr rel)"
proof -
  from assms have "trim_prefix rel ''/'' = rel"
    using safe_rel_no_lead [of rel] by (cases rel) (auto simp: plain_path_def trim_prefix_def has_prefix_def)
  with assms locate_decoded [of rel rel t] fs_cleaner.norm_id [of rel] show ?thesis
    by (simp add: plain_path_def path_unescape_id)
qed

text \<open>What \<open>uuid.NewRandom\<close> returns, as text.\<close>

definition uuid_text :: "string \<Rightarrow> bool" where
  "uuid_text i \<longleftrightarrow> i \<noteq> [] \<and> set i \<subseteq> set ''0123456789abcdef-''"

lemma uuid_seg: "uuid_text i \<Longrightarrow> good_seg i \<and> CHR ''%'' \<notin> set i \<and> nul \<notin> set i"
  by (auto simp: uuid_text_def good_seg_def nul_def)

lemma uuid_valid: "uuid_text i \<Longrightarrow> validate_trash_item_id i = Inr ()"
  by (auto simp: validate_trash_item_id_def uuid_text_def contains_def sublist_def)

lemma clean_rel_good: "\<forall>s \<in> set ss. good_seg s \<Longrightarrow> clean_rel_segs acc ss = rev acc @ ss"
  by (induction ss arbitrary: acc) auto

lemma segs_join: "ss \<noteq> [] \<Longrightarrow> \<forall>s \<in> set ss. good_seg s \<Longrightarrow> segs (join_on CHR ''/'' ss) = ss"
  using good_segD(4) by (auto simp: segs_def split_join join_on_eq_Nil)

lemma good_segs: "safe_rel rel \<Longrightarrow> \<forall>s \<in> set (segs rel). good_seg s"
  by (auto simp: segs_def safe_rel_def)

lemma join_segs: "join_on CHR ''/'' (segs rel) = rel"
  by (simp add: segs_def)

lemma join_cons_segs: "rel \<noteq> [] \<Longrightarrow> join_on CHR ''/'' (x # segs rel) = x @ CHR ''/'' # rel"
  using join_segs [of rel] by (cases "segs rel") auto

lemma path_join_good:
  assumes "ss \<noteq> []" and "\<forall>s \<in> set ss. good_seg s"
  shows "clean_path (join_on CHR ''/'' ss) = join_on CHR ''/'' ss"
proof -
  from assms have split: "split_on CHR ''/'' (join_on CHR ''/'' ss) = ss"
    using good_segD(4) by (auto simp: split_join)
  have "\<not> has_prefix (join_on CHR ''/'' ss) ''/''"
    using safe_rel_no_lead [of "join_on CHR ''/'' ss"] safe_rel_join [OF assms(2)]
    by (cases "join_on CHR ''/'' ss") (auto simp: has_prefix_def)
  with split assms show ?thesis by (simp add: clean_path_def clean_rel_good Let_def)
qed

lemma trash_path_join:
  assumes "uuid_text i" and "safe_rel rel" and "rel \<noteq> []"
  shows "path_join [''.trash'', i, rel] = join_on CHR ''/'' (''.trash'' # i # segs rel)"
    and "path_join [''.trash'', i] = join_on CHR ''/'' [''.trash'', i]"
proof -
  have t: "good_seg ''.trash''" by (simp add: good_seg_def)
  have "join_on CHR ''/'' [''.trash'', i, rel] = join_on CHR ''/'' (''.trash'' # i # segs rel)"
    using join_cons_segs [OF assms(3), of i] by simp
  with path_join_good [of "''.trash'' # i # segs rel"] t uuid_seg [OF assms(1)] good_segs [OF assms(2)] assms
  show "path_join [''.trash'', i, rel] = join_on CHR ''/'' (''.trash'' # i # segs rel)"
    by (simp add: path_join_def uuid_text_def)
  from path_join_good [of "[''.trash'', i]"] t uuid_seg [OF assms(1)] assms(1)
  show "path_join [''.trash'', i] = join_on CHR ''/'' [''.trash'', i]"
    by (simp add: path_join_def uuid_text_def)
qed

lemma plain_trash_path:
  assumes "uuid_text i" and "plain_path rel" and "rel \<noteq> []"
  shows "plain_path (path_join [''.trash'', i, rel])" and "segs (path_join [''.trash'', i, rel]) = ''.trash'' # i # segs rel"
    and "plain_path (path_join [''.trash'', i])" and "segs (path_join [''.trash'', i]) = [''.trash'', i]"
    and "is_trash_path (path_join [''.trash'', i, rel])"
proof -
  from assms(2) have rel: "safe_rel rel" "nul \<notin> set rel" "CHR ''%'' \<notin> set rel" by (simp_all add: plain_path_def)
  note join = trash_path_join [OF assms(1) rel(1) assms(3)]
  have good: "\<forall>s \<in> set (''.trash'' # i # segs rel). good_seg s" "\<forall>s \<in> set [''.trash'', i]. good_seg s"
    using uuid_seg [OF assms(1)] good_segs [OF rel(1)] by (auto simp: good_seg_def)
  have chars: "set (join_on CHR ''/'' (''.trash'' # i # segs rel)) \<subseteq> set ''.trash/'' \<union> set i \<union> set rel"
    using join_cons_segs [OF assms(3), of i] by auto
  show "plain_path (path_join [''.trash'', i, rel])"
    unfolding join plain_path_def using safe_rel_join [OF good(1)] chars uuid_seg [OF assms(1)] rel
    by (auto simp: nul_def)
  show "plain_path (path_join [''.trash'', i])"
    unfolding join plain_path_def using safe_rel_join [OF good(2)] uuid_seg [OF assms(1)]
    by (auto simp: nul_def)
  show "segs (path_join [''.trash'', i, rel]) = ''.trash'' # i # segs rel"
    unfolding join by (rule segs_join) (use good in auto)
  show "segs (path_join [''.trash'', i]) = [''.trash'', i]"
    unfolding join by (rule segs_join) (use good in auto)
  show "is_trash_path (path_join [''.trash'', i, rel])"
    unfolding join by (cases "segs rel") (auto simp: is_trash_path_def trim_prefix_def has_prefix_def)
qed

section \<open>Running the operations without failures\<close>

lemma tio_run: "w_faults w = [] \<Longrightarrow> tio f w = f w"
  by (simp add: tio_def io_call_no_fault)

lemma tdb_run: "w_faults w = [] \<Longrightarrow> tdb f w = f w"
  by (simp add: tdb_def io_call_no_fault)

lemma os_change_run:
  "w_faults w = [] \<Longrightarrow> os_change f w =
    (case f (tree w) of None \<Rightarrow> (Inl TrashIo, w) | Some t \<Rightarrow> (Inr (), w\<lparr>tree := t\<rparr>))"
  by (simp add: os_change_def tio_run)

lemma os_stat_run: "w_faults w = [] \<Longrightarrow> os_stat p w = (Inr (node_at (tree w) p), w)"
  by (simp add: os_stat_def tio_run)

lemma at_path_run:
  "plain_path rel \<Longrightarrow> \<not> blocked (tree w) (segs rel) \<Longrightarrow> at_path rel w = (Inr rel, w)"
  by (simp add: at_path_def locate_plain)

lemma checked_uuid: "uuid_text i \<Longrightarrow> checked_id i w = (Inr (), w)"
  by (simp add: checked_id_def uuid_valid)

lemma move_to_trash_Inr:
  assumes db: "w_faults w = []" and i: "uuid_text i" and run: "move_to_trash raw i w = (Inr (rel, trash_rel), w')"
    and plain: "CHR ''%'' \<notin> set rel"
  obtains t1 t2 where "plain_path rel" and "rel \<noteq> []" and "\<not> is_trash_path rel"
    and "trash_rel = path_join [''.trash'', i, rel]"
    and "node_at (tree w) (segs rel) \<noteq> None"
    and "mkdir_all (''.trash'' # i # butlast (segs rel)) (tree w) = Some t1"
    and "rename (segs rel) (''.trash'' # i # segs rel) t1 = Some t2" and "w' = w\<lparr>tree := t2\<rparr>"
proof -
  let ?rest = "\<lambda>rel. if rel = [] \<or> is_trash_path rel then throw TrashForbidden
     else bnd (os_stat (segs rel)) (\<lambda>n.
       if n = None then throw TrashIo
       else let trash_rel = path_join [''.trash'', i, rel] in
         bnd (at_path trash_rel) (\<lambda>dest.
           seqm (os_change (mkdir_all (butlast (segs dest))))
          (seqm (os_change (rename (segs rel) (segs dest)))
            (ret (rel, trash_rel)))))"
  from run have "bnd (at_path raw) ?rest w = (Inr (rel, trash_rel), w')"
    by (simp add: move_to_trash_def run_seqm checked_uuid [OF i])
  then obtain r w1 where r: "at_path raw w = (Inr r, w1)" and rest: "?rest r w1 = (Inr (rel, trash_rel), w')"
    by (rule bnd_InrE)
  from r have w1: "w1 = w" and loc: "locate (tree w) raw = Inr r" by (auto simp: at_path_def split: sum.splits)
  from rest have ne: "r \<noteq> []" "\<not> is_trash_path r" by (auto split: if_splits)
  with rest w1 db have node: "node_at (tree w) (segs r) \<noteq> None"
    by (auto simp: run_bnd os_stat_run split: if_splits)
  with rest ne w1 db have moved: "bnd (at_path (path_join [''.trash'', i, r])) (\<lambda>dest.
           seqm (os_change (mkdir_all (butlast (segs dest))))
          (seqm (os_change (rename (segs r) (segs dest)))
            (ret (r, path_join [''.trash'', i, r])))) w = (Inr (rel, trash_rel), w')"
    by (simp add: run_bnd os_stat_run Let_def)
  then have same: "r = rel" "trash_rel = path_join [''.trash'', i, rel]"
    by (auto elim!: bnd_InrE seqm_InrE)
  from locate_Inr [OF loc] same plain have rel: "plain_path rel" by (simp add: plain_path_def)
  note path = plain_trash_path [OF i rel ne(1) [unfolded same]]
  from moved same have "locate (tree w) trash_rel = Inr trash_rel"
    using path(1) by (auto simp: at_path_def locate_plain elim!: bnd_InrE split: if_splits)
  then have at: "at_path (path_join [''.trash'', i, rel]) w = (Inr (path_join [''.trash'', i, rel]), w)"
    by (simp add: at_path_def same)
  have last: "segs rel \<noteq> []" using ne same by (simp add: segs_def)
  from moved at db obtain t1 t2 where "mkdir_all (''.trash'' # i # butlast (segs rel)) (tree w) = Some t1"
    "rename (segs rel) (''.trash'' # i # segs rel) t1 = Some t2" "w' = w\<lparr>tree := t2\<rparr>"
    by (auto simp: run_bnd run_seqm os_change_run same path(2) last split: option.splits)
  with that rel ne node same show thesis by blast
qed

section \<open>The tree after a move\<close>

text \<open>\<open>trashed rs i t t'\<close>: below \<open>.trash/i\<close> the tree \<open>t'\<close> has what \<open>t\<close> had at \<open>rs\<close> (and possibly an
  \<open>info.json\<close>), and elsewhere it is \<open>t\<close> without \<open>rs\<close>.\<close>

definition bin_dir :: "string \<Rightarrow> string list" where
  "bin_dir i = [''.trash'', i]"

definition trashed :: "string list \<Rightarrow> string \<Rightarrow> tree \<Rightarrow> tree \<Rightarrow> bool" where
  "trashed rs i t t' \<longleftrightarrow>
     (\<forall>x. rs @ x \<noteq> [''info.json''] \<longrightarrow> node_at t' (bin_dir i @ rs @ x) = node_at t (rs @ x)) \<and>
     (\<forall>p. \<not> prefix [''.trash''] p \<longrightarrow> node_at t' p = (if prefix rs p then None else node_at t p))"

definition outside_trash :: "tree \<Rightarrow> string list \<Rightarrow> node option" where
  "outside_trash t p = (if prefix [''.trash''] p then None else node_at t p)"

lemma rename_fresh:
  assumes "rename s d t = Some t'" and free: "\<forall>q. prefix d q \<longrightarrow> node_at t q = None"
  shows "t' = move_tree s d t"
proof -
  from free have "node_at t d = None" by simp
  moreover from assms(1) this have "s \<noteq> d" by (auto simp: rename_def)
  ultimately show ?thesis using assms(1) by (auto simp: rename_def split: option.splits if_splits)
qed

lemma mkdir_all_no_file:
  "mkdir_all p t = Some t' \<Longrightarrow> prefix q p \<Longrightarrow> \<not> (case node_at t q of Some (FileNode _) \<Rightarrow> True | _ \<Rightarrow> False)"
  by (auto simp: mkdir_all_def simp del: not_None_eq split: if_splits)

lemma moved_trashed:
  assumes mk: "mkdir_all (bin_dir i @ butlast rs) t = Some t1" and mv: "rename rs (bin_dir i @ rs) t1 = Some t2"
    and fresh: "\<forall>p. prefix (bin_dir i) p \<longrightarrow> node_at t p = None" and rs: "rs \<noteq> []" "hd rs \<noteq> ''.trash''"
    and root: "node_at t [] = Some DirNode"
  shows "trashed rs i t t2" and "\<forall>q \<in> set (prefixes (bin_dir i)). node_at t2 q = Some DirNode"
proof -
  have t1: "node_at t1 q = (if node_at t q = None \<and> prefix q (bin_dir i @ butlast rs) then Some DirNode else node_at t q)" for q
    using mk by (rule node_at_mkdir_all)
  have free: "\<forall>q. prefix (bin_dir i @ rs) q \<longrightarrow> node_at t1 q = None"
  proof (intro allI impI)
    fix q assume q: "prefix (bin_dir i @ rs) q"
    then have "prefix (bin_dir i) q" by (auto simp: prefix_def)
    moreover have "\<not> prefix q (bin_dir i @ butlast rs)"
    proof
      assume "prefix q (bin_dir i @ butlast rs)"
      with q have "length (bin_dir i @ rs) \<le> length (bin_dir i @ butlast rs)"
        by (meson prefix_length_le prefix_order.order_trans)
      with rs show False by (cases "length rs") simp_all
    qed
    ultimately show "node_at t1 q = None" using fresh t1 by simp
  qed
  from rename_fresh [OF mv free] node_at_move [OF free] have t2: "node_at t2 q =
      (if prefix (bin_dir i @ rs) q then node_at t1 (rs @ drop (length (bin_dir i @ rs)) q)
       else if prefix rs q then None else node_at t1 q)" for q
    by simp
  have out: "node_at t1 q = node_at t q" if "\<not> prefix [''.trash''] q" for q
    using that t1 [of q] root by (cases q) (auto simp: bin_dir_def)
  have rs_out: "\<not> prefix [''.trash''] (rs @ x)" for x using rs by (cases rs) auto
  have in_bin: "prefix [''.trash''] q" if "prefix (bin_dir i) q" for q
    using that by (auto simp: bin_dir_def prefix_def)
  show "trashed rs i t t2"
    unfolding trashed_def
  proof (intro conjI allI impI)
    fix x
    have "prefix (bin_dir i @ rs) (bin_dir i @ rs @ x)" by simp
    then have "node_at t2 (bin_dir i @ rs @ x) = node_at t1 (rs @ x)"
      unfolding t2 by (simp add: bin_dir_def)
    then show "node_at t2 (bin_dir i @ rs @ x) = node_at t (rs @ x)" using out rs_out by simp
  next
    fix p assume p: "\<not> prefix [''.trash''] p"
    then have "\<not> prefix (bin_dir i @ rs) p" using in_bin [of p] by (auto simp: prefix_def)
    with out [OF p] show "node_at t2 p = (if prefix rs p then None else node_at t p)" unfolding t2 by simp
  qed
  show "\<forall>q \<in> set (prefixes (bin_dir i)). node_at t2 q = Some DirNode"
  proof
    fix q assume "q \<in> set (prefixes (bin_dir i))"
    then have q: "prefix q (bin_dir i)" by simp
    then have "prefix q (bin_dir i @ butlast rs)" by (rule prefix_order.trans) simp
    then have "\<not> (case node_at t q of Some (FileNode _) \<Rightarrow> True | _ \<Rightarrow> False)"
      using mkdir_all_no_file [OF mk] by simp
    then have "node_at t q = None \<or> node_at t q = Some DirNode"
      by (simp split: option.splits node.splits)
    with t1 \<open>prefix q (bin_dir i @ butlast rs)\<close> have "node_at t1 q = Some DirNode" by auto
    moreover have "\<not> prefix (bin_dir i @ rs) q"
    proof
      assume "prefix (bin_dir i @ rs) q"
      from prefix_length_le [OF this] prefix_length_le [OF q] rs show False by (cases "length rs") auto
    qed
    moreover have "\<not> prefix rs q"
      using rs q by (cases rs; cases q) (auto simp: bin_dir_def)
    ultimately show "node_at t2 q = Some DirNode" unfolding t2 by simp
  qed
qed

lemma trashed_write_info:
  assumes tr: "trashed rs i t t'" and wr: "write_file (bin_dir i @ [''info.json'']) c t' = Some t''"
  shows "trashed rs i t t''"
  using tr node_at_write_file [OF wr] by (auto simp: trashed_def bin_dir_def)

lemma mkdir_existing:
  assumes "\<forall>q \<in> set (prefixes p). node_at t q = Some DirNode"
  shows "mkdir_all p t = Some t"
proof -
  from assms have "filter (\<lambda>q. node_at t q = None) (prefixes p) = []" by (auto simp: filter_empty_conv)
  with assms show ?thesis by (auto simp: mkdir_all_def)
qed

text \<open>Moving back: the parents of the original path are still there.\<close>

lemma restored_tree:
  assumes wf: "wf_tree t" and tr: "trashed rs i t t4" and had: "node_at t rs \<noteq> None"
    and rs: "rs \<noteq> []" "hd rs \<noteq> ''.trash''" "rs \<noteq> [''info.json'']"
  shows "mkdir_all (butlast rs) t4 = Some t4"
    and "rename (bin_dir i @ rs) rs t4 = Some (move_tree (bin_dir i @ rs) rs t4)"
    and "outside_trash (remove_all (bin_dir i) (move_tree (bin_dir i @ rs) rs t4)) = outside_trash t"
proof -
  have rs_out: "\<not> prefix [''.trash''] (rs @ x)" for x using rs by (cases rs) auto
  have out4: "node_at t4 p = (if prefix rs p then None else node_at t p)" if "\<not> prefix [''.trash''] p" for p
    using tr that by (simp add: trashed_def)
  have in4: "node_at t4 (bin_dir i @ rs @ x) = node_at t (rs @ x)" for x
    using tr rs by (cases rs) (auto simp: trashed_def)
  from had obtain n where n: "node_at t rs = Some n" by blast
  have parents: "node_at t4 q = Some DirNode" if q: "prefix q (butlast rs)" for q
  proof -
    from q obtain z where "butlast rs = q @ z" by (auto elim: prefixE)
    with rs have "rs = q @ z @ [last rs]" by (metis append.assoc append_butlast_last_id)
    then have "strict_prefix q rs" by (metis append_Nil2 append_is_Nil_conv list.distinct(1) prefixI
      prefix_order.dual_order.not_eq_order_implies_strict same_append_eq)
    with wf n have "node_at t q = Some DirNode" by (intro wf_prefix_dir)
    moreover have "\<not> prefix [''.trash''] q"
      using \<open>strict_prefix q rs\<close> rs_out [of "[]"] by (auto simp: strict_prefix_def intro: prefix_order.trans)
    moreover have "\<not> prefix rs q" using \<open>strict_prefix q rs\<close> by (meson prefix_order.leD)
    ultimately show ?thesis using out4 by simp
  qed
  then show mk: "mkdir_all (butlast rs) t4 = Some t4" by (intro mkdir_existing) simp
  have free: "\<forall>q. prefix rs q \<longrightarrow> node_at t4 q = None"
    using out4 rs_out by (auto simp: prefix_def)
  have src: "node_at t4 (bin_dir i @ rs) = Some n" using in4 [of "[]"] n by simp
  have apart: "bin_dir i @ rs \<noteq> rs" "\<not> prefix (bin_dir i @ rs) rs" by (auto dest: prefix_length_le simp: bin_dir_def)
  have par: "node_at t4 (butlast rs) = Some DirNode" by (rule parents) simp
  have none: "node_at t4 rs = None" using free by simp
  from src apart par none show "rename (bin_dir i @ rs) rs t4 = Some (move_tree (bin_dir i @ rs) rs t4)"
    by (simp add: rename_def)
  show "outside_trash (remove_all (bin_dir i) (move_tree (bin_dir i @ rs) rs t4)) = outside_trash t"
  proof (rule ext)
    fix p
    show "outside_trash (remove_all (bin_dir i) (move_tree (bin_dir i @ rs) rs t4)) p = outside_trash t p"
    proof (cases "prefix [''.trash''] p")
      case True
      then show ?thesis by (simp add: outside_trash_def)
    next
      case False
      then have "\<not> prefix (bin_dir i) p" "\<not> prefix (bin_dir i @ rs) p" by (auto simp: bin_dir_def prefix_def)
      then have "node_at (remove_all (bin_dir i) (move_tree (bin_dir i @ rs) rs t4)) p =
          (if prefix rs p then node_at t4 ((bin_dir i @ rs) @ drop (length rs) p) else node_at t4 p)"
        unfolding node_at_remove_all node_at_move [OF free] by simp
      also have "\<dots> = node_at t p"
        using in4 [of "drop (length rs) p"] out4 [OF False] by (auto simp: prefix_def)
      finally show ?thesis using False by (simp add: outside_trash_def)
    qed
  qed
qed

section \<open>The round trip\<close>

text \<open>The situation before a move: a proper tree, no failures ahead, and an unused identity drawn.\<close>

definition fresh_id :: "string \<Rightarrow> trash_world \<Rightarrow> bool" where
  "fresh_id i w \<longleftrightarrow> uuid_text i \<and> (\<forall>p. prefix (bin_dir i) p \<longrightarrow> node_at (tree w) p = None) \<and>
     i \<notin> ti_row_id ` set (bin w)"

lemma write_trash_info_run:
  assumes db: "w_faults w = []" and i: "uuid_text i" and dir: "node_at (tree w) (bin_dir i) = Some DirNode"
    and tr: "trashed rs i t (tree w)"
    and parents: "\<forall>q \<in> set (prefixes (bin_dir i)). node_at (tree w) q = Some DirNode"
  obtains t' where "ignore (write_trash_info i info) w = (Inr (), w\<lparr>tree := t'\<rparr>)" and "trashed rs i t t'"
    and "node_at t' (bin_dir i) = Some DirNode"
proof -
  have path: "plain_path (path_join [''.trash'', i])" "segs (path_join [''.trash'', i]) = bin_dir i"
    using plain_trash_path(3,4) [OF i, of "''x''"] by (simp_all add: bin_dir_def plain_path_def safe_rel_def good_seg_def nul_def)
  have "\<not> blocked (tree w) (bin_dir i)" using dir by (simp add: blocked_def)
  with path have at: "at_path (path_join [''.trash'', i]) w = (Inr (path_join [''.trash'', i]), w)"
    by (simp add: at_path_run)
  have mk: "mkdir_all (bin_dir i) (tree w) = Some (tree w)" by (rule mkdir_existing [OF parents])
  have run: "ignore (write_trash_info i info) w = (Inr (), snd (os_change (write_file (bin_dir i @ [''info.json'']) (InfoText info)) w))"
    using at mk db by (simp add: write_trash_info_def run_seqm run_bnd checked_uuid [OF i] path os_change_run)
  show thesis
  proof (cases "write_file (bin_dir i @ [''info.json'']) (InfoText info) (tree w)")
    case None
    with run db have "ignore (write_trash_info i info) w = (Inr (), w\<lparr>tree := tree w\<rparr>)" by (simp add: os_change_run)
    with tr dir that show ?thesis by blast
  next
    case (Some t')
    with run db have "ignore (write_trash_info i info) w = (Inr (), w\<lparr>tree := t'\<rparr>)" by (simp add: os_change_run)
    moreover have "node_at t' (bin_dir i) = Some DirNode" using node_at_write_file [OF Some] dir by (simp add: bin_dir_def)
    ultimately show ?thesis using that trashed_write_info [OF tr Some] by blast
  qed
qed

lemma not_trash_hd: "rel \<noteq> [] \<Longrightarrow> \<not> is_trash_path rel \<Longrightarrow> hd (segs rel) \<noteq> ''.trash''"
proof
  assume "rel \<noteq> []" and not_trash: "\<not> is_trash_path rel" and "hd (segs rel) = ''.trash''"
  then obtain ss where "segs rel = ''.trash'' # ss" by (cases "segs rel") (auto simp: segs_def)
  with join_segs [of rel] have "rel = join_on CHR ''/'' (''.trash'' # ss)" by simp
  with not_trash show False
    by (cases ss) (auto simp: is_trash_path_def trim_prefix_def has_prefix_def)
qed

lemma trim_plain: "plain_path rel \<Longrightarrow> trim_prefix rel ''/'' = rel"
  using safe_rel_no_lead [of rel] by (cases rel) (auto simp: plain_path_def trim_prefix_def has_prefix_def)

lemma not_blocked_dest:
  assumes "mkdir_all (butlast p) t = Some t'" and "p \<noteq> []" and "node_at t p = None"
  shows "\<not> blocked t p"
proof -
  have "prefix q (butlast p) \<or> q = p" if "prefix q p" for q
    using that assms(2) by (metis append_butlast_last_id prefix_snoc)
  with assms show ?thesis
    by (fastforce simp: blocked_def mkdir_all_def split: if_splits)
qed

lemma restore_from_trash_run:
  assumes db: "w_faults w = []" and i: "uuid_text i" and rel: "plain_path rel" "rel \<noteq> []" "\<not> is_trash_path rel"
    and wf: "wf_tree t" and tr: "trashed (segs rel) i t (tree w)" and had: "node_at t (segs rel) \<noteq> None"
    and dir: "node_at (tree w) (bin_dir i) = Some DirNode" and name: "rel \<noteq> ''info.json''"
  obtains t' where "restore_from_trash rel (path_join [''.trash'', i, rel]) i w = (Inr (), w\<lparr>tree := t'\<rparr>)"
    and "outside_trash t' = outside_trash t"
proof -
  let ?rs = "segs rel" and ?trash = "path_join [''.trash'', i, rel]"
  let ?t6 = "move_tree (bin_dir i @ ?rs) ?rs (tree w)"
  note path = plain_trash_path [OF i rel(1,2)]
  from rel(2) name join_segs [of rel] have rs: "?rs \<noteq> []" "?rs \<noteq> [''info.json'']" by auto
  from rel(2,3) have hd: "hd ?rs \<noteq> ''.trash''"
    by (rule not_trash_hd)
  note undo = restored_tree [OF wf tr had rs(1) hd rs(2)]
  have free: "\<forall>q. prefix ?rs q \<longrightarrow> node_at (tree w) q = None"
  proof (intro allI impI)
    fix q assume q: "prefix ?rs q"
    with rs hd have "\<not> prefix [''.trash''] q" by (cases ?rs) (auto simp: prefix_def)
    with tr q show "node_at (tree w) q = None" unfolding trashed_def by simp
  qed
  have src: "node_at (tree w) (bin_dir i @ ?rs) = node_at t ?rs"
    using tr [unfolded trashed_def, THEN conjunct1, rule_format, of "[]"] rs by simp
  have at_src: "at_path ?trash w = (Inr ?trash, w)"
    using path src had by (intro at_path_run) (simp_all add: blocked_def bin_dir_def)
  have at_dest: "at_path rel w = (Inr rel, w)"
    using rel(1) not_blocked_dest [OF undo(1) rs(1)] free by (intro at_path_run) simp_all
  have at_bin: "at_path (path_join [''.trash'', i]) (w\<lparr>tree := ?t6\<rparr>) =
      (Inr (path_join [''.trash'', i]), w\<lparr>tree := ?t6\<rparr>)"
  proof (rule at_path_run)
    have "\<not> prefix (bin_dir i @ ?rs) (bin_dir i)" using rs by (auto dest: prefix_length_le)
    moreover have "\<not> prefix ?rs (bin_dir i)" using rs hd by (cases ?rs) (auto simp: bin_dir_def)
    ultimately have "node_at ?t6 (bin_dir i) = Some DirNode" unfolding node_at_move [OF free] using dir by simp
    then show "\<not> blocked (tree (w\<lparr>tree := ?t6\<rparr>)) (segs (path_join [''.trash'', i]))"
      using path(4) by (simp add: blocked_def bin_dir_def)
  qed (rule path(3))
  have trim: "trim_prefix rel ''/'' = rel" "trim_prefix ?trash ''/'' = ?trash"
    using rel(1) path(1) by (simp_all add: trim_plain)
  let ?w = "w\<lparr>tree := remove_all (bin_dir i) ?t6\<rparr>"
  have segs: "segs ?trash = bin_dir i @ ?rs" "segs (path_join [''.trash'', i]) = bin_dir i"
    using path by (simp_all add: bin_dir_def)
  have none: "node_at (tree w) ?rs = None" using free by simp
  from had obtain n where n: "node_at t ?rs = Some n" by blast
  have resolve: "resolve_restore_paths rel ?trash w = (Inr (?trash, rel), w)"
    using at_src at_dest db src n none
    by (simp add: resolve_restore_paths_def run_bnd os_stat_run segs)
  have remove: "remove_trash_item i (w\<lparr>tree := ?t6\<rparr>) = (Inr (), ?w)"
    using at_bin db by (simp add: remove_trash_item_def run_seqm run_bnd checked_uuid [OF i] os_change_run segs)
  have run: "restore_from_trash rel ?trash i w = (Inr (), ?w)"
    using resolve remove undo(1,2) db rel(2,3) path(5)
    by (simp add: restore_from_trash_def run_seqm run_bnd checked_uuid [OF i] trim Let_def os_change_run segs)
  show thesis by (rule that [OF run undo(3)])
qed

lemma attach_library_same:
  "ti_row_id (attach_library sv item) = ti_row_id item" "ti_row_original (attach_library sv item) = ti_row_original item"
  "ti_row_trash (attach_library sv item) = ti_row_trash item"
  "ti_row_deleted_at (attach_library sv item) = ti_row_deleted_at item"
  by (simp_all add: attach_library_def split: sum.splits option.splits)

text \<open>A move that returns an item: what the tree and the table are afterwards.\<close>

lemma move_item_Inr:
  assumes db: "w_faults w = []" and wf: "wf_tree (tree w)" and fresh: "fresh_id (hd (w_rand w)) w"
    and run: "move_item sv raw who w = (Inr item, w')" and plain: "CHR ''%'' \<notin> set (ti_row_original item)"
  obtains i rel where "uuid_text i" and "plain_path rel" and "rel \<noteq> []" and "\<not> is_trash_path rel"
    and "ti_row_id item = i" and "ti_row_original item = rel" and "ti_row_trash item = path_join [''.trash'', i, rel]"
    and "i \<notin> ti_row_id ` set (bin w)" and "node_at (tree w) (segs rel) \<noteq> None"
    and "trashed (segs rel) i (tree w) (tree w')" and "node_at (tree w') (bin_dir i) = Some DirNode"
    and "bin w' = bin w @ [item]" and "w_faults w' = []"
proof -
  from run have wired: "tw_wired sv" by (auto simp: move_item_def split: if_splits)
  with run obtain i rand where rand: "w_rand w = i # rand"
    by (auto simp: move_item_def run_bnd draw_def split: list.splits)
  let ?w0 = "w\<lparr>w_rand := rand\<rparr>"
  from fresh rand have i: "uuid_text i" and free: "\<forall>p. prefix (bin_dir i) p \<longrightarrow> node_at (tree ?w0) p = None"
    and new: "i \<notin> ti_row_id ` set (bin w)" by (simp_all add: fresh_id_def)
  from run wired rand obtain rel trash_rel w1 where mv: "move_to_trash raw i ?w0 = (Inr (rel, trash_rel), w1)"
    by (auto simp: move_item_def run_bnd draw_def split: prod.splits sum.splits)
  let ?item = "attach_library sv \<lparr>ti_row_id = i, ti_row_original = rel, ti_row_trash = trash_rel,
      ti_row_library = [], ti_row_deleted_at = w_now w1, ti_row_deleted_by = who\<rparr>"
  from run wired rand mv have rest: "seqm (ignore (write_trash_info i (info_of ?item)))
      (bnd (attempt (tstore_insert ?item)) (\<lambda>res. case res of
        Inl e \<Rightarrow> seqm (ignore (restore_from_trash (ti_row_original ?item) (ti_row_trash ?item) i)) (throw e)
      | Inr _ \<Rightarrow> ret ?item)) w1 = (Inr item, w')"
    by (simp add: move_item_def run_bnd draw_def Let_def)
  then have item: "item = ?item"
    by (auto simp: run_seqm run_bnd split: prod.splits sum.splits)
  have "CHR ''%'' \<notin> set rel" using plain item by (simp add: attach_library_same)
  then obtain t1 t2 where rel: "plain_path rel" "rel \<noteq> []" "\<not> is_trash_path rel"
    and trash: "trash_rel = path_join [''.trash'', i, rel]" and had: "node_at (tree w) (segs rel) \<noteq> None"
    and mk: "mkdir_all (bin_dir i @ butlast (segs rel)) (tree w) = Some t1"
    and mv2: "rename (segs rel) (bin_dir i @ segs rel) t1 = Some t2" and w1: "w1 = ?w0\<lparr>tree := t2\<rparr>"
    using move_to_trash_Inr [OF _ i mv] db by (auto simp: bin_dir_def)
  have rs: "segs rel \<noteq> []" using rel(2) by (simp add: segs_def)
  have root: "node_at (tree w) [] = Some DirNode" using wf by (simp add: wf_tree_def)
  from moved_trashed [OF mk mv2 _ rs not_trash_hd [OF rel(2,3)] root] free
  have tr: "trashed (segs rel) i (tree w) (tree w1)"
    and parents: "\<forall>q \<in> set (prefixes (bin_dir i)). node_at (tree w1) q = Some DirNode"
    by (simp_all add: w1)
  then have dir: "node_at (tree w1) (bin_dir i) = Some DirNode" by simp
  from db w1 have db1: "w_faults w1 = []" by simp
  from write_trash_info_run [OF db1 i dir tr parents] obtain t' where
    wr: "ignore (write_trash_info i (info_of ?item)) w1 = (Inr (), w1\<lparr>tree := t'\<rparr>)"
    and tr': "trashed (segs rel) i (tree w) t'" and dir': "node_at t' (bin_dir i) = Some DirNode" by blast
  from rest wr db1 have "tstore_insert ?item (w1\<lparr>tree := t'\<rparr>) = (Inr (), w')"
    by (auto simp: run_seqm run_bnd prod_eq_iff split: prod.splits sum.splits)
  then have w': "w' = w1\<lparr>tree := t', bin := bin w @ [item]\<rparr>"
    using db1 w1 item by (auto simp: tstore_insert_def tdb_run split: if_splits)
  show thesis
    by (rule that [of i rel]) (use i rel new had tr' dir' w' db1 item trash in \<open>simp_all add: attach_library_same\<close>)
qed

text \<open>A concrete bin: an old and a recent item, and two files that can be trashed.\<close>

definition bin_wiring :: trash_wiring where
  "bin_wiring = \<lparr>tw_wired = True, tw_settings = True, tw_cleaner = True, tw_library = \<lambda>_. Inr None\<rparr>"

definition old_item :: trash_item where
  "old_item = \<lparr>ti_row_id = ''a1'', ti_row_original = ''shows/a.mkv'', ti_row_trash = ''.trash/a1/shows/a.mkv'',
     ti_row_library = [], ti_row_deleted_at = 0, ti_row_deleted_by = ''u''\<rparr>"

definition bin_world :: trash_world where
  "bin_world = \<lparr>w_faults = [], w_rand = [''b2''], w_now = 3 * day_ns,
     tree = [([], DirNode), ([''.trash''], DirNode), ([''.trash'', ''a1''], DirNode),
       ([''.trash'', ''a1'', ''info.json''], FileNode (InfoText (info_of old_item))),
       ([''shows''], DirNode), ([''shows'', ''b.mkv''], FileNode (Bytes ''video'')), ([''info.json''], FileNode (Bytes ''mine''))],
     bin = [old_item, old_item\<lparr>ti_row_id := ''c3'', ti_row_trash := ''.trash/c3/x'', ti_row_deleted_at := 2 * day_ns + 1\<rparr>],
     bin_settings = StoredValue \<lparr>tr_enabled = True, tr_days = 1\<rparr>, cleaned = []\<rparr>"

text \<open>C12. The recycle bin is a round trip: moving an entry to the trash takes it, and only it, out of the
  visible tree and keeps everything below it unchanged in the trash folder of the item; restoring the item then
  succeeds, gives back the visible tree exactly as it was, and leaves no row. (The name \<open>info.json\<close> at the media root
  and names with a percent sign are excluded; both are findings.)\<close>

theorem trash_roundtrip:
  assumes db: "w_faults w = []" and wf: "wf_tree (tree w)" and fresh: "fresh_id (hd (w_rand w)) w"
    and run: "move_item sv raw who w = (Inr item, w1)"
    and name: "CHR ''%'' \<notin> set (ti_row_original item)" "ti_row_original item \<noteq> ''info.json''"
  shows "trashed (segs (ti_row_original item)) (ti_row_id item) (tree w) (tree w1) \<and>
    fst (restore_item sv (ti_row_id item) w1) = Inr item \<and>
    outside_trash (tree (snd (restore_item sv (ti_row_id item) w1))) = outside_trash (tree w) \<and>
    bin (snd (restore_item sv (ti_row_id item) w1)) = bin w"
proof -
  from run have wired: "tw_wired sv" by (auto simp: move_item_def split: if_splits)
  from db wf fresh run name(1) obtain i rel where i: "uuid_text i"
    and rel: "plain_path rel" "rel \<noteq> []" "\<not> is_trash_path rel"
    and item: "ti_row_id item = i" "ti_row_original item = rel" "ti_row_trash item = path_join [''.trash'', i, rel]"
    and new: "i \<notin> ti_row_id ` set (bin w)" and had: "node_at (tree w) (segs rel) \<noteq> None"
    and tr: "trashed (segs rel) i (tree w) (tree w1)" and dir: "node_at (tree w1) (bin_dir i) = Some DirNode"
    and bin1: "bin w1 = bin w @ [item]" and db1: "w_faults w1 = []"
    by (rule move_item_Inr)
  have none: "find (\<lambda>r. ti_row_id r = i) (bin w) = None" using new by (auto simp: find_None_iff)
  then have get: "tstore_get i w1 = (Inr item, w1)"
    using bin1 item db1 by (simp add: tstore_get_def tdb_run find_snoc)
  from restore_from_trash_run [OF db1 i rel wf tr had dir name(2) [unfolded item]] obtain t2
    where res: "restore_from_trash rel (path_join [''.trash'', i, rel]) i w1 = (Inr (), w1\<lparr>tree := t2\<rparr>)"
      and same: "outside_trash t2 = outside_trash (tree w)" by blast
  have "\<forall>r \<in> set (bin w). ti_row_id r \<noteq> i" using new by force
  then have "filter (\<lambda>r. ti_row_id r \<noteq> i) (bin w) = bin w" by (simp add: filter_id_conv)
  then have "delete_where (\<lambda>r. ti_row_id r = i) (bin w @ [item]) = bin w"
    using item by (simp add: delete_where_def)
  then have "restore_item sv i w1 = (Inr item, w1\<lparr>tree := t2, bin := bin w\<rparr>)"
    using wired get res item bin1 db1 by (simp add: restore_item_def run_bnd run_seqm tstore_delete_def tdb_run)
  with tr same item show ?thesis by simp
qed

lemma trash_roundtrip_witness:
  "fst (restore_item bin_wiring ''b2'' (snd (move_item bin_wiring ''/shows'' ''u'' bin_world))) =
     Inr (old_item\<lparr>ti_row_id := ''b2'', ti_row_original := ''shows'', ti_row_trash := ''.trash/b2/shows'', ti_row_deleted_at := 3 * day_ns\<rparr>) \<and>
   outside_trash (tree (snd (restore_item bin_wiring ''b2'' (snd (move_item bin_wiring ''/shows'' ''u'' bin_world))))) =
     outside_trash (tree bin_world)"
proof -
  let ?m = "move_item bin_wiring ''/shows'' ''u'' bin_world"
  let ?item = "old_item\<lparr>ti_row_id := ''b2'', ti_row_original := ''shows'', ti_row_trash := ''.trash/b2/shows'', ti_row_deleted_at := 3 * day_ns\<rparr>"
  have db: "w_faults bin_world = []" by (simp add: bin_world_def)
  have wf: "wf_tree (tree bin_world)" by code_simp
  have "fresh_id ''b2'' bin_world"
    by (auto simp: fresh_id_def uuid_text_def bin_world_def bin_dir_def node_at_def old_item_def)
  then have fresh: "fresh_id (hd (w_rand bin_world)) bin_world" by (simp add: bin_world_def)
  have "fst ?m = Inr ?item" by code_simp
  then have run: "?m = (Inr ?item, snd ?m)" by (cases ?m) simp
  from trash_roundtrip [OF db wf fresh run] show ?thesis by simp
qed

text \<open>A file named \<open>info.json\<close> at the root of the media tree does not survive the recycle bin: the move succeeds
  and reports the item, but writes the item's record over the file just moved, and restoring brings back that
  record under the file's name. The content is lost.\<close>

lemma trashing_info_json_loses_it:
  "(let w1 = snd (move_item bin_wiring ''/info.json'' ''u'' bin_world);
        w2 = snd (restore_item bin_wiring ''b2'' w1)
    in \<not> isl (fst (move_item bin_wiring ''/info.json'' ''u'' bin_world)) \<and>
       \<not> isl (fst (restore_item bin_wiring ''b2'' w1)) \<and>
       node_at (tree bin_world) [''info.json''] = Some (FileNode (Bytes ''mine'')) \<and>
       (case node_at (tree w2) [''info.json''] of Some (FileNode (InfoText info)) \<Rightarrow> ti_id info = ''b2'' | _ \<Rightarrow> False) \<and>
       FileNode (Bytes ''mine'') \<notin> set (map snd (tree w2)))"
  by code_simp

end
