(* ===== verification/TrashPurge.thy ===== *)
theory TrashPurge
  imports TrashSafety
begin

text \<open>
  What the operations of the recycle bin do to its table under any schedule of failures, and what follows
  for the purge (\<open>PurgeExpired\<close> of \<open>internal/trash/service.go\<close>): it removes the rows that are due and
  no other.
\<close>

section \<open>Operations that leave or extend the table\<close>

definition same_bin :: "trash_world \<Rightarrow> trash_world \<Rightarrow> bool" where
  "same_bin w w' \<longleftrightarrow> bin w' = bin w \<and> w_now w' = w_now w"

interpretation same_bin: env_rel same_bin
  by unfold_locales (auto simp: same_bin_def)

definition bin_grows :: "trash_world \<Rightarrow> trash_world \<Rightarrow> bool" where
  "bin_grows w w' \<longleftrightarrow> w_now w' = w_now w \<and> set (bin w) \<subseteq> set (bin w') \<and>
     (distinct (map ti_row_id (bin w)) \<longrightarrow> distinct (map ti_row_id (bin w')))"

interpretation bin_grows: env_rel bin_grows
  by unfold_locales (auto simp: bin_grows_def)

lemma resp_grows: "resp same_bin m \<Longrightarrow> resp bin_grows m"
  by (auto simp: resp_def same_bin_def bin_grows_def)

lemma resp_tio: "resp same_bin f \<Longrightarrow> resp same_bin (tio f)"
  unfolding tio_def by (rule same_bin.resp_io_call)

lemma resp_tdb_read: "(\<And>w. snd (f w) = w) \<Longrightarrow> resp same_bin (tdb f)"
  unfolding tdb_def by (rule same_bin.resp_io_read)

lemma resp_at_path: "resp same_bin (at_path raw)"
  by (rule respI) (auto simp: at_path_def same_bin_def split: sum.splits)

lemma resp_checked_id: "resp same_bin (checked_id i)"
  unfolding checked_id_def by (intro same_bin.resp_sum same_bin.resp_throw same_bin.resp_ret)

lemma resp_os_change: "resp same_bin (os_change f)"
  unfolding os_change_def by (rule resp_tio) (auto simp: resp_def same_bin_def split: option.splits)

lemmas bin_file_intros = resp_at_path resp_checked_id resp_os_change same_bin.resp_bnd same_bin.resp_seqm
  same_bin.resp_ret same_bin.resp_throw

lemma resp_remove_trash_item: "resp same_bin (remove_trash_item i)"
  unfolding remove_trash_item_def by (intro bin_file_intros)

lemma resp_read_trash_info: "resp same_bin (read_trash_info i)"
  unfolding read_trash_info_def
  by (intro bin_file_intros resp_tio) (auto simp: resp_def same_bin_def split: option.splits content.splits)

lemma resp_list_trash_item_ids: "resp same_bin list_trash_item_ids"
  unfolding list_trash_item_ids_def
  by (intro bin_file_intros resp_tio) (auto simp: resp_def same_bin_def split: option.splits node.splits)

lemma resp_tstore_get: "resp same_bin (tstore_get i)"
  unfolding tstore_get_def by (rule resp_tdb_read) (simp split: option.split)

lemma resp_tstore_insert: "resp bin_grows (tstore_insert item)"
  unfolding tstore_insert_def tdb_def
  by (rule bin_grows.resp_io_call) (auto simp: resp_def bin_grows_def)

lemma resp_reconcile_ids: "resp bin_grows (reconcile_ids is)"
proof (induction "is")
  case Nil
  show ?case unfolding reconcile_ids.simps by (rule bin_grows.resp_ret)
next
  case (Cons i "is")
  then show ?case
    unfolding reconcile_ids.simps
    by (intro resp_intros resp_tstore_insert resp_tstore_get [THEN resp_grows]
      resp_read_trash_info [THEN resp_grows])
qed

lemma resp_reconcile_disk: "resp bin_grows reconcile_disk"
  unfolding reconcile_disk_def
  by (intro resp_intros resp_reconcile_ids resp_list_trash_item_ids [THEN resp_grows])

lemma resp_get_trash_settings: "resp same_bin (get_trash_settings sv)"
  unfolding get_trash_settings_def Let_def
  by (intro resp_intros resp_tdb_read)
    (auto intro!: resp_intros split: settings_value.split sum.split)

lemma resp_tstore_list: "resp same_bin tstore_list"
  unfolding tstore_list_def by (rule resp_tdb_read) simp

section \<open>Reading and deleting\<close>

lemma tstore_list_run: "tstore_list w = (r, w') \<Longrightarrow>
  same_bin w w' \<and> (\<forall>items. r = Inr items \<longrightarrow> items = desc_by ti_row_deleted_at (bin w'))"
  by (auto simp: tstore_list_def tdb_def io_call_def Let_def same_bin_def split: if_splits)

lemma list_items_run:
  assumes "list_items sv w = (r, w')"
  shows "bin_grows w w'" and "r = Inr items \<Longrightarrow> items = desc_by ti_row_deleted_at (bin w')"
proof -
  have "resp bin_grows (list_items sv)"
    unfolding list_items_def
    by (intro resp_intros resp_reconcile_disk resp_tstore_list [THEN resp_grows])
  with assms show "bin_grows w w'" by (simp add: respD_run)
  show "items = desc_by ti_row_deleted_at (bin w')" if "r = Inr items"
    using assms that tstore_list_run
    by (auto simp: list_items_def run_seqm split: if_splits prod.splits sum.splits)
qed

lemma tstore_delete_run:
  "tstore_delete i w = (r, w') \<Longrightarrow>
    w_now w' = w_now w \<and> (if r = Inr () then bin w' = delete_where (\<lambda>x. ti_row_id x = i) (bin w) else bin w' = bin w)"
  by (auto simp: tstore_delete_def tdb_def io_call_def Let_def split: if_splits)

lemma tstore_get_id: "tstore_get i w = (Inr item, w') \<Longrightarrow> ti_row_id item = i"
  by (auto simp: tstore_get_def tdb_def io_call_def Let_def split: if_splits option.splits dest: find_SomeD)

lemma delete_forever_run:
  assumes "delete_forever sv i w = (r, w')"
  shows "w_now w' = w_now w"
    and "bin w' = (if r = Inr () then delete_where (\<lambda>x. ti_row_id x = i) (bin w) else bin w)"
proof -
  have "w_now w' = w_now w \<and> bin w' = (if r = Inr () then delete_where (\<lambda>x. ti_row_id x = i) (bin w) else bin w)"
  proof (cases "tw_wired sv")
    case False
    with assms show ?thesis by (auto simp: delete_forever_def)
  next
    case True
    obtain r1 w1 where get: "tstore_get i w = (r1, w1)" by fastforce
    then have 1: "same_bin w w1" by (rule respD_run [OF resp_tstore_get])
    show ?thesis
    proof (cases r1)
      case (Inl e)
      with assms True get 1 show ?thesis by (auto simp: delete_forever_def run_bnd same_bin_def)
    next
      case (Inr item)
      let ?w2 = "if tw_cleaner sv then w1\<lparr>cleaned := cleaned w1 @ [item]\<rparr> else w1"
      obtain r3 w3 where rm: "remove_trash_item i ?w2 = (r3, w3)" by fastforce
      have "same_bin w1 ?w2" by (simp add: same_bin_def)
      with 1 respD_run [OF resp_remove_trash_item rm] have 3: "same_bin w w3" by (simp add: same_bin_def)
      with assms True get Inr tstore_get_id [OF get [unfolded Inr]] rm
      have rest: "(case r3 of Inl e \<Rightarrow> (Inl e, w3) | Inr _ \<Rightarrow> tstore_delete i w3) = (r, w')"
        by (cases "tw_cleaner sv") (simp_all add: delete_forever_def run_bnd run_seqm split: sum.splits)
      show ?thesis
      proof (cases r3)
        case (Inl e)
        with rest 3 show ?thesis by (auto simp: same_bin_def)
      next
        case (Inr u)
        with rest have "tstore_delete i w3 = (r, w')" by simp
        from tstore_delete_run [OF this] 3 show ?thesis by (simp add: same_bin_def)
      qed
    qed
  qed
  then show "w_now w' = w_now w" "bin w' = (if r = Inr () then delete_where (\<lambda>x. ti_row_id x = i) (bin w) else bin w)"
    by simp_all
qed

section \<open>The purge\<close>

text \<open>Deleting one by one removes the rows of some of the due items, and of all of them when it succeeds.\<close>

lemma purge_each_run:
  assumes "purge_each sv now s items n w = (r, w')"
  obtains ids where "ids \<subseteq> ti_row_id ` {x \<in> set items. expired now s x}"
    and "bin w' = filter (\<lambda>x. ti_row_id x \<notin> ids) (bin w)"
    and "\<And>k. r = Inr k \<Longrightarrow> ids = ti_row_id ` {x \<in> set items. expired now s x} \<and>
           k = n + length (filter (expired now s) items)"
proof -
  have "\<exists>ids. ids \<subseteq> ti_row_id ` {x \<in> set items. expired now s x} \<and>
      bin w' = filter (\<lambda>x. ti_row_id x \<notin> ids) (bin w) \<and>
      (\<forall>k. r = Inr k \<longrightarrow> ids = ti_row_id ` {x \<in> set items. expired now s x} \<and>
           k = n + length (filter (expired now s) items))"
    using assms
  proof (induction items arbitrary: n w)
    case Nil
    then show ?case by (intro exI [of _ "{}"]) auto
  next
    case (Cons item items)
    show ?case
    proof (cases "expired now s item")
      case False
      with Cons.prems have "purge_each sv now s items n w = (r, w')" by simp
      moreover have "{x \<in> set (item # items). expired now s x} = {x \<in> set items. expired now s x}"
        using False by auto
      ultimately show ?thesis using Cons.IH False by simp
    next
      case True
      obtain r1 w1 where del: "delete_forever sv (ti_row_id item) w = (r1, w1)" by fastforce
      note step = delete_forever_run [OF del]
      show ?thesis
      proof (cases r1)
        case (Inl e)
        with Cons.prems True del have "r = Inl e" "w' = w1" by (simp_all add: run_seqm)
        with step Inl show ?thesis by (intro exI [of _ "{}"]) simp
      next
        case (Inr u)
        with Cons.prems True del have "purge_each sv now s items (n + 1) w1 = (r, w')" by (simp add: run_seqm)
        from Cons.IH [OF this] obtain ids where ids: "ids \<subseteq> ti_row_id ` {x \<in> set items. expired now s x}"
          "bin w' = filter (\<lambda>x. ti_row_id x \<notin> ids) (bin w1)"
          "\<forall>k. r = Inr k \<longrightarrow> ids = ti_row_id ` {x \<in> set items. expired now s x} \<and>
             k = n + 1 + length (filter (expired now s) items)" by blast
        have set: "{x \<in> set (item # items). expired now s x} = insert item {x \<in> set items. expired now s x}"
          using True by auto
        have bin: "bin w' = filter (\<lambda>x. ti_row_id x \<notin> insert (ti_row_id item) ids) (bin w)"
          using ids(2) step(2) Inr by (auto simp: delete_where_def intro: filter_cong)
        show ?thesis
          unfolding set using ids bin True by (intro exI [of _ "insert (ti_row_id item) ids"]) auto
      qed
    qed
  qed
  with that show thesis by blast
qed

text \<open>A run of the purge that gets as far as deleting.\<close>

lemma purge_expired_cases:
  assumes "purge_expired sv w = (r, w')"
  obtains (idle) "bin_grows w w'"
      and "\<And>s. tr_enabled s \<Longrightarrow> fst (get_trash_settings sv w) = Inr s \<Longrightarrow> \<not> isl r \<Longrightarrow> False"
  | (ran) s items w2 where "fst (get_trash_settings sv w) = Inr s" and "tr_enabled s" and "bin_grows w w2"
      and "items = desc_by ti_row_deleted_at (bin w2)" and "purge_each sv (w_now w) s items 0 w2 = (r, w')"
proof -
  obtain r1 w1 where get: "get_trash_settings sv w = (r1, w1)" by fastforce
  then have "same_bin w w1" by (rule respD_run [OF resp_get_trash_settings])
  then have 1: "bin_grows w w1" by (auto simp: bin_grows_def same_bin_def)
  show thesis
  proof (cases "\<exists>s. r1 = Inr s \<and> tr_enabled s")
    case False
    with get assms 1 show thesis
      by (intro idle) (auto simp: purge_expired_def run_bnd split: sum.splits)
  next
    case True
    then obtain s where s: "r1 = Inr s" "tr_enabled s" by blast
    obtain r2 w2 where ls: "list_items sv w1 = (r2, w2)" by fastforce
    with 1 list_items_run(1) [OF ls] have 2: "bin_grows w w2" by (metis bin_grows.trans)
    show thesis
    proof (cases r2)
      case (Inl e)
      with get assms s ls 2 show thesis by (intro idle) (auto simp: purge_expired_def run_bnd)
    next
      case (Inr items)
      from 2 have now: "w_now w2 = w_now w" by (simp add: bin_grows_def)
      show thesis
        using get assms s ls Inr 2 list_items_run(2) [OF ls Inr] now
        by (intro ran) (simp_all add: purge_expired_def run_bnd gets_def)
    qed
  qed
qed

text \<open>C13. The purge never removes an item too early: whatever fails on the way, an item that is gone afterwards
  was past its retention period, and the recycle bin had its retention enabled.\<close>

theorem purge_only_expired:
  assumes ids: "distinct (map ti_row_id (bin w))"
    and had: "r \<in> set (bin w)" and gone: "r \<notin> set (bin (snd (purge_expired sv w)))"
  shows "\<exists>s. fst (get_trash_settings sv w) = Inr s \<and> tr_enabled s \<and>
    ti_row_deleted_at r + tr_days s * day_ns \<le> w_now w"
proof -
  obtain res w' where run: "purge_expired sv w = (res, w')" by fastforce
  then show ?thesis
  proof (cases rule: purge_expired_cases)
    case idle
    with had gone run show ?thesis by (auto simp: bin_grows_def)
  next
    case (ran s items w2)
    from ran(3) ids had have w2: "distinct (map ti_row_id (bin w2))" "r \<in> set (bin w2)" by (auto simp: bin_grows_def)
    from ran(5) obtain del where del: "del \<subseteq> ti_row_id ` {x \<in> set items. expired (w_now w) s x}"
      "bin w' = filter (\<lambda>x. ti_row_id x \<notin> del) (bin w2)" by (rule purge_each_run)
    with gone run w2 have "ti_row_id r \<in> del" by simp
    with del(1) ran(4) obtain x where x: "x \<in> set (bin w2)" "ti_row_id x = ti_row_id r" "expired (w_now w) s x"
      by auto
    with w2 have "x = r" by (auto simp: distinct_map dest: inj_onD)
    with x ran show ?thesis by (auto simp: expired_def)
  qed
qed

lemma purge_only_expired_witness:
  "old_item \<in> set (bin bin_world) \<and> old_item \<notin> set (bin (snd (purge_expired bin_wiring bin_world))) \<and>
   (\<exists>s. fst (get_trash_settings bin_wiring bin_world) = Inr s \<and> tr_enabled s \<and>
     ti_row_deleted_at old_item + tr_days s * day_ns \<le> w_now bin_world)"
proof -
  have "distinct (map ti_row_id (bin bin_world))" by code_simp
  moreover have had: "old_item \<in> set (bin bin_world)" by (simp add: bin_world_def)
  moreover have gone: "old_item \<notin> set (bin (snd (purge_expired bin_wiring bin_world)))" by code_simp
  ultimately show ?thesis using purge_only_expired by blast
qed

text \<open>A purge that succeeds with retention enabled leaves no item that is due, whatever the order of the
  items and including the items it finds only on disk.\<close>

lemma purge_leaves_none_due:
  assumes "distinct (map ti_row_id (bin w))" and run: "purge_expired sv w = (Inr n, w')"
    and s: "fst (get_trash_settings sv w) = Inr s" "tr_enabled s" and r: "r \<in> set (bin w')"
  shows "w_now w < ti_row_deleted_at r + tr_days s * day_ns"
  using run
proof (cases rule: purge_expired_cases)
  case idle
  with s show ?thesis by auto
next
  case (ran s' items w2)
  then have s': "s' = s" using s by simp
  from ran(5) obtain del where del: "bin w' = filter (\<lambda>x. ti_row_id x \<notin> del) (bin w2)"
    "del = ti_row_id ` {x \<in> set items. expired (w_now w) s' x}"
    by (rule purge_each_run) blast
  with r ran(4) s' show ?thesis by (auto simp: expired_def)
qed

lemma purge_leaves_none_due_witness:
  "bin (snd (purge_expired bin_wiring bin_world)) \<noteq> [] \<and>
   w_now bin_world < ti_row_deleted_at (hd (bin (snd (purge_expired bin_wiring bin_world)))) + 1 * day_ns"
proof -
  let ?x = "purge_expired bin_wiring bin_world" and ?s = "\<lparr>tr_enabled = True, tr_days = 1\<rparr>"
  have ids: "distinct (map ti_row_id (bin bin_world))" by code_simp
  have ok: "\<not> isl (fst ?x)" by code_simp
  have ne: "bin (snd ?x) \<noteq> []" by code_simp
  have get: "fst (get_trash_settings bin_wiring bin_world) = Inr ?s" by code_simp
  from purge_leaves_none_due [OF ids run_of_Inr [OF ok] get _ hd_in_set [OF ne]] ne show ?thesis by simp
qed

text \<open>The loop that runs the purge waits for the next midnight in UTC: later than now, at most a day away, on a
  multiple of a day.\<close>

lemma next_utc_midnight_bounds:
  "now < next_utc_midnight now \<and> next_utc_midnight now \<le> now + day_ns \<and> next_utc_midnight now mod day_ns = 0"
proof -
  have "now mod day_ns < day_ns" "0 \<le> now mod day_ns" by (simp_all add: day_ns_def)
  moreover have "now = (now div day_ns) * day_ns + now mod day_ns" by simp
  moreover have "next_utc_midnight now = (now div day_ns) * day_ns + day_ns"
    by (simp add: next_utc_midnight_def algebra_simps)
  ultimately have "now < next_utc_midnight now" "next_utc_midnight now \<le> now + day_ns" by linarith+
  then show ?thesis by (simp add: next_utc_midnight_def)
qed

end
