(* ===== verification/Maintenance.thy ===== *)
theory Maintenance
  imports AccessService "HOL-Library.Product_Lexorder"
begin

text \<open>
  Maintenance tasks, the sequential part: \<open>internal/maintenance/types.go\<close>, the store
  \<open>maintenance/postgres/store.go\<close>, the dispatch of \<open>runner.go\<close>, and the operations of \<open>service.go\<close> that
  hold no lock. The services a task calls are interfaces in the code; they are functions of the
  record \<open>maint_deps\<close> here, with the outcome of a call as value. Cron syntax is that of
  \<open>robfig/cron\<close>: a predicate of the record. The foreign key of \<open>library_id\<close> is among the failures
  of the database. Configurations and the texts
  of wrapped errors are opaque. The service itself is wired.
\<close>

section \<open>Types\<close>

datatype maint_err =
    MConflict
  | MInvalidCron
  | MLibraryRequired
  | MInvalidAction
  | MNotFound
  | MNotRunning
  | MUnavailable string
  | MCanceled
  | MFailed string
  | MDb

datatype summary_value = SNat nat | SText string | SBool bool

type_synonym summary = "(string \<times> summary_value) list"

record schedule =
  sc_id :: string
  sc_action :: string
  sc_library :: "string option"
  sc_cron :: string
  sc_enabled :: bool
  sc_config :: string
  sc_updated_at :: int

record schedule_input =
  si_action :: string
  si_cron :: string
  si_enabled :: bool
  si_config :: string

record run_row =
  rn_id :: string
  rn_action :: string
  rn_library :: "string option"
  rn_library_name :: string
  rn_trigger :: string
  rn_status :: string
  rn_started :: int
  rn_finished :: "int option"
  rn_summary :: summary

record action_status =
  as_action :: string
  as_schedule :: "schedule option"
  as_latest :: "run_row option"
  as_running :: bool

record maint_world = env +
  schedules :: "schedule list"
  runs :: "run_row list"

type_synonym 'a maint_m = "(maint_world, maint_err, 'a) m"

definition is_global_action :: "string \<Rightarrow> bool" where
  "is_global_action a \<longleftrightarrow> a \<in> set [''libraries.scan'', ''playback.cache.purge'']"

definition is_library_action :: "string \<Rightarrow> bool" where
  "is_library_action a \<longleftrightarrow> a \<in> set [''metadata.scan'', ''thumbnails.warm'', ''providers.metadata'',
     ''providers.posters'', ''providers.subtitles'', ''playback.skip.detect'']"

definition valid_action :: "string \<Rightarrow> bool" where
  "valid_action a \<longleftrightarrow> is_global_action a \<or> is_library_action a"

definition lock_key :: "string \<Rightarrow> string \<Rightarrow> string" where
  "lock_key action lib = action @ ''|'' @ lib"

definition valid_run_status :: "string \<Rightarrow> bool" where
  "valid_run_status s \<longleftrightarrow> s \<in> set [''running'', ''success'', ''failed'', ''skipped'', ''canceled'']"

section \<open>The store\<close>

definition mdb :: "'a maint_m \<Rightarrow> 'a maint_m" where
  "mdb f = io_call MDb f"

definition list_schedules :: "schedule list maint_m" where
  "list_schedules = mdb (gets (\<lambda>w. asc_by sc_action (schedules w)))"

definition list_global_schedules :: "schedule list maint_m" where
  "list_global_schedules = mdb (gets (\<lambda>w. asc_by sc_action (filter (\<lambda>s. sc_library s = None) (schedules w))))"

definition list_schedules_for_library :: "string \<Rightarrow> schedule list maint_m" where
  "list_schedules_for_library lib =
     mdb (gets (\<lambda>w. asc_by sc_action (filter (\<lambda>s. sc_library s = Some lib) (schedules w))))"

definition same_schedule :: "schedule \<Rightarrow> schedule \<Rightarrow> bool" where
  "same_schedule s r \<longleftrightarrow> sc_action r = sc_action s \<and> sc_library r = sc_library s"

definition upsert_schedule :: "schedule \<Rightarrow> schedule maint_m" where
  "upsert_schedule s = bnd (gets w_now) (\<lambda>now.
     bnd (mdb (gets (\<lambda>w. find (same_schedule s) (schedules w)))) (\<lambda>found. case found of
       None \<Rightarrow> bnd (draw MDb) (\<lambda>i. let new = s\<lparr>sc_id := i, sc_updated_at := now\<rparr> in
         seqm (mdb (modify (\<lambda>w. w\<lparr>schedules := schedules w @ [new]\<rparr>))) (ret new))
     | Some old \<Rightarrow> let new = old\<lparr>sc_cron := sc_cron s, sc_enabled := sc_enabled s,
           sc_config := sc_config s, sc_updated_at := now\<rparr> in
         seqm (mdb (modify (\<lambda>w. w\<lparr>schedules := update_where (\<lambda>r. sc_id r = sc_id old) (\<lambda>_. new) (schedules w)\<rparr>)))
           (ret new)))"

definition insert_run :: "run_row \<Rightarrow> run_row maint_m" where
  "insert_run r = bnd (draw MDb) (\<lambda>i.
     let row = r\<lparr>rn_id := i, rn_status := (if rn_status r = [] then ''running'' else rn_status r)\<rparr>
     in seqm (mdb (modify (\<lambda>w. w\<lparr>runs := runs w @ [row]\<rparr>))) (ret row))"

definition get_run :: "string \<Rightarrow> run_row maint_m" where
  "get_run i = mdb (\<lambda>w. case find (\<lambda>r. rn_id r = i) (runs w) of None \<Rightarrow> (Inl MNotFound, w) | Some r \<Rightarrow> (Inr r, w))"

definition finish_run :: "string \<Rightarrow> string \<Rightarrow> summary \<Rightarrow> unit maint_m" where
  "finish_run i status s = mdb (\<lambda>w.
     if \<exists>r \<in> set (runs w). rn_id r = i
     then (Inr (), w\<lparr>runs := update_where (\<lambda>r. rn_id r = i)
       (\<lambda>r. r\<lparr>rn_status := status, rn_finished := Some (w_now w), rn_summary := s\<rparr>) (runs w)\<rparr>)
     else (Inl MNotFound, w))"

text \<open>\<open>Order("started_at DESC").First\<close> breaks ties by the primary key.\<close>

definition latest_run :: "string \<Rightarrow> string option \<Rightarrow> run_row maint_m" where
  "latest_run action lib = mdb (\<lambda>w.
     case sort_key (\<lambda>r. (- rn_started r, rn_id r))
       (filter (\<lambda>r. rn_action r = action \<and> rn_library r = lib) (runs w)) of
       [] \<Rightarrow> (Inl MNotFound, w) | r # _ \<Rightarrow> (Inr r, w))"

definition store_list_runs :: "int \<Rightarrow> string \<Rightarrow> run_row list maint_m" where
  "store_list_runs limit status = (let n = (if limit \<le> 0 then 50 else limit) in
     mdb (gets (\<lambda>w. take (nat n) (desc_by rn_started
       (filter (\<lambda>r. status = [] \<or> rn_status r = status) (runs w))))))"

definition mark_interrupted_runs :: "nat maint_m" where
  "mark_interrupted_runs = mdb (\<lambda>w.
     (Inr (length (filter (\<lambda>r. rn_status r = ''running'') (runs w))),
      w\<lparr>runs := update_where (\<lambda>r. rn_status r = ''running'')
        (\<lambda>r. r\<lparr>rn_status := ''failed'', rn_finished := Some (w_now w),
               rn_summary := [(''error'', SText ''interrupted by restart'')]\<rparr>) (runs w)\<rparr>))"

section \<open>The tasks\<close>

record run_summary =
  rs_configured :: bool
  rs_key :: string
  rs_applied :: nat
  rs_skipped_user :: nat
  rs_unmatched :: nat
  rs_skipped_uncertain :: nat
  rs_pruned :: nat
  rs_errors :: nat

definition summary_map :: "run_summary \<Rightarrow> summary" where
  "summary_map s = [(''providerConfigured'', SBool (rs_configured s)), (''providerKey'', SText (rs_key s)),
     (''applied'', SNat (rs_applied s)), (''skippedUser'', SNat (rs_skipped_user s)),
     (''unmatched'', SNat (rs_unmatched s)), (''skippedUncertain'', SNat (rs_skipped_uncertain s)),
     (''pruned'', SNat (rs_pruned s)), (''errors'', SNat (rs_errors s))]"

text \<open>What the wired services answer. A missing service is \<open>None\<close>; a call returns an error or a value,
  and where the code uses a count returned beside an error, both.\<close>

record maint_deps =
  dp_cron_ok :: "string \<Rightarrow> bool"
  dp_sync :: "(maint_err + sync_result) option"
  dp_library :: "(string \<Rightarrow> maint_err + library) option"
  dp_media :: bool
  dp_index :: "(library \<Rightarrow> nat \<times> maint_err option) option"
  dp_warm :: "(string \<Rightarrow> nat \<times> maint_err option) option"
  dp_purge :: "(maint_err + nat \<times> nat) option"
  dp_providers :: "(string \<Rightarrow> string \<Rightarrow> run_summary \<times> maint_err option) option"
  dp_skip :: "(string \<Rightarrow> summary \<times> maint_err option) option"

type_synonym task_result = "summary option \<times> maint_err option"

definition run_libraries_scan :: "maint_deps \<Rightarrow> task_result" where
  "run_libraries_scan d = (case dp_sync d of
     None \<Rightarrow> (None, Some (MUnavailable ''access service unavailable''))
   | Some (Inl e) \<Rightarrow> (None, Some e)
   | Some (Inr r) \<Rightarrow> (Some [(''added'', SNat (sync_added r)), (''removed'', SNat (sync_removed r)),
       (''kept'', SNat (sync_kept r)), (''total'', SNat (length (sync_libraries r)))], None))"

definition run_metadata_scan :: "maint_deps \<Rightarrow> string \<Rightarrow> task_result" where
  "run_metadata_scan d lib = (case (dp_index d, dp_library d) of
     (Some index, Some get) \<Rightarrow>
       (case get lib of
          Inl e \<Rightarrow> (None, Some e)
        | Inr l \<Rightarrow> (case index l of (n, err) \<Rightarrow> (Some [(''filesIndexed'', SNat n)], err)))
   | _ \<Rightarrow> (None, Some (MUnavailable ''metadata indexer unavailable'')))"

fun warm_roots :: "(string \<Rightarrow> nat \<times> maint_err option) \<Rightarrow> nat \<Rightarrow> string list \<Rightarrow> task_result" where
  "warm_roots warm n [] = (Some [(''generated'', SNat n)], None)"
| "warm_roots warm n (r # rs) = (case warm r of
     (k, None) \<Rightarrow> warm_roots warm (n + k) rs
   | (k, Some e) \<Rightarrow> (Some [(''generated'', SNat (n + k))], Some e))"

definition run_thumbnails_warm :: "maint_deps \<Rightarrow> string \<Rightarrow> task_result" where
  "run_thumbnails_warm d lib = (case (dp_warm d, dp_media d, dp_library d) of
     (Some warm, True, Some get) \<Rightarrow>
       (case get lib of
          Inl e \<Rightarrow> (None, Some e)
        | Inr l \<Rightarrow> warm_roots warm 0 (root_paths l))
   | _ \<Rightarrow> (None, Some (MUnavailable ''thumbnail warmer unavailable'')))"

definition run_playback_cache_purge :: "maint_deps \<Rightarrow> bool \<Rightarrow> task_result" where
  "run_playback_cache_purge d canceled = (case dp_purge d of
     None \<Rightarrow> (None, Some (MUnavailable ''cache purger unavailable''))
   | Some r \<Rightarrow>
       if canceled then (None, Some MCanceled)
       else (case r of
          Inl e \<Rightarrow> (None, Some e)
        | Inr (deleted, bytes) \<Rightarrow> (Some [(''deleted'', SNat deleted), (''bytesRemoved'', SNat bytes),
            (''maxAgeHours'', SNat 6)], None)))"

definition run_provider_task :: "maint_deps \<Rightarrow> string \<Rightarrow> string \<Rightarrow> task_result" where
  "run_provider_task d lib kind = (case dp_providers d of
     None \<Rightarrow> (None, Some (MUnavailable ''provider settings service unavailable''))
   | Some enrich \<Rightarrow> (case enrich lib kind of (s, err) \<Rightarrow> (Some (summary_map s), err)))"

definition run_skip_intro_detect :: "maint_deps \<Rightarrow> string \<Rightarrow> task_result" where
  "run_skip_intro_detect d lib = (case dp_skip d of
     None \<Rightarrow> (None, Some (MUnavailable ''skip intro detector unavailable''))
   | Some detect \<Rightarrow> (case detect lib of (s, err) \<Rightarrow> (Some s, err)))"

definition run_action :: "maint_deps \<Rightarrow> string \<Rightarrow> string \<Rightarrow> bool \<Rightarrow> task_result" where
  "run_action d action lib canceled =
     (if action = ''libraries.scan'' then run_libraries_scan d
      else if action = ''metadata.scan'' then run_metadata_scan d lib
      else if action = ''thumbnails.warm'' then run_thumbnails_warm d lib
      else if action = ''playback.cache.purge'' then run_playback_cache_purge d canceled
      else if action = ''providers.metadata'' then run_provider_task d lib ''metadata''
      else if action = ''providers.posters'' then run_provider_task d lib ''poster''
      else if action = ''providers.subtitles'' then run_provider_task d lib ''subtitle''
      else if action = ''playback.skip.detect'' then run_skip_intro_detect d lib
      else (None, Some MInvalidAction))"

section \<open>Service operations without a lock\<close>

definition validate_cron :: "maint_deps \<Rightarrow> string \<Rightarrow> unit maint_m" where
  "validate_cron d expr = (let e = trim_space expr in
     if e = [] then ret () else failif (\<not> dp_cron_ok d e) MInvalidCron)"

text \<open>\<open>validateRunNow\<close> also rewrites the library and the trigger it is given.\<close>

definition validate_run_now :: "string \<Rightarrow> string \<Rightarrow> string \<Rightarrow> maint_err + string \<times> string" where
  "validate_run_now action lib trigger =
     (if \<not> valid_action action then Inl MInvalidAction
      else if is_library_action action \<and> lib = [] then Inl MLibraryRequired
      else Inr (if is_global_action action then [] else lib, if trigger = [] then ''manual'' else trigger))"

definition insert_running :: "string \<Rightarrow> string \<Rightarrow> string \<Rightarrow> run_row maint_m" where
  "insert_running action lib trigger = bnd (gets w_now) (\<lambda>now. insert_run
     \<lparr>rn_id = [], rn_action = action, rn_library = (if lib \<noteq> [] then Some lib else None), rn_library_name = [],
      rn_trigger = trigger, rn_status = ''running'', rn_started = now, rn_finished = None, rn_summary = []\<rparr>)"

fun patch_global_inputs :: "maint_deps \<Rightarrow> schedule_input list \<Rightarrow> unit maint_m" where
  "patch_global_inputs d [] = ret ()"
| "patch_global_inputs d (i # is) =
     (if \<not> is_global_action (si_action i) then throw MInvalidAction
      else seqm (validate_cron d (si_cron i))
          (seqm (upsert_schedule \<lparr>sc_id = [], sc_action = si_action i, sc_library = None, sc_cron = si_cron i,
             sc_enabled = si_enabled i, sc_config = si_config i, sc_updated_at = 0\<rparr>)
          (patch_global_inputs d is)))"

fun patch_library_inputs :: "maint_deps \<Rightarrow> string \<Rightarrow> schedule_input list \<Rightarrow> unit maint_m" where
  "patch_library_inputs d lib [] = ret ()"
| "patch_library_inputs d lib (i # is) =
     (if \<not> is_library_action (si_action i) then throw MInvalidAction
      else seqm (validate_cron d (si_cron i))
          (seqm (upsert_schedule \<lparr>sc_id = [], sc_action = si_action i, sc_library = Some lib, sc_cron = si_cron i,
             sc_enabled = si_enabled i, sc_config = si_config i, sc_updated_at = 0\<rparr>)
          (patch_library_inputs d lib is)))"

text \<open>The name of a library is looked up once while listing; the map holds the answers so far.\<close>

fun enrich_names :: "(string \<Rightarrow> maint_err + library) \<Rightarrow> (string \<times> string) list \<Rightarrow> run_row list \<Rightarrow> run_row list" where
  "enrich_names get names [] = []"
| "enrich_names get names (r # rs) =
     (case rn_library r of
        None \<Rightarrow> r # enrich_names get names rs
      | Some lib \<Rightarrow>
          if lib = [] then r # enrich_names get names rs
          else (case map_of names lib of
            Some name \<Rightarrow> r\<lparr>rn_library_name := name\<rparr> # enrich_names get names rs
          | None \<Rightarrow> (case get lib of
              Inl _ \<Rightarrow> r # enrich_names get names rs
            | Inr l \<Rightarrow> r\<lparr>rn_library_name := lib_name l\<rparr> # enrich_names get ((lib, lib_name l) # names) rs)))"

definition enrich_library_names :: "maint_deps \<Rightarrow> run_row list \<Rightarrow> run_row list" where
  "enrich_library_names d rs = (case dp_library d of None \<Rightarrow> rs | Some get \<Rightarrow> enrich_names get [] rs)"

definition list_runs :: "maint_deps \<Rightarrow> int \<Rightarrow> string \<Rightarrow> run_row list maint_m" where
  "list_runs d limit status0 = (let status = trim_space status0 in
     if status \<noteq> [] \<and> \<not> valid_run_status status then throw MInvalidAction
     else bnd (store_list_runs limit status) (\<lambda>rs. ret (enrich_library_names d rs)))"

definition load_schedules :: "string option \<Rightarrow> schedule list maint_m" where
  "load_schedules lib = (case lib of None \<Rightarrow> list_global_schedules | Some l \<Rightarrow> list_schedules_for_library l)"

text \<open>The locks are read under the mutex; \<open>locked\<close> is what that read answers. \<open>byAction\<close> keeps the last
  schedule of an action.\<close>

definition build_action_status ::
  "(string \<Rightarrow> bool) \<Rightarrow> schedule list \<Rightarrow> string option \<Rightarrow> string \<Rightarrow> action_status maint_m" where
  "build_action_status locked scheds lib action =
     bnd (attempt (latest_run action lib)) (\<lambda>res. case res of
       Inl e \<Rightarrow> (if e = MNotFound
         then ret \<lparr>as_action = action, as_schedule = find (\<lambda>s. sc_action s = action) (rev scheds), as_latest = None,
           as_running = locked (lock_key action (case lib of None \<Rightarrow> [] | Some l \<Rightarrow> l))\<rparr>
         else throw e)
     | Inr r \<Rightarrow> ret \<lparr>as_action = action, as_schedule = find (\<lambda>s. sc_action s = action) (rev scheds), as_latest = Some r,
           as_running = locked (lock_key action (case lib of None \<Rightarrow> [] | Some l \<Rightarrow> l))\<rparr>)"

fun build_statuses :: "(string \<Rightarrow> bool) \<Rightarrow> schedule list \<Rightarrow> string option \<Rightarrow> string list \<Rightarrow> action_status list maint_m" where
  "build_statuses locked scheds lib [] = ret []"
| "build_statuses locked scheds lib (a # as) = bnd (build_action_status locked scheds lib a) (\<lambda>s.
     bnd (build_statuses locked scheds lib as) (\<lambda>ss. ret (s # ss)))"

definition action_statuses :: "(string \<Rightarrow> bool) \<Rightarrow> string list \<Rightarrow> string option \<Rightarrow> action_status list maint_m" where
  "action_statuses locked actions lib = bnd (load_schedules lib) (\<lambda>scheds. build_statuses locked scheds lib actions)"

definition get_global_maintenance :: "(string \<Rightarrow> bool) \<Rightarrow> action_status list maint_m" where
  "get_global_maintenance locked = action_statuses locked [''libraries.scan'', ''playback.cache.purge''] None"

definition get_library_maintenance :: "(string \<Rightarrow> bool) \<Rightarrow> string \<Rightarrow> action_status list maint_m" where
  "get_library_maintenance locked lib = action_statuses locked
     [''metadata.scan'', ''thumbnails.warm'', ''providers.metadata'', ''providers.posters'',
      ''providers.subtitles'', ''playback.skip.detect''] (Some lib)"

text \<open>How \<open>execute\<close> turns the result of a task, with the context canceled or not, into the final row.\<close>

definition error_text :: "maint_err \<Rightarrow> string" where
  "error_text e = (case e of MCanceled \<Rightarrow> ''canceled'' | MFailed t \<Rightarrow> t | MUnavailable t \<Rightarrow> t | _ \<Rightarrow> ''error'')"

definition with_error :: "maint_err \<Rightarrow> summary \<Rightarrow> summary" where
  "with_error e body = (''error'', SText (error_text e)) # filter (\<lambda>(k, _). k \<noteq> ''error'') body"

definition final_status :: "bool \<Rightarrow> task_result \<Rightarrow> string \<times> summary" where
  "final_status canceled res =
     (let err = (if snd res = None \<and> canceled then Some MCanceled else snd res);
          body = (case fst res of None \<Rightarrow> [] | Some kvs \<Rightarrow> kvs)
      in (case err of
          None \<Rightarrow> (''success'', body)
        | Some e \<Rightarrow> (if e = MCanceled then ''canceled'' else ''failed'', with_error e body)))"

end
