(* ===== verification/MaintenanceRuns.thy ===== *)
theory MaintenanceRuns
  imports Maintenance
begin

text \<open>
  The concurrent part of \<open>internal/maintenance/service.go\<close>: the table of running jobs behind the
  mutex \<open>s.mu\<close>, starting, finishing and canceling a run, reloading the cron schedules, shutdown.
  Every goroutine is a thread with a program point; one event runs one thread up to its next database
  call or lock. A critical section that only touches the table of locks is one step, possible while
  nobody holds the mutex. \<open>replaceCronLocked\<close> keeps the mutex while it waits, so it takes and releases it in
  separate steps. Of \<open>robfig/cron\<close> the model uses what its documentation says: after \<open>Stop\<close> no entry
  is started, and the returned context is done when the started entries have returned.
\<close>

section \<open>State\<close>

text \<open>\<open>runningJob\<close>: the run and the context its \<open>cancel\<close> function cancels.\<close>

record running_job =
  job_run :: string
  job_ctx :: nat

record cron_engine =
  ce_id :: nat
  ce_entries :: "schedule list"
  ce_stopped :: bool

text \<open>The program points. \<open>Run\<close>\dots{} is \<open>RunNow\<close>, \<open>Job\<close>\dots{} is \<open>execute\<close>; the arguments are the local
  variables of the goroutine.\<close>

datatype program =
    RunTryLock string string string string
  | RunInsert string string string string nat
  | RunUnlock string nat
  | RunBind string string string string nat string
  | RunSpawn string string string string nat string
  | JobRun string string string nat string
  | JobEnd string nat string task_result
  | JobFinish string nat string string summary
  | JobUnlock string nat string
  | CancelGet string
  | CancelLookup string
  | CancelForce string
  | StartMark
  | ReloadList
  | ReloadLock "schedule list"
  | ReloadWait "schedule list" nat
  | ReloadSwap "schedule list"
  | ShutdownLock
  | ShutdownWait nat
  | Done "maint_err option"

record thread =
  th_engine :: "nat option"
  th_at :: program

record runner =
  world :: maint_world
  locks :: "(string \<times> running_job) list"
  mutex :: "nat option"
  canceled :: "nat list"
  engine :: "cron_engine option"
  threads :: "thread list"
  fresh :: nat
  shut :: bool

text \<open>Threads are numbered by their position.\<close>

definition goto :: "nat \<Rightarrow> program \<Rightarrow> runner \<Rightarrow> runner" where
  "goto t p s = s\<lparr>threads := (threads s)[t := (threads s ! t)\<lparr>th_at := p\<rparr>]\<rparr>"

definition spawn :: "nat option \<Rightarrow> program \<Rightarrow> runner \<Rightarrow> runner" where
  "spawn e p s = s\<lparr>threads := threads s @ [\<lparr>th_engine = e, th_at = p\<rparr>]\<rparr>"

definition finished :: "thread \<Rightarrow> bool" where
  "finished th \<longleftrightarrow> (case th_at th of Done _ \<Rightarrow> True | _ \<Rightarrow> False)"

text \<open>A database operation inside a step.\<close>

definition on_db :: "'a maint_m \<Rightarrow> (maint_err + 'a \<Rightarrow> runner \<Rightarrow> runner) \<Rightarrow> runner \<Rightarrow> runner" where
  "on_db f k s = (case f (world s) of (r, w) \<Rightarrow> k r (s\<lparr>world := w\<rparr>))"

section \<open>The table of locks\<close>

definition lock_of :: "string \<Rightarrow> runner \<Rightarrow> running_job option" where
  "lock_of key s = map_of (locks s) key"

text \<open>\<open>tryLock\<close>; the context is a fresh number.\<close>

definition try_lock :: "string \<Rightarrow> nat \<Rightarrow> runner \<Rightarrow> bool \<times> runner" where
  "try_lock key ctx s = (if lock_of key s \<noteq> None then (False, s)
     else (True, s\<lparr>locks := (key, \<lparr>job_run = [], job_ctx = ctx\<rparr>) # locks s\<rparr>))"

definition bind_run_id :: "string \<Rightarrow> string \<Rightarrow> runner \<Rightarrow> runner" where
  "bind_run_id key i s =
     s\<lparr>locks := map (\<lambda>(k, j). (k, if k = key then j\<lparr>job_run := i\<rparr> else j)) (locks s)\<rparr>"

definition unlock :: "string \<Rightarrow> runner \<Rightarrow> runner" where
  "unlock key s = s\<lparr>locks := filter (\<lambda>(k, _). k \<noteq> key) (locks s)\<rparr>"

definition cancel_func_for_run :: "string \<Rightarrow> runner \<Rightarrow> nat option" where
  "cancel_func_for_run i s = map_option (\<lambda>(_, j). job_ctx j) (find (\<lambda>(_, j). job_run j = i) (locks s))"

definition is_locked :: "string \<Rightarrow> string \<Rightarrow> runner \<Rightarrow> bool" where
  "is_locked action lib s \<longleftrightarrow> lock_of (lock_key action lib) s \<noteq> None"

section \<open>Cron\<close>

definition cron_entries :: "maint_deps \<Rightarrow> schedule list \<Rightarrow> schedule list" where
  "cron_entries d ss = filter (\<lambda>sc. sc_enabled sc \<and> trim_space (sc_cron sc) \<noteq> [] \<and> dp_cron_ok d (sc_cron sc)) ss"

definition callbacks_done :: "nat \<Rightarrow> runner \<Rightarrow> bool" where
  "callbacks_done e s \<longleftrightarrow> (\<forall>th \<in> set (threads s). th_engine th = Some e \<longrightarrow> finished th)"

definition install_engine :: "maint_deps \<Rightarrow> schedule list \<Rightarrow> runner \<Rightarrow> runner" where
  "install_engine d ss s = s\<lparr>fresh := fresh s + 1,
     engine := Some \<lparr>ce_id = fresh s, ce_entries = cron_entries d ss, ce_stopped = False\<rparr>\<rparr>"

section \<open>Steps\<close>

definition step_run_try :: "nat \<Rightarrow> string \<Rightarrow> string \<Rightarrow> string \<Rightarrow> string \<Rightarrow> runner \<Rightarrow> runner option" where
  "step_run_try t action lib trigger key s =
     (if mutex s \<noteq> None then None
      else let ctx = fresh s in
        (case try_lock key ctx (s\<lparr>fresh := ctx + 1\<rparr>) of
           (False, s') \<Rightarrow> Some (goto t (Done (Some MConflict)) s')
         | (True, s') \<Rightarrow> Some (goto t (RunInsert action lib trigger key ctx) s')))"

definition step_run_insert :: "nat \<Rightarrow> string \<Rightarrow> string \<Rightarrow> string \<Rightarrow> string \<Rightarrow> nat \<Rightarrow> runner \<Rightarrow> runner option" where
  "step_run_insert t action lib trigger key ctx s = Some (on_db (insert_running action lib trigger)
     (\<lambda>r. case r of Inl _ \<Rightarrow> goto t (RunUnlock key ctx)
        | Inr row \<Rightarrow> goto t (RunBind action lib trigger key ctx (rn_id row))) s)"

definition step_run_bind :: "nat \<Rightarrow> string \<Rightarrow> string \<Rightarrow> string \<Rightarrow> string \<Rightarrow> nat \<Rightarrow> string \<Rightarrow> runner \<Rightarrow> runner option" where
  "step_run_bind t action lib trigger key ctx i s =
     (if mutex s \<noteq> None then None else Some (goto t (RunSpawn action lib trigger key ctx i) (bind_run_id key i s)))"

text \<open>\<open>execute\<close>: the task sees the context when it starts, the context is looked at again when it ends.\<close>

definition step_job_run :: "maint_deps \<Rightarrow> nat \<Rightarrow> string \<Rightarrow> string \<Rightarrow> string \<Rightarrow> nat \<Rightarrow> string \<Rightarrow> runner \<Rightarrow> runner option" where
  "step_job_run d t action lib key ctx i s =
     Some (goto t (JobEnd key ctx i (run_action d action lib (ctx \<in> set (canceled s)))) s)"

definition step_job_end :: "nat \<Rightarrow> string \<Rightarrow> nat \<Rightarrow> string \<Rightarrow> task_result \<Rightarrow> runner \<Rightarrow> runner option" where
  "step_job_end t key ctx i res s = (case final_status (ctx \<in> set (canceled s)) res of
     (status, body) \<Rightarrow> Some (goto t (JobFinish key ctx i status body) s))"

text \<open>A failing \<open>FinishRun\<close> is only logged.\<close>

definition step_job_finish :: "nat \<Rightarrow> string \<Rightarrow> nat \<Rightarrow> string \<Rightarrow> string \<Rightarrow> summary \<Rightarrow> runner \<Rightarrow> runner option" where
  "step_job_finish t key ctx i status body s =
     Some (on_db (finish_run i status body) (\<lambda>_. goto t (JobUnlock key ctx i)) s)"

definition step_start :: "nat \<Rightarrow> runner \<Rightarrow> runner option" where
  "step_start t s = Some (on_db mark_interrupted_runs
     (\<lambda>r. goto t (case r of Inl e \<Rightarrow> Done (Some e) | Inr _ \<Rightarrow> ReloadList)) s)"

definition step_reload_list :: "nat \<Rightarrow> runner \<Rightarrow> runner option" where
  "step_reload_list t s = Some (on_db list_schedules
     (\<lambda>r. goto t (case r of Inl e \<Rightarrow> Done (Some e) | Inr ss \<Rightarrow> ReloadLock ss)) s)"

definition step_cancel_get :: "nat \<Rightarrow> string \<Rightarrow> runner \<Rightarrow> runner option" where
  "step_cancel_get t i s = Some (on_db (get_run i) (\<lambda>r. case r of
      Inl e \<Rightarrow> goto t (Done (Some e))
    | Inr row \<Rightarrow> goto t (if rn_status row \<noteq> ''running'' then Done (Some MNotRunning) else CancelLookup i)) s)"

definition step_cancel_lookup :: "nat \<Rightarrow> string \<Rightarrow> runner \<Rightarrow> runner option" where
  "step_cancel_lookup t i s =
     (if mutex s \<noteq> None then None
      else (case cancel_func_for_run i s of
         Some ctx \<Rightarrow> Some (goto t (Done None) (s\<lparr>canceled := ctx # canceled s\<rparr>))
       | None \<Rightarrow> Some (goto t (CancelForce i) s)))"

definition step_cancel_force :: "nat \<Rightarrow> string \<Rightarrow> runner \<Rightarrow> runner option" where
  "step_cancel_force t i s = Some (on_db
     (finish_run i ''canceled'' [(''error'', SText ''canceled''), (''reason'', SText ''no live job'')])
     (\<lambda>r. goto t (Done (case r of Inl e \<Rightarrow> Some e | Inr _ \<Rightarrow> None))) s)"

text \<open>\<open>replaceCronLocked\<close> up to the wait for the callbacks of the old engine.\<close>

definition step_reload_lock :: "nat \<Rightarrow> schedule list \<Rightarrow> runner \<Rightarrow> runner option" where
  "step_reload_lock t ss s =
     (if mutex s \<noteq> None then None
      else (case engine s of
         None \<Rightarrow> Some (goto t (ReloadSwap ss) (s\<lparr>mutex := Some t\<rparr>))
       | Some e \<Rightarrow> Some (goto t (ReloadWait ss (ce_id e)) (s\<lparr>mutex := Some t, engine := Some (e\<lparr>ce_stopped := True\<rparr>)\<rparr>))))"

definition step_shutdown_lock :: "nat \<Rightarrow> runner \<Rightarrow> runner option" where
  "step_shutdown_lock t s =
     (if mutex s \<noteq> None then None
      else (case engine s of
         None \<Rightarrow> Some (goto t (Done None) s)
       | Some e \<Rightarrow> Some (goto t (ShutdownWait (ce_id e)) (s\<lparr>engine := None\<rparr>))))"

definition thread_step :: "maint_deps \<Rightarrow> nat \<Rightarrow> program \<Rightarrow> runner \<Rightarrow> runner option" where
  "thread_step d t p s = (case p of
     RunTryLock action lib trigger key \<Rightarrow> step_run_try t action lib trigger key s
   | RunInsert action lib trigger key ctx \<Rightarrow> step_run_insert t action lib trigger key ctx s
   | RunUnlock key _ \<Rightarrow> if mutex s \<noteq> None then None else Some (goto t (Done (Some MDb)) (unlock key s))
   | RunBind action lib trigger key ctx i \<Rightarrow>
       step_run_bind t action lib trigger key ctx i s
   | RunSpawn action lib trigger key ctx i \<Rightarrow> Some (goto t (Done None) (spawn None (JobRun action lib key ctx i) s))
   | JobRun action lib key ctx i \<Rightarrow> step_job_run d t action lib key ctx i s
   | JobEnd key ctx i res \<Rightarrow> step_job_end t key ctx i res s
   | JobFinish key ctx i status body \<Rightarrow> step_job_finish t key ctx i status body s
   | JobUnlock key _ _ \<Rightarrow> if mutex s \<noteq> None then None else Some (goto t (Done None) (unlock key s))
   | CancelGet i \<Rightarrow> step_cancel_get t i s
   | CancelLookup i \<Rightarrow> step_cancel_lookup t i s
   | CancelForce i \<Rightarrow> step_cancel_force t i s
   | StartMark \<Rightarrow> step_start t s
   | ReloadList \<Rightarrow> step_reload_list t s
   | ReloadLock ss \<Rightarrow> step_reload_lock t ss s
   | ReloadWait ss e \<Rightarrow> if callbacks_done e s then Some (goto t (ReloadSwap ss) s) else None
   | ReloadSwap ss \<Rightarrow> Some (goto t (Done None) ((install_engine d ss s)\<lparr>mutex := None\<rparr>))
   | ShutdownLock \<Rightarrow> step_shutdown_lock t s
   | ShutdownWait e \<Rightarrow> if callbacks_done e s then Some (goto t (Done None) s) else None
   | Done _ \<Rightarrow> None)"

lemmas step_defs = thread_step_def step_run_bind_def step_job_finish_def step_start_def step_reload_list_def

text \<open>\<open>RunNow\<close> up to \<open>tryLock\<close>.\<close>

definition run_now :: "string \<Rightarrow> string \<Rightarrow> string \<Rightarrow> program" where
  "run_now action lib trigger = (case validate_run_now action lib trigger of
     Inl e \<Rightarrow> Done (Some e)
   | Inr (l, tr) \<Rightarrow> RunTryLock action l tr (lock_key action l))"

text \<open>\<open>Cancel\<close> up to the database.\<close>

definition cancel_run :: "string \<Rightarrow> program" where
  "cancel_run i0 = (let i = trim_space i0 in if i = [] then Done (Some MNotFound) else CancelGet i)"

definition fire_scheduled :: "schedule \<Rightarrow> program" where
  "fire_scheduled sc = run_now (sc_action sc) (case sc_library sc of None \<Rightarrow> [] | Some l \<Rightarrow> l) ''schedule''"

text \<open>What can happen next: a request (\<open>stopOnce\<close> lets the first shutdown do the work), a tick of the cron engine, or the next step of a thread.\<close>

datatype event =
    ReqRun string string string
  | ReqCancel string
  | ReqPatchGlobal "schedule_input list"
  | ReqPatchLibrary string "schedule_input list"
  | ReqShutdown
  | Boot
  | Tick nat
  | Step nat

fun exec :: "maint_deps \<Rightarrow> event \<Rightarrow> runner \<Rightarrow> runner option" where
  "exec d (ReqRun action lib trigger) s = Some (spawn None (run_now action lib trigger) s)"
| "exec d (ReqCancel i) s = Some (spawn None (cancel_run i) s)"
| "exec d (ReqPatchGlobal is) s = Some (on_db (patch_global_inputs d is)
     (\<lambda>r. spawn None (case r of Inl e \<Rightarrow> Done (Some e) | Inr _ \<Rightarrow> ReloadList)) s)"
| "exec d (ReqPatchLibrary lib is) s = (if lib = [] then Some (spawn None (Done (Some MLibraryRequired)) s)
     else Some (on_db (patch_library_inputs d lib is)
       (\<lambda>r. spawn None (case r of Inl e \<Rightarrow> Done (Some e) | Inr _ \<Rightarrow> ReloadList)) s))"
| "exec d ReqShutdown s = (if shut s then Some (spawn None (Done None) s)
     else Some (spawn None ShutdownLock (s\<lparr>shut := True\<rparr>)))"
| "exec d Boot s = Some (spawn None StartMark s)"
| "exec d (Tick n) s = (case engine s of
     None \<Rightarrow> None
   | Some e \<Rightarrow> if ce_stopped e \<or> length (ce_entries e) \<le> n then None
       else Some (spawn (Some (ce_id e)) (fire_scheduled (ce_entries e ! n)) s))"
| "exec d (Step t) s = (if length (threads s) \<le> t then None else thread_step d t (th_at (threads s ! t)) s)"

fun exec_all :: "maint_deps \<Rightarrow> event list \<Rightarrow> runner \<Rightarrow> runner option" where
  "exec_all d [] s = Some s"
| "exec_all d (e # es) s = (case exec d e s of None \<Rightarrow> None | Some s' \<Rightarrow> exec_all d es s')"

definition new_runner :: "maint_world \<Rightarrow> runner" where
  "new_runner w = \<lparr>world = w, locks = [], mutex = None, canceled = [], engine = None, threads = [], fresh = 0, shut = False\<rparr>"

text \<open>The states of a process that started with the database \<open>w\<close>. The wired services may answer differently
  at every event.\<close>

inductive reachable :: "maint_world \<Rightarrow> runner \<Rightarrow> bool" for w where
  start: "reachable w (new_runner w)"
| move: "reachable w s \<Longrightarrow> exec d e s = Some s' \<Longrightarrow> reachable w s'"

inductive_cases reachableE: "reachable w s"

end
