(* ===== verification/MaintenanceLocks.thy ===== *)
theory MaintenanceLocks
  imports MaintenanceRuns
begin

text \<open>
  The invariants of the maintenance runner: every locked key is held by exactly one goroutine, the mutex is
  held between steps by exactly the goroutine that reloads, a lock names the run and the context of its
  holder, and no two locks share a context. Each is kept by every event and so holds in the reachable states.
\<close>

section \<open>Who holds what\<close>

text \<open>The key a thread has locked with the job it stands for, and the thread that holds the mutex between its steps.\<close>

definition job_of :: "program \<Rightarrow> (string \<times> running_job) option" where
  "job_of p = (case p of
     RunInsert _ _ _ key ctx \<Rightarrow> Some (key, \<lparr>job_run = [], job_ctx = ctx\<rparr>)
   | RunUnlock key ctx \<Rightarrow> Some (key, \<lparr>job_run = [], job_ctx = ctx\<rparr>)
   | RunBind _ _ _ key ctx _ \<Rightarrow> Some (key, \<lparr>job_run = [], job_ctx = ctx\<rparr>)
   | RunSpawn _ _ _ key ctx i \<Rightarrow> Some (key, \<lparr>job_run = i, job_ctx = ctx\<rparr>)
   | JobRun _ _ key ctx i \<Rightarrow> Some (key, \<lparr>job_run = i, job_ctx = ctx\<rparr>)
   | JobEnd key ctx i _ \<Rightarrow> Some (key, \<lparr>job_run = i, job_ctx = ctx\<rparr>)
   | JobFinish key ctx i _ _ \<Rightarrow> Some (key, \<lparr>job_run = i, job_ctx = ctx\<rparr>)
   | JobUnlock key ctx i \<Rightarrow> Some (key, \<lparr>job_run = i, job_ctx = ctx\<rparr>)
   | _ \<Rightarrow> None)"

definition key_of :: "program \<Rightarrow> string option" where
  "key_of p = map_option fst (job_of p)"

definition in_reload :: "program \<Rightarrow> bool" where
  "in_reload p \<longleftrightarrow> (case p of ReloadWait _ _ \<Rightarrow> True | ReloadSwap _ \<Rightarrow> True | _ \<Rightarrow> False)"

definition program_at :: "runner \<Rightarrow> nat \<Rightarrow> program" where
  "program_at s t = (if t < length (threads s) then th_at (threads s ! t) else Done None)"

lemma program_at_goto: "t < length (threads s) \<Longrightarrow> program_at (goto t p s) = (program_at s)(t := p)"
  by (rule ext) (simp add: program_at_def goto_def nth_list_update)

lemma program_at_spawn: "program_at (spawn e p s) = (program_at s)(length (threads s) := p)"
  by (rule ext) (auto simp: program_at_def spawn_def nth_append)

lemma program_at_threads: "threads s' = threads s \<Longrightarrow> program_at s' = program_at s"
  by (rule ext) (simp add: program_at_def)

lemma program_at_end [simp]: "program_at s (length (threads s)) = Done None"
  by (simp add: program_at_def)

lemma key_of_Done [simp]: "key_of (Done r) = None" "job_of (Done r) = None"
  by (simp_all add: key_of_def job_of_def)

lemma in_reload_Done [simp]: "\<not> in_reload (Done r)"
  by (simp add: in_reload_def)

lemma goto_simps [simp]:
  "locks (goto t p s) = locks s" "mutex (goto t p s) = mutex s" "world (goto t p s) = world s"
  "engine (goto t p s) = engine s" "canceled (goto t p s) = canceled s" "lock_of k (goto t p s) = lock_of k s"
  "length (threads (goto t p s)) = length (threads s)"
  by (simp_all add: goto_def lock_of_def)

lemma spawn_simps [simp]:
  "locks (spawn e p s) = locks s" "mutex (spawn e p s) = mutex s" "world (spawn e p s) = world s"
  "engine (spawn e p s) = engine s" "canceled (spawn e p s) = canceled s" "lock_of k (spawn e p s) = lock_of k s"
  "length (threads (spawn e p s)) = Suc (length (threads s))"
  by (simp_all add: spawn_def lock_of_def)

section \<open>The invariant\<close>

text \<open>Every locked key is held by exactly one thread; the mutex is held by exactly the thread that reloads.\<close>

definition held :: "(nat \<Rightarrow> string option) \<Rightarrow> (string \<Rightarrow> bool) \<Rightarrow> bool" where
  "held f L \<longleftrightarrow> (\<forall>t t' k. f t = Some k \<longrightarrow> f t' = Some k \<longrightarrow> t = t') \<and> (\<forall>k. L k \<longleftrightarrow> (\<exists>t. f t = Some k))"

lemma held_acquire: "held f L \<Longrightarrow> f t = None \<Longrightarrow> \<not> L k \<Longrightarrow> held (f(t := Some k)) (L(k := True))"
  unfolding held_def by (auto; metis option.distinct(1))

lemma held_release:
  assumes "held f L" and "f t = Some k"
  shows "held (f(t := None)) (L(k := False))"
proof -
  from assms have uniq: "\<And>t t' k. f t = Some k \<Longrightarrow> f t' = Some k \<Longrightarrow> t = t'"
    and L: "\<And>k. L k \<longleftrightarrow> (\<exists>t. f t = Some k)" by (auto simp: held_def)
  have "(L(k := False)) k' \<longleftrightarrow> (\<exists>t'. (f(t := None)) t' = Some k')" for k'
  proof (cases "k' = k")
    case True
    with uniq [OF assms(2)] show ?thesis by auto
  next
    case False
    with assms(2) have "f t \<noteq> Some k'" by simp
    then have "(\<exists>t'. (f(t := None)) t' = Some k') \<longleftrightarrow> (\<exists>t'. f t' = Some k')"
      by (metis fun_upd_other fun_upd_same option.distinct(1))
    with False L show ?thesis by simp
  qed
  moreover have "t1 = t2" if "(f(t := None)) t1 = Some k'" "(f(t := None)) t2 = Some k'" for t1 t2 k'
    using that uniq by (auto split: if_splits)
  ultimately show ?thesis unfolding held_def by blast
qed

lemma held_handover:
  assumes "held f L" and "f t = Some k" and "f n = None"
  shows "held (f(t := None, n := Some k)) L"
proof -
  from held_release [OF assms(1,2)] have "held ((f(t := None))(n := Some k)) ((L(k := False))(k := True))"
    using assms(3) by (intro held_acquire) auto
  moreover have "L k" using assms by (auto simp: held_def)
  ultimately show ?thesis by (simp add: fun_upd_idem)
qed

definition locked :: "runner \<Rightarrow> string \<Rightarrow> bool" where
  "locked s k \<longleftrightarrow> lock_of k s \<noteq> None"

definition keys_at :: "runner \<Rightarrow> nat \<Rightarrow> string option" where
  "keys_at s = (\<lambda>t. key_of (program_at s t))"

definition keys_ok :: "runner \<Rightarrow> bool" where
  "keys_ok s \<longleftrightarrow> held (keys_at s) (locked s)"

definition mutex_ok :: "runner \<Rightarrow> bool" where
  "mutex_ok s \<longleftrightarrow> (\<forall>t. mutex s = Some t \<longleftrightarrow> in_reload (program_at s t))"

lemma keys_at_goto: "t < length (threads s) \<Longrightarrow> keys_at (goto t p s) = (keys_at s)(t := key_of p)"
  by (rule ext) (simp add: keys_at_def program_at_goto)

lemma keys_at_spawn: "keys_at (spawn e p s) = (keys_at s)(length (threads s) := key_of p)"
  by (rule ext) (simp add: keys_at_def program_at_spawn)

lemma locked_same [simp]: "locked (goto t p s) = locked s" "locked (spawn e p s) = locked s"
  by (rule ext, simp add: locked_def)+

lemma keys_ok_goto:
  "t < length (threads s) \<Longrightarrow> keys_ok (goto t p s) \<longleftrightarrow> held ((keys_at s)(t := key_of p)) (locked s)"
  by (simp add: keys_ok_def keys_at_goto)

text \<open>Steps that move a thread without locking or unlocking.\<close>

lemma keys_ok_move:
  assumes "keys_ok s" and "t < length (threads s)" and "key_of p = keys_at s t"
  shows "keys_ok (goto t p s)"
  unfolding keys_ok_goto [OF assms(2)] using assms by (simp add: keys_ok_def)

lemma keys_ok_spawn:
  assumes "keys_ok s" and "key_of p = None"
  shows "keys_ok (spawn e p s)"
proof -
  have "keys_at s (length (threads s)) = None" by (simp add: keys_at_def)
  with assms show ?thesis by (simp add: keys_ok_def keys_at_spawn fun_upd_idem)
qed

lemma keys_at_cong: "threads s' = threads s \<Longrightarrow> keys_at s' = keys_at s"
  by (rule ext) (simp add: keys_at_def program_at_def)

lemma locked_cong: "locks s' = locks s \<Longrightarrow> locked s' = locked s"
  by (rule ext) (simp add: locked_def lock_of_def)

lemma keys_ok_cong: "threads s' = threads s \<Longrightarrow> locks s' = locks s \<Longrightarrow> keys_ok s' = keys_ok s"
  by (simp only: keys_ok_def keys_at_cong [of s' s] locked_cong [of s' s])

lemma mutex_ok_cong: "threads s' = threads s \<Longrightarrow> mutex s' = mutex s \<Longrightarrow> mutex_ok s' = mutex_ok s"
  by (simp only: mutex_ok_def program_at_threads [of s' s])

lemma mutex_ok_move:
  "mutex_ok s \<Longrightarrow> t < length (threads s) \<Longrightarrow> in_reload p = in_reload (program_at s t) \<Longrightarrow> mutex_ok (goto t p s)"
  by (simp add: mutex_ok_def program_at_goto)

lemma mutex_ok_spawn: "mutex_ok s \<Longrightarrow> \<not> in_reload p \<Longrightarrow> mutex_ok (spawn e p s)"
  by (auto simp: mutex_ok_def program_at_spawn)

lemma locked_unlock: "locked (unlock key s) = (locked s)(key := False)"
proof (rule ext)
  fix k
  have "map_of (filter (\<lambda>(k', _). k' \<noteq> key) xs) k = (if k = key then None else map_of xs k)" for xs :: "(string \<times> running_job) list"
    by (induction xs) auto
  then show "locked (unlock key s) k = ((locked s)(key := False)) k"
    by (simp add: locked_def lock_of_def unlock_def)
qed

lemma locked_bind: "locked (bind_run_id key i s) = locked s"
proof (rule ext)
  fix k
  have "map_of (map (\<lambda>(k, j). (k, if k = key then j\<lparr>job_run := i\<rparr> else j)) xs) k \<noteq> None \<longleftrightarrow> map_of xs k \<noteq> None" for xs
    by (induction xs) auto
  then show "locked (bind_run_id key i s) k = locked s k"
    by (simp add: locked_def lock_of_def bind_run_id_def)
qed

lemma lock_simps [simp]:
  "threads (unlock key s) = threads s" "mutex (unlock key s) = mutex s"
  "threads (bind_run_id key i s) = threads s" "mutex (bind_run_id key i s) = mutex s"
  by (simp_all add: unlock_def bind_run_id_def)

lemma on_db_cases:
  obtains r w where "on_db f k s = k r (s\<lparr>world := w\<rparr>)"
  by (cases "f (world s)") (auto simp: on_db_def)

definition runner_ok :: "runner \<Rightarrow> bool" where
  "runner_ok s \<longleftrightarrow> keys_ok s \<and> mutex_ok s"

lemma program_at_th: "t < length (threads s) \<Longrightarrow> program_at s t = th_at (threads s ! t)"
  by (simp add: program_at_def)

text \<open>A step to \<open>p\<close> that changes neither the locks nor the mutex, whatever else it changes.\<close>

lemma ok_move:
  assumes "runner_ok s" and "t < length (threads s)"
    and "threads s0 = threads s" and "locks s0 = locks s" and "mutex s0 = mutex s"
    and "key_of p = key_of (program_at s t)" and "in_reload p = in_reload (program_at s t)"
  shows "runner_ok (goto t p s0)"
proof -
  from assms have "keys_ok s0" "mutex_ok s0" "t < length (threads s0)"
    using keys_ok_cong [of s0 s] mutex_ok_cong [of s0 s] by (simp_all add: runner_ok_def)
  with assms(6,7) program_at_threads [OF assms(3)] show ?thesis
    by (simp add: runner_ok_def keys_ok_move mutex_ok_move keys_at_def)
qed

lemma ok_db:
  assumes "runner_ok s" and "t < length (threads s)"
    and "\<And>r. key_of (p r) = key_of (program_at s t)" and "\<And>r. in_reload (p r) = in_reload (program_at s t)"
  shows "runner_ok (on_db f (\<lambda>r. goto t (p r)) s)"
proof -
  obtain r w where "on_db f (\<lambda>r. goto t (p r)) s = goto t (p r) (s\<lparr>world := w\<rparr>)" by (rule on_db_cases)
  with assms show ?thesis by (simp add: ok_move)
qed

lemma ok_unlock:
  assumes "runner_ok s" and "t < length (threads s)" and "key_of (program_at s t) = Some k"
    and "\<not> in_reload (program_at s t)"
  shows "runner_ok (goto t (Done r) (unlock k s))"
proof -
  have t: "t < length (threads (unlock k s))" using assms(2) by simp
  have "keys_at (unlock k s) = keys_at s" by (rule keys_at_cong) simp
  with assms have "keys_ok (goto t (Done r) (unlock k s))"
    unfolding keys_ok_goto [OF t] locked_unlock
    by (simp add: runner_ok_def keys_ok_def keys_at_def held_release)
  moreover have "mutex_ok (goto t (Done r) (unlock k s))"
    using assms mutex_ok_cong [of "unlock k s" s] program_at_threads [of "unlock k s" s]
    by (intro mutex_ok_move) (simp_all add: runner_ok_def)
  ultimately show ?thesis by (simp add: runner_ok_def)
qed

lemma ok_bind:
  assumes "runner_ok s" and "t < length (threads s)" and "key_of p = key_of (program_at s t)"
    and "in_reload p = in_reload (program_at s t)"
  shows "runner_ok (goto t p (bind_run_id k i s))"
proof -
  let ?s = "bind_run_id k i s"
  have same: "keys_at ?s = keys_at s" "program_at ?s = program_at s"
    by (rule keys_at_cong, simp) (rule program_at_threads, simp)
  have t: "t < length (threads ?s)" using assms(2) by simp
  have "mutex_ok ?s" using assms(1) mutex_ok_cong [of ?s s] by (simp only: runner_ok_def lock_simps)
  then have "mutex_ok (goto t p ?s)" by (rule mutex_ok_move) (simp_all add: assms(2,4) same)
  moreover have "keys_ok ?s" using assms(1) by (simp only: runner_ok_def keys_ok_def same locked_bind)
  then have "keys_ok (goto t p ?s)" by (rule keys_ok_move) (simp_all only: t same assms(3) keys_at_def)
  ultimately show ?thesis by (simp only: runner_ok_def)
qed

lemma ok_spawn: "runner_ok s \<Longrightarrow> key_of p = None \<Longrightarrow> \<not> in_reload p \<Longrightarrow> runner_ok (spawn e p s)"
  by (simp add: runner_ok_def keys_ok_spawn mutex_ok_spawn)

lemma ok_change:
  assumes "runner_ok s" and "threads s0 = threads s" and "locks s0 = locks s" and "mutex s0 = mutex s"
  shows "runner_ok s0"
  using assms keys_ok_cong [of s0 s] mutex_ok_cong [of s0 s] by (simp add: runner_ok_def)

text \<open>The thread that runs \<open>RunNow\<close> hands the key over to the goroutine it starts.\<close>

lemma ok_handover:
  assumes ok: "runner_ok s" and t: "t < length (threads s)" and k: "key_of (program_at s t) = Some k"
    and p: "key_of p = Some k" "\<not> in_reload p" "\<not> in_reload (program_at s t)"
  shows "runner_ok (goto t (Done None) (spawn None p s))"
proof -
  let ?n = "length (threads s)"
  have t': "t < length (threads (spawn None p s))" using t by simp
  have "keys_at s ?n = None" by (simp add: keys_at_def)
  with ok k have "held ((keys_at s)(t := None, ?n := Some k)) (locked s)"
    by (intro held_handover) (simp_all add: runner_ok_def keys_ok_def keys_at_def)
  then have "held ((keys_at s)(?n := Some k, t := None)) (locked s)"
    using t by (subst fun_upd_twist) simp_all
  then have "keys_ok (goto t (Done None) (spawn None p s))"
    unfolding keys_ok_goto [OF t'] using p by (simp add: keys_at_spawn)
  moreover have "mutex_ok (goto t (Done None) (spawn None p s))"
  proof (rule mutex_ok_move [OF _ t'])
    show "mutex_ok (spawn None p s)" using ok p(2) by (simp add: runner_ok_def mutex_ok_spawn)
    show "in_reload (Done None) = in_reload (program_at (spawn None p s) t)"
      using t p by (simp add: program_at_spawn)
  qed
  ultimately show ?thesis by (simp add: runner_ok_def)
qed

lemma ok_try_lock:
  assumes ok: "runner_ok s" and t: "t < length (threads s)"
    and none: "key_of (program_at s t) = None" "\<not> in_reload (program_at s t)"
    and run: "step_run_try t action lib trigger key s = Some s'"
  shows "runner_ok s'"
proof (cases "locked s key")
  case True
  with run have s': "s' = goto t (Done (Some MConflict)) (s\<lparr>fresh := fresh s + 1\<rparr>)"
    by (auto simp: step_run_try_def try_lock_def locked_def lock_of_def Let_def split: if_splits)
  show ?thesis unfolding s' by (rule ok_move [OF ok t]) (simp_all add: none)
next
  case False
  let ?job = "\<lparr>job_run = [], job_ctx = fresh s\<rparr>"
  let ?s = "s\<lparr>fresh := fresh s + 1, locks := (key, ?job) # locks s\<rparr>"
  from False run have s': "s' = goto t (RunInsert action lib trigger key (fresh s)) ?s"
    by (auto simp: step_run_try_def try_lock_def locked_def lock_of_def Let_def split: if_splits)
  have "keys_at ?s = keys_at s" "program_at ?s = program_at s"
    by (rule keys_at_cong, simp) (rule program_at_threads, simp)
  moreover have "locked ?s = (locked s)(key := True)" by (rule ext) (simp add: locked_def lock_of_def)
  moreover have "held ((keys_at s)(t := Some key)) ((locked s)(key := True))"
    using ok none False by (intro held_acquire) (simp_all add: runner_ok_def keys_ok_def keys_at_def)
  moreover have t': "t < length (threads ?s)" using t by simp
  ultimately have "keys_ok s'" unfolding s' keys_ok_goto [OF t'] by (simp add: key_of_def job_of_def)
  moreover have "mutex_ok s'"
  proof (unfold s', rule mutex_ok_move)
    have "mutex_ok ?s = mutex_ok s" by (rule mutex_ok_cong) simp_all
    with ok show "mutex_ok ?s" by (simp only: runner_ok_def)
    show "in_reload (RunInsert action lib trigger key (fresh s)) = in_reload (program_at ?s t)"
      using none(2) \<open>program_at ?s = program_at s\<close> by (simp add: in_reload_def)
  qed (use t in simp)
  ultimately show ?thesis by (simp add: runner_ok_def)
qed

text \<open>Taking and releasing the mutex.\<close>

lemma ok_mutex:
  assumes ok: "runner_ok s" and t: "t < length (threads s)" and keys: "key_of p = None" "key_of (program_at s t) = None"
    and same: "threads s0 = threads s" "locks s0 = locks s"
    and mx: "mutex s = None \<and> mutex s0 = Some t \<and> in_reload p \<or> in_reload (program_at s t) \<and> mutex s0 = None \<and> \<not> in_reload p"
  shows "runner_ok (goto t p s0)"
proof -
  have "keys_ok (goto t p s0)"
  proof (rule keys_ok_move)
    show "keys_ok s0" using ok keys_ok_cong [OF same] by (simp only: runner_ok_def)
    show "key_of p = keys_at s0 t" using keys by (simp add: keys_at_cong [OF same(1)]) (simp add: keys_at_def)
  qed (use t same in simp)
  moreover have "mutex_ok (goto t p s0)"
    unfolding mutex_ok_def
  proof
    fix t'
    have t0: "t < length (threads s0)" using t same by simp
    from ok have old: "mutex s = Some t' \<longleftrightarrow> in_reload (program_at s t')" "mutex s = Some t \<longleftrightarrow> in_reload (program_at s t)"
      by (simp_all add: runner_ok_def mutex_ok_def)
    show "mutex (goto t p s0) = Some t' \<longleftrightarrow> in_reload (program_at (goto t p s0) t')"
      using mx old unfolding program_at_goto [OF t0] program_at_threads [OF same(1)]
      by (cases "t' = t") auto
  qed
  ultimately show ?thesis by (simp add: runner_ok_def)
qed

section \<open>Every event keeps it\<close>

lemma thread_step_ok:
  assumes ok: "runner_ok s" and t: "t < length (threads s)" and p: "program_at s t = p"
    and run: "thread_step d t p s = Some s'"
  shows "runner_ok s'"
proof -
  note move = ok_move [OF ok t] and db = ok_db [OF ok t] and unlock = ok_unlock [OF ok t] and mx = ok_mutex [OF ok t]
  note at = p key_of_def job_of_def in_reload_def
  show ?thesis
  proof (cases p)
    case (RunTryLock action lib trigger key)
    with run p show ?thesis by (intro ok_try_lock [OF ok t]) (simp_all add: at step_defs)
  next
    case (RunInsert action lib trigger key ctx)
    with run have s': "s' = on_db (insert_running action lib trigger) (\<lambda>r. goto t (case r of Inl _ \<Rightarrow> RunUnlock key ctx
        | Inr row \<Rightarrow> RunBind action lib trigger key ctx (rn_id row))) s"
      by (simp add: step_defs step_run_insert_def sum.case_distrib [of "goto t"])
    show ?thesis unfolding s' by (rule db) (simp_all add: at RunInsert split: sum.splits)
  next
    case (RunUnlock key ctx)
    with run have s': "s' = goto t (Done (Some MDb)) (unlock key s)" by (simp add: step_defs split: if_splits)
    show ?thesis unfolding s' by (rule unlock) (simp_all add: at RunUnlock)
  next
    case (RunBind action lib trigger key ctx i)
    with run have s': "s' = goto t (RunSpawn action lib trigger key ctx i) (bind_run_id key i s)"
      by (simp add: step_defs split: if_splits)
    show ?thesis unfolding s' by (rule ok_bind [OF ok t]) (simp_all add: at RunBind)
  next
    case (RunSpawn action lib trigger key ctx i)
    with run have s': "s' = goto t (Done None) (spawn None (JobRun action lib key ctx i) s)" by (simp add: step_defs)
    show ?thesis unfolding s' by (rule ok_handover [OF ok t, of key]) (simp_all add: at RunSpawn)
  next
    case (JobRun action lib key ctx i)
    with run have s': "s' = goto t (JobEnd key ctx i (run_action d action lib (ctx \<in> set (canceled s)))) s"
      by (simp add: step_defs step_job_run_def)
    show ?thesis unfolding s' by (rule move) (simp_all add: at JobRun)
  next
    case (JobEnd key ctx i res)
    with run obtain status body where s': "s' = goto t (JobFinish key ctx i status body) s"
      by (auto simp: step_defs step_job_end_def split: prod.splits)
    show ?thesis unfolding s' by (rule move) (simp_all add: at JobEnd)
  next
    case (JobFinish key ctx i status body)
    with run have s': "s' = on_db (finish_run i status body) (\<lambda>_. goto t (JobUnlock key ctx i)) s" by (simp add: step_defs)
    show ?thesis unfolding s' by (rule db) (simp_all add: at JobFinish)
  next
    case (JobUnlock key ctx i)
    with run have s': "s' = goto t (Done None) (unlock key s)" by (simp add: step_defs split: if_splits)
    show ?thesis unfolding s' by (rule unlock) (simp_all add: at JobUnlock)
  next
    case (CancelGet i)
    with run have s': "s' = on_db (get_run i) (\<lambda>r. goto t (case r of Inl e \<Rightarrow> Done (Some e)
        | Inr row \<Rightarrow> if rn_status row \<noteq> ''running'' then Done (Some MNotRunning) else CancelLookup i)) s"
      by (simp add: step_defs step_cancel_get_def sum.case_distrib [of "goto t"])
    show ?thesis unfolding s' by (rule db) (simp_all add: at CancelGet split: sum.splits)
  next
    case (CancelLookup i)
    with run have "s' = goto t (CancelForce i) s \<or> (\<exists>ctx. s' = goto t (Done None) (s\<lparr>canceled := ctx # canceled s\<rparr>))"
      by (auto simp: step_defs step_cancel_lookup_def split: if_splits option.splits)
    then show ?thesis by (auto intro!: move simp: at CancelLookup)
  next
    case (CancelForce i)
    with run have s': "s' = on_db (finish_run i ''canceled'' [(''error'', SText ''canceled''), (''reason'', SText ''no live job'')])
        (\<lambda>r. goto t (Done (case r of Inl e \<Rightarrow> Some e | Inr _ \<Rightarrow> None))) s"
      by (simp add: step_defs step_cancel_force_def)
    show ?thesis unfolding s' by (rule db) (simp_all add: at CancelForce)
  next
    case StartMark
    with run have s': "s' = on_db mark_interrupted_runs
        (\<lambda>r. goto t (case r of Inl e \<Rightarrow> Done (Some e) | Inr _ \<Rightarrow> ReloadList)) s" by (simp add: step_defs)
    show ?thesis unfolding s' by (rule db) (simp_all add: at StartMark split: sum.splits)
  next
    case ReloadList
    with run have s': "s' = on_db list_schedules
        (\<lambda>r. goto t (case r of Inl e \<Rightarrow> Done (Some e) | Inr ss \<Rightarrow> ReloadLock ss)) s" by (simp add: step_defs)
    show ?thesis unfolding s' by (rule db) (simp_all add: at ReloadList split: sum.splits)
  next
    case (ReloadLock ss)
    with run have free: "mutex s = None" and "s' = goto t (ReloadSwap ss) (s\<lparr>mutex := Some t\<rparr>) \<or>
        (\<exists>e. s' = goto t (ReloadWait ss (ce_id e)) (s\<lparr>mutex := Some t, engine := Some (e\<lparr>ce_stopped := True\<rparr>)\<rparr>))"
      by (auto simp: step_defs step_reload_lock_def split: if_splits option.splits)
    then show ?thesis by (auto intro!: mx simp: at ReloadLock)
  next
    case (ReloadWait ss e)
    with run have s': "s' = goto t (ReloadSwap ss) s" by (simp add: step_defs split: if_splits)
    show ?thesis unfolding s' by (rule move) (simp_all add: at ReloadWait)
  next
    case (ReloadSwap ss)
    with run have s': "s' = goto t (Done None) ((install_engine d ss s)\<lparr>mutex := None\<rparr>)" by (simp add: step_defs)
    show ?thesis unfolding s' by (rule mx) (simp_all add: at ReloadSwap install_engine_def)
  next
    case ShutdownLock
    with run show ?thesis
      by (auto simp: step_defs step_shutdown_lock_def at intro!: move split: if_splits option.splits)
  next
    case (ShutdownWait e)
    with run have s': "s' = goto t (Done None) s" by (simp add: step_defs split: if_splits)
    show ?thesis unfolding s' by (rule move) (simp_all add: at ShutdownWait)
  next
    case (Done r)
    with run show ?thesis by (simp add: step_defs)
  qed
qed

lemma run_now_free: "key_of (run_now action lib trigger) = None" "\<not> in_reload (run_now action lib trigger)"
  by (auto simp: run_now_def key_of_def job_of_def in_reload_def split: sum.splits)

lemma cancel_run_free: "key_of (cancel_run i) = None" "\<not> in_reload (cancel_run i)"
  by (auto simp: cancel_run_def key_of_def job_of_def in_reload_def Let_def)

lemma ok_db_spawn:
  assumes "runner_ok s" and "\<And>r. key_of (p r) = None" and "\<And>r. \<not> in_reload (p r)"
  shows "runner_ok (on_db f (\<lambda>r. spawn e (p r)) s)"
proof -
  obtain r w where s': "on_db f (\<lambda>r. spawn e (p r)) s = spawn e (p r) (s\<lparr>world := w\<rparr>)" by (rule on_db_cases)
  have "runner_ok (s\<lparr>world := w\<rparr>)" by (rule ok_change [OF assms(1)]) simp_all
  then show ?thesis unfolding s' using assms(2,3) by (rule ok_spawn)
qed

lemma exec_ok:
  assumes ok: "runner_ok s" and run: "exec d e s = Some s'"
  shows "runner_ok s'"
proof (cases e)
  case (ReqRun action lib trigger)
  with ok run show ?thesis by (auto intro: ok_spawn simp: run_now_free)
next
  case (ReqCancel i)
  with ok run show ?thesis by (auto intro: ok_spawn simp: cancel_run_free)
next
  case (ReqPatchGlobal inputs)
  with run have s': "s' = on_db (patch_global_inputs d inputs)
      (\<lambda>r. spawn None (case r of Inl e \<Rightarrow> Done (Some e) | Inr _ \<Rightarrow> ReloadList)) s" by simp
  show ?thesis unfolding s'
    by (rule ok_db_spawn [OF ok]) (simp_all add: key_of_def job_of_def in_reload_def split: sum.splits)
next
  case (ReqPatchLibrary lib inputs)
  show ?thesis
  proof (cases "lib = []")
    case True
    with ReqPatchLibrary run ok show ?thesis by (auto intro: ok_spawn)
  next
    case False
    with ReqPatchLibrary run have s': "s' = on_db (patch_library_inputs d lib inputs)
        (\<lambda>r. spawn None (case r of Inl e \<Rightarrow> Done (Some e) | Inr _ \<Rightarrow> ReloadList)) s" by simp
    show ?thesis unfolding s'
      by (rule ok_db_spawn [OF ok]) (simp_all add: key_of_def job_of_def in_reload_def split: sum.splits)
  qed
next
  case ReqShutdown
  have "runner_ok (s\<lparr>shut := True\<rparr>)" by (rule ok_change [OF ok]) simp_all
  with ok run ReqShutdown show ?thesis
    by (auto intro!: ok_spawn simp: key_of_def job_of_def in_reload_def split: if_splits)
next
  case Boot
  with ok run show ?thesis by (auto intro!: ok_spawn simp: key_of_def job_of_def in_reload_def)
next
  case (Tick n)
  with ok run show ?thesis
    by (auto intro!: ok_spawn simp: fire_scheduled_def run_now_free split: option.splits if_splits)
next
  case (Step t)
  with run have "t < length (threads s)" "thread_step d t (th_at (threads s ! t)) s = Some s'"
    by (auto split: if_splits)
  then show ?thesis by (intro thread_step_ok [OF ok _ program_at_th])
qed

lemma reachable_ok: "reachable w s \<Longrightarrow> runner_ok s"
proof (induction rule: reachable.induct)
  case start
  have "program_at (new_runner w) t = Done None" for t by (simp add: program_at_def new_runner_def)
  then show ?case
    by (simp add: runner_ok_def keys_ok_def mutex_ok_def held_def keys_at_def locked_def lock_of_def)
      (simp add: new_runner_def)
next
  case (move s d e s')
  show ?case by (rule exec_ok [OF move.IH move.hyps(2)])
qed

section \<open>Locks and contexts\<close>

text \<open>The lock a thread holds names its run and its context; no two locks share a context.\<close>

definition jobs_ok :: "runner \<Rightarrow> bool" where
  "jobs_ok s \<longleftrightarrow> (\<forall>t k j. job_of (program_at s t) = Some (k, j) \<longrightarrow> lock_of k s = Some j) \<and>
     distinct (map fst (locks s)) \<and> distinct (map (job_ctx \<circ> snd) (locks s)) \<and>
     (\<forall>x \<in> set (locks s). job_ctx (snd x) < fresh s)"

lemma jobs_okD: "jobs_ok s \<Longrightarrow> job_of (program_at s t) = Some (k, j) \<Longrightarrow> lock_of k s = Some j"
  by (simp add: jobs_ok_def)

lemma jobs_okI:
  assumes "\<And>t k j. job_of (program_at s t) = Some (k, j) \<Longrightarrow> lock_of k s = Some j"
    and "distinct (map fst (locks s))" and "distinct (map (job_ctx \<circ> snd) (locks s))"
    and "\<And>x. x \<in> set (locks s) \<Longrightarrow> job_ctx (snd x) < fresh s"
  shows "jobs_ok s"
  using assms by (simp add: jobs_ok_def)

lemma fresh_goto [simp]: "fresh (goto t p s) = fresh s" "fresh (spawn e p s) = fresh s"
  by (simp_all add: goto_def spawn_def)

lemma jobs_move:
  assumes ok: "jobs_ok s" and t: "t < length (threads s)"
    and same: "threads s0 = threads s" "locks s0 = locks s" "fresh s \<le> fresh s0"
    and p: "job_of p = job_of (program_at s t) \<or> job_of p = None"
  shows "jobs_ok (goto t p s0)"
proof (rule jobs_okI)
  have t0: "t < length (threads s0)" using t same by simp
  fix t' k j assume "job_of (program_at (goto t p s0) t') = Some (k, j)"
  then have "\<exists>t. job_of (program_at s t) = Some (k, j)"
    using p unfolding program_at_goto [OF t0] program_at_threads [OF same(1)] by (auto split: if_splits)
  with ok show "lock_of k (goto t p s0) = Some j" using same(2) by (auto simp: lock_of_def dest: jobs_okD)
qed (use ok same in \<open>auto simp: jobs_ok_def intro: less_le_trans\<close>)

lemma other_key:
  assumes "runner_ok s" and "key_of (program_at s t) = Some k" and "key_of (program_at s t') = Some k"
  shows "t' = t"
  using assms by (auto simp: runner_ok_def keys_ok_def held_def keys_at_def)

lemma job_key: "job_of p = Some (k, j) \<Longrightarrow> key_of p = Some k"
  by (simp add: key_of_def)

lemma jobs_unlock:
  assumes ok: "runner_ok s" "jobs_ok s" and t: "t < length (threads s)" "key_of (program_at s t) = Some k"
  shows "jobs_ok (goto t (Done r) (unlock k s))"
proof (rule jobs_okI)
  have t0: "t < length (threads (unlock k s))" using t by simp
  fix t' k' j assume "job_of (program_at (goto t (Done r) (unlock k s)) t') = Some (k', j)"
  then have t': "t' \<noteq> t" "job_of (program_at s t') = Some (k', j)"
    unfolding program_at_goto [OF t0] program_at_threads [of "unlock k s" s, simplified] by (auto split: if_splits)
  then have "k' \<noteq> k" using other_key [OF ok(1) t(2)] job_key by blast
  moreover have "map_of (filter (\<lambda>(k', _). k' \<noteq> k) xs) k' = (if k' = k then None else map_of xs k')" for xs :: "(string \<times> running_job) list"
    by (induction xs) auto
  ultimately show "lock_of k' (goto t (Done r) (unlock k s)) = Some j"
    using jobs_okD [OF ok(2) t'(2)] by (simp add: lock_of_def unlock_def)
qed (use ok(2) in \<open>auto simp: jobs_ok_def unlock_def distinct_map_filter\<close>)

lemma jobs_bind:
  assumes ok: "runner_ok s" "jobs_ok s" and t: "t < length (threads s)" "job_of (program_at s t) = Some (k, j)"
    and p: "job_of p = Some (k, j\<lparr>job_run := i\<rparr>)"
  shows "jobs_ok (goto t p (bind_run_id k i s))"
proof (rule jobs_okI)
  let ?s = "bind_run_id k i s"
  have t0: "t < length (threads ?s)" using t by simp
  have look: "map_of (map (\<lambda>(k', j). (k', if k' = k then j\<lparr>job_run := i\<rparr> else j)) xs) k' =
      map_option (\<lambda>j. if k' = k then j\<lparr>job_run := i\<rparr> else j) (map_of xs k')" for xs :: "(string \<times> running_job) list" and k'
    by (induction xs) auto
  fix t' k' j' assume job: "job_of (program_at (goto t p ?s) t') = Some (k', j')"
  show "lock_of k' (goto t p ?s) = Some j'"
  proof (cases "t' = t")
    case True
    with job p have "k' = k" "j' = j\<lparr>job_run := i\<rparr>" unfolding program_at_goto [OF t0] by simp_all
    with jobs_okD [OF ok(2) t(2)] look show ?thesis by (simp add: lock_of_def bind_run_id_def)
  next
    case False
    with job have job': "job_of (program_at s t') = Some (k', j')"
      unfolding program_at_goto [OF t0] program_at_threads [of ?s s, simplified] by simp
    with False have "k' \<noteq> k" using other_key [OF ok(1) job_key [OF t(2)]] job_key by blast
    with jobs_okD [OF ok(2) job'] look show ?thesis by (simp add: lock_of_def bind_run_id_def)
  qed
next
  have "map fst (locks (bind_run_id k i s)) = map fst (locks s)" "map (job_ctx \<circ> snd) (locks (bind_run_id k i s)) = map (job_ctx \<circ> snd) (locks s)"
    by (auto simp: bind_run_id_def split: prod.splits)
  with ok(2) show "distinct (map fst (locks (goto t p (bind_run_id k i s))))"
    "distinct (map (job_ctx \<circ> snd) (locks (goto t p (bind_run_id k i s))))" by (simp_all only: goto_simps jobs_ok_def)
  fix x assume "x \<in> set (locks (goto t p (bind_run_id k i s)))"
  with ok(2) show "job_ctx (snd x) < fresh (goto t p (bind_run_id k i s))"
    by (fastforce simp: bind_run_id_def jobs_ok_def split: if_splits)
qed

lemma jobs_try:
  assumes ok: "jobs_ok s" and t: "t < length (threads s)" and none: "job_of (program_at s t) = None"
    and run: "step_run_try t action lib trigger key s = Some s'"
  shows "jobs_ok s'"
proof (cases "locked s key")
  case True
  with run have s': "s' = goto t (Done (Some MConflict)) (s\<lparr>fresh := fresh s + 1\<rparr>)"
    by (auto simp: step_run_try_def try_lock_def locked_def lock_of_def Let_def split: if_splits)
  show ?thesis unfolding s' by (rule jobs_move [OF ok t]) simp_all
next
  case False
  let ?job = "\<lparr>job_run = [], job_ctx = fresh s\<rparr>"
  let ?s = "s\<lparr>fresh := fresh s + 1, locks := (key, ?job) # locks s\<rparr>"
  from False run have s': "s' = goto t (RunInsert action lib trigger key (fresh s)) ?s"
    by (auto simp: step_run_try_def try_lock_def locked_def lock_of_def Let_def split: if_splits)
  have t0: "t < length (threads ?s)" using t by simp
  have prog: "program_at ?s = program_at s" by (rule program_at_threads) simp
  show ?thesis unfolding s'
  proof (rule jobs_okI)
    fix t' k j assume job: "job_of (program_at (goto t (RunInsert action lib trigger key (fresh s)) ?s) t') = Some (k, j)"
    show "lock_of k (goto t (RunInsert action lib trigger key (fresh s)) ?s) = Some j"
    proof (cases "t' = t")
      case True
      with job show ?thesis unfolding program_at_goto [OF t0] by (auto simp: job_of_def lock_of_def)
    next
      case False
      with job have "lock_of k s = Some j" unfolding program_at_goto [OF t0] prog by (intro jobs_okD [OF ok]) simp
      moreover from this \<open>\<not> locked s key\<close> have "k \<noteq> key" by (auto simp: locked_def)
      ultimately show ?thesis by (simp add: lock_of_def)
    qed
  next
    have "key \<notin> fst ` set (locks s)" using False by (simp add: locked_def lock_of_def map_of_eq_None_iff)
    moreover have "fresh s \<notin> (job_ctx \<circ> snd) ` set (locks s)" using ok by (auto simp: jobs_ok_def)
    ultimately show "distinct (map fst (locks (goto t (RunInsert action lib trigger key (fresh s)) ?s)))"
      "distinct (map (job_ctx \<circ> snd) (locks (goto t (RunInsert action lib trigger key (fresh s)) ?s)))"
      using ok by (auto simp: jobs_ok_def)
  qed (use ok in \<open>auto simp: jobs_ok_def\<close>)
qed

lemma jobs_db:
  assumes ok: "jobs_ok s" and t: "t < length (threads s)"
    and p: "\<And>r. job_of (p r) = job_of (program_at s t) \<or> job_of (p r) = None"
  shows "jobs_ok (on_db f (\<lambda>r. goto t (p r)) s)"
proof -
  obtain r w where s': "on_db f (\<lambda>r. goto t (p r)) s = goto t (p r) (s\<lparr>world := w\<rparr>)" by (rule on_db_cases)
  show ?thesis unfolding s' by (rule jobs_move [OF ok t _ _ _ p]) simp_all
qed

lemma jobs_spawn:
  assumes ok: "jobs_ok s" and same: "threads s0 = threads s" "locks s0 = locks s" "fresh s0 = fresh s"
    and p: "\<And>k j. job_of p = Some (k, j) \<Longrightarrow> lock_of k s = Some j"
  shows "jobs_ok (spawn e p s0)"
proof (rule jobs_okI)
  fix t k j assume "job_of (program_at (spawn e p s0) t) = Some (k, j)"
  then have "job_of p = Some (k, j) \<or> job_of (program_at s t) = Some (k, j)"
    unfolding program_at_spawn program_at_threads [OF same(1)] by (auto split: if_splits)
  with p jobs_okD [OF ok] same(2) show "lock_of k (spawn e p s0) = Some j" by (auto simp: lock_of_def)
qed (use ok same in \<open>auto simp: jobs_ok_def\<close>)

lemma thread_step_jobs:
  assumes ok: "runner_ok s" "jobs_ok s" and t: "t < length (threads s)" and p: "program_at s t = p"
    and run: "thread_step d t p s = Some s'"
  shows "jobs_ok s'"
proof -
  note move = jobs_move [OF ok(2) t] and db = jobs_db [OF ok(2) t]
  note at = p job_of_def
  show ?thesis
  proof (cases "job_of p")
    case None
    then show ?thesis
    proof (cases "\<exists>action lib trigger key. p = RunTryLock action lib trigger key")
      case True
      with run None p show ?thesis by (auto simp: step_defs intro: jobs_try [OF ok(2) t])
    next
      case False
      with run None obtain p' s0 where s': "s' = goto t p' s0" "job_of p' = None"
        "threads s0 = threads s" "locks s0 = locks s" "fresh s \<le> fresh s0"
        by (cases p) (auto simp: job_of_def step_defs step_cancel_get_def step_cancel_lookup_def
          step_cancel_force_def step_reload_lock_def step_shutdown_lock_def install_engine_def on_db_def
          split: if_splits option.splits prod.splits sum.splits)
      show ?thesis unfolding s'(1) by (rule move) (simp_all add: s')
    qed
  next
    case (Some kj)
    then obtain key j where kj: "job_of p = Some (key, j)" by (cases kj) auto
    then have k: "key_of (program_at s t) = Some key" using p by (simp add: job_key)
    show ?thesis
    proof (cases p)
      case (RunInsert action lib trigger key ctx)
      with run have s': "s' = on_db (insert_running action lib trigger) (\<lambda>r. goto t (case r of Inl _ \<Rightarrow> RunUnlock key ctx
          | Inr row \<Rightarrow> RunBind action lib trigger key ctx (rn_id row))) s"
        by (simp add: step_defs step_run_insert_def sum.case_distrib [of "goto t"])
      show ?thesis unfolding s' by (rule db) (simp add: at RunInsert split: sum.splits)
    next
      case (RunBind action lib trigger key' ctx i)
      with run have s': "s' = goto t (RunSpawn action lib trigger key' ctx i) (bind_run_id key' i s)"
        by (simp add: step_defs split: if_splits)
      let ?j = "\<lparr>job_run = [], job_ctx = ctx\<rparr>"
      have eq: "?j\<lparr>job_run := i\<rparr> = \<lparr>job_run = i, job_ctx = ctx\<rparr>" by (rule running_job.equality) simp_all
      have "job_of (program_at s t) = Some (key', ?j)" by (simp add: at RunBind)
      moreover have "job_of (RunSpawn action lib trigger key' ctx i) = Some (key', ?j\<lparr>job_run := i\<rparr>)"
        unfolding eq by (simp add: job_of_def)
      ultimately show ?thesis unfolding s' by (rule jobs_bind [OF ok t])
    next
      case (RunSpawn action lib trigger key' ctx i)
      with run have s': "s' = goto t (Done None) (spawn None (JobRun action lib key' ctx i) s)" by (simp add: step_defs)
      have "jobs_ok (spawn None (JobRun action lib key' ctx i) s)"
        by (rule jobs_spawn [OF ok(2)]) (use jobs_okD [OF ok(2), of t] in \<open>auto simp: at RunSpawn\<close>)
      then show ?thesis unfolding s' by (rule jobs_move) (use t in simp_all)
    next
      case (JobRun action lib key ctx i)
      with run show ?thesis
        by (auto simp: step_defs step_job_run_def at intro!: move)
    next
      case (JobEnd key ctx i res)
      with run show ?thesis
        by (auto simp: step_defs step_job_end_def at intro!: move split: prod.splits)
    next
      case (JobFinish key ctx i status body)
      with run have s': "s' = on_db (finish_run i status body) (\<lambda>_. goto t (JobUnlock key ctx i)) s" by (simp add: step_defs)
      show ?thesis unfolding s' by (rule db) (simp add: at JobFinish)
    next
      case (RunUnlock key' ctx)
      with run kj have "s' = goto t (Done (Some MDb)) (unlock key s)" by (auto simp: step_defs job_of_def split: if_splits)
      then show ?thesis using jobs_unlock [OF ok t k] by simp
    next
      case (JobUnlock key' ctx i)
      with run kj have "s' = goto t (Done None) (unlock key s)" by (auto simp: step_defs job_of_def split: if_splits)
      then show ?thesis using jobs_unlock [OF ok t k] by simp
    qed (use kj in \<open>simp_all add: job_of_def\<close>)
  qed
qed

lemma run_now_job [simp]: "job_of (run_now action lib trigger) = None"
  by (auto simp: run_now_def job_of_def split: sum.splits)

lemma cancel_run_job [simp]: "job_of (cancel_run i) = None"
  by (auto simp: cancel_run_def job_of_def Let_def)

lemma exec_jobs:
  assumes ok: "runner_ok s" "jobs_ok s" and run: "exec d e s = Some s'"
  shows "jobs_ok s'"
proof (cases "\<exists>t. e = Step t")
  case False
  then obtain en p s0 where s': "s' = spawn en p s0" "threads s0 = threads s" "locks s0 = locks s"
    "fresh s0 = fresh s" "job_of p = None"
    using run by (cases e) (auto simp: on_db_def fire_scheduled_def job_of_def [of ReloadList] job_of_def [of ShutdownLock]
        job_of_def [of StartMark] split: if_splits option.splits prod.splits sum.splits)
  show ?thesis unfolding s'(1) by (rule jobs_spawn [OF ok(2) s'(2-4)]) (simp add: s')
next
  case True
  then obtain t where t: "t < length (threads s)" and step: "thread_step d t (program_at s t) s = Some s'"
    using run by (auto simp: program_at_th not_le split: if_splits)
  show ?thesis by (rule thread_step_jobs [OF ok t refl step])
qed

lemma reachable_jobs: "reachable w s \<Longrightarrow> jobs_ok s"
proof (induction rule: reachable.induct)
  case start
  show ?case by (simp add: jobs_ok_def program_at_def new_runner_def)
next
  case (move s d e s')
  show ?case by (rule exec_jobs [OF reachable_ok [OF move.hyps(1)] move.IH move.hyps(2)])
qed

end
