(* ===== verification/MaintenanceSafety.thy ===== *)
theory MaintenanceSafety
  imports MaintenanceLocks
begin

text \<open>
  What the maintenance runner guarantees: one run per task and library at a time, progress as long as no
  reload waits with the mutex, a cancel that reaches the run it names. And what it does not: executions with a
  deadlock, with lost cancels and with half-stored schedules.
\<close>

section \<open>Mutual exclusion\<close>


section \<open>Callbacks of the cron engine\<close>

definition in_run :: "program \<Rightarrow> bool" where
  "in_run p \<longleftrightarrow> (case p of RunTryLock _ _ _ _ \<Rightarrow> True | RunInsert _ _ _ _ _ \<Rightarrow> True | RunUnlock _ _ \<Rightarrow> True
     | RunBind _ _ _ _ _ _ \<Rightarrow> True | RunSpawn _ _ _ _ _ _ \<Rightarrow> True | Done _ \<Rightarrow> True | _ \<Rightarrow> False)"

definition engine_at :: "runner \<Rightarrow> nat \<Rightarrow> nat option" where
  "engine_at s t = (if t < length (threads s) then th_engine (threads s ! t) else None)"

text \<open>Callbacks run \<open>RunNow\<close> and nothing else.\<close>

definition callbacks_ok :: "runner \<Rightarrow> bool" where
  "callbacks_ok s \<longleftrightarrow> (\<forall>t. engine_at s t \<noteq> None \<longrightarrow> in_run (program_at s t))"

lemma engine_at_goto [simp]: "engine_at (goto t p s) = engine_at s"
proof (rule ext)
  show "engine_at (goto t p s) x = engine_at s x" for x
    by (cases "x = t") (auto simp: engine_at_def goto_def)
qed

lemma engine_at_spawn: "engine_at (spawn e p s) = (engine_at s)(length (threads s) := e)"
  by (rule ext) (auto simp: engine_at_def spawn_def nth_append)

lemma thread_step_shape:
  assumes "thread_step d t p s = Some s'"
  obtains p' s0 where "s' = goto t p' s0" and "threads s0 = threads s" and "in_run p \<Longrightarrow> in_run p'"
  | p1 where "s' = goto t (Done None) (spawn None p1 s)"
  using assms
  by (cases p) (auto simp: step_defs step_run_try_def step_run_insert_def try_lock_def step_job_run_def
      step_job_end_def step_cancel_get_def step_cancel_lookup_def step_cancel_force_def step_reload_lock_def
      step_shutdown_lock_def install_engine_def in_run_def on_db_def Let_def
      split: if_splits option.splits prod.splits sum.splits)

lemma engine_at_cong: "threads s0 = threads s \<Longrightarrow> engine_at s0 = engine_at s"
  by (rule ext) (simp only: engine_at_def)

lemma callbacks_goto:
  assumes "callbacks_ok s" and "t < length (threads s)" and "threads s0 = threads s"
    and "in_run (program_at s t) \<Longrightarrow> in_run p"
  shows "callbacks_ok (goto t p s0)"
proof -
  have "t < length (threads s0)" using assms by simp
  moreover have "engine_at s0 = engine_at s" by (rule engine_at_cong [OF assms(3)])
  ultimately show ?thesis
    using assms program_at_threads [OF assms(3)] by (simp add: callbacks_ok_def program_at_goto)
qed

lemma callbacks_spawn: "callbacks_ok s \<Longrightarrow> e = None \<or> in_run p \<Longrightarrow> callbacks_ok (spawn e p s)"
  by (auto simp: callbacks_ok_def engine_at_spawn program_at_spawn)

lemma callbacks_cong: "threads s0 = threads s \<Longrightarrow> callbacks_ok s \<Longrightarrow> callbacks_ok s0"
  by (simp only: callbacks_ok_def engine_at_cong [of s0 s] program_at_threads [of s0 s])

lemma in_run_now: "in_run (run_now action lib trigger)"
  by (auto simp: run_now_def in_run_def split: sum.splits)

lemma exec_callbacks:
  assumes ok: "callbacks_ok s" and run: "exec d e s = Some s'"
  shows "callbacks_ok s'"
proof (cases "\<exists>t. e = Step t")
  case False
  then obtain en p s0 where "s' = spawn en p s0" "threads s0 = threads s" "en = None \<or> in_run p"
    using run by (cases e) (auto simp: on_db_def fire_scheduled_def in_run_now split: if_splits option.splits prod.splits)
  with callbacks_cong ok callbacks_spawn show ?thesis by blast
next
  case True
  then obtain t where t: "t < length (threads s)" and step: "thread_step d t (program_at s t) s = Some s'"
    using run by (auto simp: program_at_th not_le split: if_splits)
  from step show ?thesis
  proof (cases rule: thread_step_shape)
    case (1 p' s0)
    with callbacks_goto [OF ok t 1(2) 1(3)] show ?thesis by simp
  next
    case (2 p1)
    have "callbacks_ok (spawn None p1 s)" using ok by (rule callbacks_spawn) simp
    then show ?thesis unfolding 2 by (rule callbacks_goto) (use t in \<open>simp_all add: in_run_def\<close>)
  qed
qed

lemma reachable_callbacks: "reachable w s \<Longrightarrow> callbacks_ok s"
proof (induction rule: reachable.induct)
  case start
  show ?case by (simp add: callbacks_ok_def engine_at_def new_runner_def)
next
  case (move s d e s')
  show ?case by (rule exec_callbacks [OF move.IH move.hyps(2)])
qed

section \<open>Progress\<close>

lemma run_steps:
  "mutex s = None \<Longrightarrow> in_run p \<Longrightarrow> (\<forall>r. p \<noteq> Done r) \<Longrightarrow> \<exists>s'. thread_step d t p s = Some s'"
  by (cases p) (auto simp: in_run_def step_defs step_run_try_def step_run_insert_def Let_def split: prod.splits bool.splits)

lemma other_steps:
  assumes "mutex s = None" and "\<not> in_reload p" and "\<forall>r. p \<noteq> Done r" and "\<forall>e. p \<noteq> ShutdownWait e"
  shows "\<exists>s'. thread_step d t p s = Some s'"
proof (cases "in_run p")
  case True
  with assms show ?thesis by (intro run_steps) auto
next
  case False
  with assms show ?thesis
    by (cases p) (auto simp: in_run_def in_reload_def step_defs step_job_run_def step_job_end_def step_cancel_get_def
      step_cancel_lookup_def step_cancel_force_def step_reload_lock_def step_shutdown_lock_def split: prod.splits option.splits)
qed


section \<open>The deadlock of a reload\<close>

text \<open>A goroutine reloads the schedules, holds the mutex and waits for a callback; the callback waits for the mutex.\<close>

definition deadlocked :: "nat \<Rightarrow> schedule list \<Rightarrow> nat \<Rightarrow> nat \<Rightarrow> program \<Rightarrow> runner \<Rightarrow> bool" where
  "deadlocked r ss e c p s \<longleftrightarrow> mutex s = Some r \<and> program_at s r = ReloadWait ss e \<and>
     engine_at s c = Some e \<and> program_at s c = p \<and>
     (case p of RunTryLock _ _ _ _ \<Rightarrow> True | _ \<Rightarrow> False)"

lemma step_keeps_mutex:
  assumes "mutex s = Some r" and "thread_step d t p s = Some s'" and "\<not> in_reload p"
  shows "mutex s' = Some r"
  using assms
  by (cases p) (auto simp: step_defs step_run_try_def step_run_insert_def step_job_run_def
      step_job_end_def step_cancel_get_def step_cancel_lookup_def step_cancel_force_def step_reload_lock_def
      step_shutdown_lock_def in_reload_def on_db_def
      split: if_splits option.splits prod.splits sum.splits)

lemma deadlock_stays:
  assumes dead: "deadlocked r ss e c p s" and ok: "runner_ok s" and run: "exec d ev s = Some s'"
  shows "deadlocked r ss e c p s'"
proof -
  from dead obtain action lib trigger key where r: "mutex s = Some r" "program_at s r = ReloadWait ss e"
    and c: "engine_at s c = Some e" "program_at s c = RunTryLock action lib trigger key"
    by (cases p) (auto simp: deadlocked_def)
  then have lens: "r < length (threads s)" "c < length (threads s)"
    by (auto simp: program_at_def split: if_splits)
  have keep: "deadlocked r ss e c p s'" if "mutex s' = Some r" "program_at s' r = program_at s r"
    "program_at s' c = program_at s c" "engine_at s' c = engine_at s c"
    using that dead by (simp add: deadlocked_def)
  show ?thesis
  proof (cases "\<exists>t. ev = Step t")
    case False
    then obtain en p s0 where s': "s' = spawn en p s0" "threads s0 = threads s" "mutex s0 = mutex s"
      using run by (cases ev) (auto simp: on_db_def split: if_splits option.splits prod.splits)
    note same = program_at_threads [OF s'(2)] engine_at_cong [OF s'(2)]
    show ?thesis unfolding s'(1)
      by (rule keep [unfolded s'(1)]) (use s' lens r in \<open>simp_all add: program_at_spawn engine_at_spawn same\<close>)
  next
    case True
    then obtain t where t: "t < length (threads s)" and step: "thread_step d t (program_at s t) s = Some s'"
      using run by (auto simp: program_at_th not_le split: if_splits)
    have "threads s ! c \<in> set (threads s)" "th_engine (threads s ! c) = Some e" "\<not> finished (threads s ! c)"
      using c lens(2) by (simp_all add: engine_at_def program_at_th finished_def)
    then have "\<not> callbacks_done e s" unfolding callbacks_done_def by blast
    then have "t \<noteq> r" using step r(2) by (auto simp: step_defs)
    have "t \<noteq> c" using step r(1) c(2) by (auto simp: step_defs step_run_try_def)
    from ok have "mutex s = Some t \<longleftrightarrow> in_reload (program_at s t)" unfolding runner_ok_def mutex_ok_def by blast
    then have "\<not> in_reload (program_at s t)" using r(1) \<open>t \<noteq> r\<close> by simp
    then have "mutex s' = Some r" by (rule step_keeps_mutex [OF r(1) step])
    moreover from step have "program_at s' r = program_at s r \<and> program_at s' c = program_at s c \<and> engine_at s' c = engine_at s c"
    proof (cases rule: thread_step_shape)
      case (1 p' s0)
      have t0: "t < length (threads s0)" using t 1 by simp
      show ?thesis unfolding 1(1) program_at_goto [OF t0] engine_at_goto
          program_at_threads [OF 1(2)] engine_at_cong [OF 1(2)] using \<open>t \<noteq> r\<close> \<open>t \<noteq> c\<close> by simp
    next
      case (2 p1)
      have t0: "t < length (threads (spawn None p1 s))" using t by simp
      show ?thesis unfolding 2 program_at_goto [OF t0] engine_at_goto
        using \<open>t \<noteq> r\<close> \<open>t \<noteq> c\<close> lens by (simp add: program_at_spawn engine_at_spawn)
    qed
    ultimately show ?thesis using keep by blast
  qed
qed

lemma reachable_exec_all:
  assumes "reachable w s" and "exec_all d es s = Some s'"
  shows "reachable w s'"
  using assms
proof (induction es arbitrary: s)
  case Nil
  then show ?case by simp
next
  case (Cons e es)
  from Cons.prems(2) obtain s1 where "exec d e s = Some s1" "exec_all d es s1 = Some s'" by (auto split: option.splits)
  with Cons.IH reachable.move [OF Cons.prems(1)] show ?case by blast
qed

lemma exec_all_keeps:
  assumes "\<And>s e s'. I s \<Longrightarrow> exec d e s = Some s' \<Longrightarrow> I s'" and "exec_all d es s = Some s'" and "I s"
  shows "I s'"
  using assms(2,3)
proof (induction es arbitrary: s)
  case Nil
  then show ?case by simp
next
  case (Cons e es)
  from Cons.prems obtain s1 where "exec d e s = Some s1" "exec_all d es s1 = Some s'"
    by (auto split: option.splits)
  with Cons assms(1) show ?case by blast
qed

definition maint_deps0 :: maint_deps where
  "maint_deps0 = \<lparr>dp_cron_ok = \<lambda>c. c \<noteq> ''bad'',
     dp_sync = Some (Inr \<lparr>sync_libraries = [], sync_added = 0, sync_removed = 0, sync_kept = 0\<rparr>),
     dp_library = None, dp_media = False, dp_index = None, dp_warm = None, dp_purge = None, dp_providers = None,
     dp_skip = None\<rparr>"

definition nightly :: schedule where
  "nightly = \<lparr>sc_id = ''s1'', sc_action = ''libraries.scan'', sc_library = None, sc_cron = ''0 4 * * *'',
     sc_enabled = True, sc_config = [], sc_updated_at = 0\<rparr>"

definition maint_world0 :: maint_world where
  "maint_world0 = \<lparr>w_faults = [], w_rand = [''r1'', ''r2''], w_now = 100, schedules = [nightly], runs = []\<rparr>"

text \<open>The server starts with a nightly scan; while an administrator saves the schedules, the scan fires.\<close>

definition save_while_firing :: "event list" where
  "save_while_firing = [Boot, Step 0, Step 0, Step 0, Step 0, ReqPatchGlobal [], Tick 0, Step 1, Step 1]"

definition blocked_runner :: runner where
  "blocked_runner = the (exec_all maint_deps0 save_while_firing (new_runner maint_world0))"

lemma blocked_runner_run: "exec_all maint_deps0 save_while_firing (new_runner maint_world0) = Some blocked_runner"
proof -
  have "\<not> Option.is_none (exec_all maint_deps0 save_while_firing (new_runner maint_world0))" by code_simp
  then show ?thesis by (simp add: blocked_runner_def is_none_code(1) Option.is_none_def)
qed

definition waiting_callback :: program where
  "waiting_callback = RunTryLock ''libraries.scan'' [] ''schedule'' ''libraries.scan|''"

lemma blocked_runner_dead: "deadlocked 1 [nightly] 0 2 waiting_callback blocked_runner"
proof -
  have "mutex blocked_runner = Some 1" "engine_at blocked_runner 2 = Some 0"
    "program_at blocked_runner 1 = ReloadWait [nightly] 0" "program_at blocked_runner 2 = waiting_callback"
    by code_simp+
  then show ?thesis by (simp add: deadlocked_def waiting_callback_def)
qed

lemma blocked_runner_ok: "runner_ok blocked_runner"
  by (rule reachable_ok [OF reachable_exec_all [OF reachable.start blocked_runner_run]])



section \<open>One run at a concrete state\<close>

definition one_run_events :: "event list" where
  "one_run_events = [ReqRun ''libraries.scan'' [] [], Step 0, ReqRun ''libraries.scan'' [] [], Step 0]"



section \<open>Canceling\<close>

definition status_of :: "string \<Rightarrow> runner \<Rightarrow> string option" where
  "status_of i s = map_option rn_status (find (\<lambda>r. rn_id r = i) (runs (world s)))"

text \<open>A cancel request between the insert of the run and \<open>bindRunID\<close>, and one that has read the run as running when
  the run finishes.\<close>

definition cancel_before_bind :: "event list" where
  "cancel_before_bind = [ReqRun ''libraries.scan'' [] [], Step 0, Step 0, ReqCancel ''r1'', Step 1, Step 1, Step 1, Step 0, Step 0]"

definition cancel_after_finish :: "event list" where
  "cancel_after_finish = [ReqRun ''libraries.scan'' [] [], Step 0, Step 0, Step 0, Step 0, ReqCancel ''r1'', Step 2,
     Step 1, Step 1, Step 1, Step 1, Step 2, Step 2]"

lemma cancel_func_lock:
  assumes "jobs_ok s" and "cancel_func_for_run i s = Some ctx"
  obtains k where "lock_of k s = Some \<lparr>job_run = i, job_ctx = ctx\<rparr>"
proof -
  from assms(2) obtain k j where "find (\<lambda>(_, j). job_run j = i) (locks s) = Some (k, j)" "job_ctx j = ctx"
    by (auto simp: cancel_func_for_run_def)
  then have "(k, j) \<in> set (locks s)" "j = \<lparr>job_run = i, job_ctx = ctx\<rparr>" by (auto dest: find_SomeD)
  with assms(1) that show thesis by (simp add: jobs_ok_def lock_of_def)
qed

lemma same_ctx_same_key:
  assumes "jobs_ok s" and "lock_of k s = Some j" and "lock_of k' s = Some j'" and "job_ctx j = job_ctx j'"
  shows "k = k'"
proof -
  from assms have "(k, j) \<in> set (locks s)" "(k', j') \<in> set (locks s)" "inj_on (job_ctx \<circ> snd) (set (locks s))"
    by (auto simp: lock_of_def jobs_ok_def distinct_map dest: map_of_SomeD)
  then have "(k, j) = (k', j')" using assms(4) by (intro inj_onD [of "job_ctx \<circ> snd"]) simp_all
  then show ?thesis by simp
qed

text \<open>C16. The cancel function that \<open>Cancel\<close> finds for a run is that of the goroutine executing this run: there is
  exactly one goroutine with this context, and it holds the lock of the run; so a cancel never stops another run.\<close>

theorem cancel_reaches_its_run:
  assumes reach: "reachable w s" and found: "cancel_func_for_run i s = Some ctx"
  shows "\<exists>t key. t < length (threads s) \<and>
    job_of (th_at (threads s ! t)) = Some (key, \<lparr>job_run = i, job_ctx = ctx\<rparr>) \<and>
    (\<forall>t' key' j. t' < length (threads s) \<longrightarrow> job_of (th_at (threads s ! t')) = Some (key', j) \<longrightarrow>
      job_ctx j = ctx \<longrightarrow> t' = t)"
proof -
  note ok = reachable_ok [OF reach] and jobs = reachable_jobs [OF reach]
  obtain k where k: "lock_of k s = Some \<lparr>job_run = i, job_ctx = ctx\<rparr>"
    using jobs found by (rule cancel_func_lock)
  then have "locked s k" by (simp add: locked_def)
  with ok obtain t where t: "key_of (program_at s t) = Some k"
    unfolding runner_ok_def keys_ok_def held_def keys_at_def by blast
  then have len: "t < length (threads s)" by (auto simp: program_at_def split: if_splits)
  from t obtain j where j: "job_of (program_at s t) = Some (k, j)" by (auto simp: key_of_def)
  with jobs k have "j = \<lparr>job_run = i, job_ctx = ctx\<rparr>" by (auto dest: jobs_okD)
  moreover have "t' = t" if "t' < length (threads s)" "job_of (th_at (threads s ! t')) = Some (key', j')" "job_ctx j' = ctx"
    for t' key' j'
  proof -
    have job': "job_of (program_at s t') = Some (key', j')" using that by (simp add: program_at_th)
    with jobs have "lock_of key' s = Some j'" by (rule jobs_okD)
    with same_ctx_same_key [OF jobs this k] that have "key' = k" by simp
    with other_key [OF ok t] job_key [OF job'] show ?thesis by simp
  qed
  ultimately show ?thesis using len j by (auto simp: program_at_th)
qed

lemma cancel_reaches_its_run_witness:
  "(let s = the (exec_all maint_deps0 (take 5 cancel_after_finish) (new_runner maint_world0))
    in cancel_func_for_run ''r1'' s = Some 0 \<and>
       (\<exists>t key. t < length (threads s) \<and> job_of (th_at (threads s ! t)) = Some (key, \<lparr>job_run = ''r1'', job_ctx = 0\<rparr>)))"
proof -
  let ?x = "exec_all maint_deps0 (take 5 cancel_after_finish) (new_runner maint_world0)"
  have "\<not> Option.is_none ?x" by code_simp
  then have run: "?x = Some (the ?x)" by (simp add: Option.is_none_def)
  have "reachable maint_world0 (the ?x)" by (rule reachable_exec_all [OF reachable.start run])
  moreover have "cancel_func_for_run ''r1'' (the ?x) = Some 0" by code_simp
  ultimately show ?thesis using cancel_reaches_its_run [of maint_world0 "the ?x" "''r1''" 0] unfolding Let_def by blast
qed


text \<open>Saving several schedules is not atomic: with an invalid cron expression in the second entry the request is
  refused, the first entry is stored, and no reload follows, so the stored schedule and the running cron entries
  differ from then on.\<close>

lemma refused_patch_keeps_first_entry:
  "(let s = the (exec_all maint_deps0 [Boot, Step 0, Step 0, Step 0, Step 0,
        ReqPatchGlobal [\<lparr>si_action = ''libraries.scan'', si_cron = ''0 5 * * *'', si_enabled = True, si_config = []\<rparr>,
          \<lparr>si_action = ''playback.cache.purge'', si_cron = ''bad'', si_enabled = True, si_config = []\<rparr>]]
        (new_runner maint_world0))
    in program_at s 1 = Done (Some MInvalidCron) \<and> map sc_cron (schedules (world s)) = [''0 5 * * *''] \<and>
       map_option (\<lambda>e. map sc_cron (ce_entries e)) (engine s) = Some [''0 4 * * *''] \<and> length (threads s) = 2)"
  by code_simp


end
