(* ===== verification/GoNumbers.thy ===== *)
theory GoNumbers
  imports GoStrings Complex_Main
begin

text \<open>
  What the program uses of Go's \<open>strconv\<close> and \<open>fmt\<close> for numbers: decimal integers (\<open>strconv.Itoa\<close>,
  \<open>strconv.Atoi\<close>, \<open>%d\<close>, \<open>%0*d\<close>) and fixed decimals (\<open>%.6f\<close>, \<open>strconv.FormatFloat(x, 'f', n, 64)\<close>).
  An \<open>int\<close> of Go has 64 bits: \<open>Atoi\<close> refuses what does not fit. Seconds are rationals, so a \<open>float64\<close>
  is printed from its exact value, as Go prints it.
\<close>

section \<open>Decimal digits\<close>

definition digit_char :: "nat \<Rightarrow> char" where
  "digit_char d = char_of (48 + d)"

definition digit_val :: "char \<Rightarrow> nat option" where
  "digit_val c = (let n = (of_char c :: nat) in if 48 \<le> n \<and> n \<le> 57 then Some (n - 48) else None)"

lemma digit_val_char [simp]: "d < 10 \<Longrightarrow> digit_val (digit_char d) = Some d"
  by (simp add: digit_val_def digit_char_def Let_def)

lemma digit_val_less: "digit_val c = Some d \<Longrightarrow> d < 10"
  by (auto simp: digit_val_def Let_def split: if_splits)

lemma digit_char_val: "digit_val c = Some d \<Longrightarrow> digit_char d = c"
  by (auto simp: digit_val_def digit_char_def Let_def split: if_splits)

fun show_nat :: "nat \<Rightarrow> string" where
  "show_nat n = (if n < 10 then [digit_char n] else show_nat (n div 10) @ [digit_char (n mod 10)])"

declare show_nat.simps [simp del]

definition read_digit :: "nat option \<Rightarrow> char \<Rightarrow> nat option" where
  "read_digit acc c = (case (acc, digit_val c) of (Some n, Some d) \<Rightarrow> Some (10 * n + d) | _ \<Rightarrow> None)"

text \<open>The value of a text of digits, and nothing else.\<close>

definition read_nat :: "string \<Rightarrow> nat option" where
  "read_nat s = (if s = [] then None else foldl read_digit (Some 0) s)"

lemma foldl_read_digit_None [simp]: "foldl read_digit None s = None"
  by (induction s) (simp_all add: read_digit_def)

lemma show_nat_not_Nil [simp]: "show_nat n \<noteq> []"
  by (subst show_nat.simps) simp

lemma foldl_show_nat: "foldl read_digit (Some 0) (show_nat n) = Some n"
proof (induction n rule: show_nat.induct)
  case (1 n)
  show ?case
  proof (cases "n < 10")
    case True
    then show ?thesis by (subst show_nat.simps) (simp add: read_digit_def)
  next
    case False
    with 1 have "foldl read_digit (Some 0) (show_nat (n div 10)) = Some (n div 10)" by simp
    with False show ?thesis by (subst show_nat.simps) (simp add: read_digit_def)
  qed
qed

lemma read_show_nat [simp]: "read_nat (show_nat n) = Some n"
  by (simp add: read_nat_def foldl_show_nat)

lemma foldl_read_zeros: "foldl read_digit (Some 0) (replicate k CHR ''0'') = Some 0"
  by (induction k) (simp_all add: read_digit_def digit_val_def)

lemma show_nat_digits: "c \<in> set (show_nat n) \<Longrightarrow> digit_val c \<noteq> None"
proof (induction n rule: show_nat.induct)
  case (1 n)
  then show ?case
    by (cases "n < 10") (auto simp: show_nat.simps [of n])
qed

lemma not_digit [simp]: "digit_val CHR ''-'' = None" "digit_val CHR ''+'' = None" "digit_val CHR ''.'' = None"
    "digit_val CHR '','' = None" "digit_val CHR ''/'' = None" "digit_val CHR ''_'' = None"
  by (simp_all add: digit_val_def)

lemma length_show_nat: "n < 10 ^ k \<Longrightarrow> 0 < k \<Longrightarrow> length (show_nat n) \<le> k"
proof (induction n arbitrary: k rule: show_nat.induct)
  case (1 n)
  show ?case
  proof (cases "n < 10")
    case True
    with 1 show ?thesis by (subst show_nat.simps) simp
  next
    case False
    obtain j where k: "k = Suc j" "0 < j" using False 1 by (cases k; cases "k - 1") auto
    then have "n div 10 < 10 ^ j" using 1 by (simp add: less_mult_imp_div_less mult.commute)
    with 1 False k have "length (show_nat (n div 10)) \<le> j" by blast
    with False k show ?thesis by (subst show_nat.simps) simp
  qed
qed

section \<open>Integers\<close>

text \<open>\<open>strconv.Itoa\<close> and \<open>%d\<close>.\<close>

definition itoa :: "int \<Rightarrow> string" where
  "itoa i = (if i < 0 then CHR ''-'' # show_nat (nat (- i)) else show_nat (nat i))"

text \<open>\<open>%0wd\<close>: zeros between the sign and the digits up to the width.\<close>

definition pad_zeros :: "nat \<Rightarrow> string \<Rightarrow> string" where
  "pad_zeros w s = replicate (w - length s) CHR ''0'' @ s"

definition itoa_padded :: "nat \<Rightarrow> int \<Rightarrow> string" where
  "itoa_padded w i = (if i < 0 then CHR ''-'' # pad_zeros (w - 1) (show_nat (nat (- i)))
     else pad_zeros w (show_nat (nat i)))"

definition max_int64 :: int where
  "max_int64 = 9223372036854775807"

text \<open>\<open>strconv.Atoi\<close>: an optional sign, digits, and a value of 64 bits.\<close>

definition atoi :: "string \<Rightarrow> int option" where
  "atoi s = (case s of [] \<Rightarrow> None
     | c # ds \<Rightarrow>
         (let (neg, body) = (if c = CHR ''-'' then (True, ds) else if c = CHR ''+'' then (False, ds) else (False, s)) in
          (case read_nat body of None \<Rightarrow> None
           | Some n \<Rightarrow> (let i = (if neg then - int n else int n) in
               if - max_int64 - 1 \<le> i \<and> i \<le> max_int64 then Some i else None))))"

lemma atoi_digits:
  assumes "read_nat s = Some n" and "int n \<le> max_int64"
  shows "atoi s = Some (int n)"
proof -
  from assms(1) obtain c ds where s: "s = c # ds" by (cases s) (auto simp: read_nat_def)
  with assms(1) have "digit_val c \<noteq> None"
    by (cases "digit_val c") (auto simp: read_nat_def read_digit_def split: if_splits)
  then have "c \<noteq> CHR ''-''" "c \<noteq> CHR ''+''" by auto
  with s assms show ?thesis by (simp add: atoi_def max_int64_def)
qed

lemma itoa_nat: "0 \<le> i \<Longrightarrow> itoa i = show_nat (nat i)"
  by (simp add: itoa_def)

lemma atoi_itoa:
  assumes "- max_int64 - 1 \<le> i" and "i \<le> max_int64"
  shows "atoi (itoa i) = Some i"
proof (cases "i < 0")
  case True
  with assms show ?thesis by (simp add: itoa_def atoi_def)
next
  case False
  with assms show ?thesis by (simp add: itoa_def atoi_digits [where n = "nat i"])
qed

lemma atoi_range: "atoi s = Some i \<Longrightarrow> i \<le> max_int64"
  by (auto simp: atoi_def Let_def split: list.splits if_splits option.splits)

lemma read_pad_zeros: "read_nat (pad_zeros w (show_nat n)) = Some n"
  by (simp add: read_nat_def pad_zeros_def foldl_read_zeros foldl_show_nat)

lemma atoi_padded: "0 \<le> i \<Longrightarrow> i \<le> max_int64 \<Longrightarrow> atoi (itoa_padded w i) = Some i"
  by (simp add: itoa_padded_def atoi_digits [OF read_pad_zeros])

lemma itoa_inj_on_nat: "0 \<le> i \<Longrightarrow> 0 \<le> j \<Longrightarrow> itoa i = itoa j \<Longrightarrow> i = j"
  by (metis itoa_nat read_show_nat nat_eq_iff2 option.inject)

lemma itoa_digits: "0 \<le> i \<Longrightarrow> c \<in> set (itoa i) \<Longrightarrow> digit_val c \<noteq> None"
  by (auto simp: itoa_def dest: show_nat_digits)

section \<open>Fixed decimals\<close>

text \<open>The nearest integer, halves to the even one.\<close>

definition round_even :: "rat \<Rightarrow> int" where
  "round_even x = (let f = \<lfloor>x\<rfloor>; d = x - of_int f in
     if d < 1 / 2 then f else if 1 / 2 < d then f + 1 else if even f then f else f + 1)"

text \<open>\<open>%.nf\<close> of a number that is not negative; a minus sign before that of the absolute value else.\<close>

definition fixed_nat :: "nat \<Rightarrow> rat \<Rightarrow> string" where
  "fixed_nat n x = (let k = nat (round_even (x * 10 ^ n)) in
     show_nat (k div 10 ^ n) @ (if n = 0 then [] else CHR ''.'' # pad_zeros n (show_nat (k mod 10 ^ n))))"

definition fixed :: "nat \<Rightarrow> rat \<Rightarrow> string" where
  "fixed n x = (if x < 0 then CHR ''-'' # fixed_nat n (- x) else fixed_nat n x)"

lemma round_choice:
  fixes d h :: rat
  shows "(if d < h then f else if h < d then f + 1 else if even f then f else f + 1) = (f :: int) \<and> d \<le> h \<or>
    (if d < h then f else if h < d then f + 1 else if even f then f else f + 1) = f + 1 \<and> h \<le> d"
  by auto

lemma round_even_close: "\<bar>of_int (round_even x) - x\<bar> \<le> 1 / 2"
proof -
  have f: "of_int \<lfloor>x\<rfloor> \<le> x" "x < of_int \<lfloor>x\<rfloor> + 1" by linarith+
  consider "round_even x = \<lfloor>x\<rfloor>" "x - of_int \<lfloor>x\<rfloor> \<le> 1 / 2" | "round_even x = \<lfloor>x\<rfloor> + 1" "1 / 2 \<le> x - of_int \<lfloor>x\<rfloor>"
    using round_choice [of "x - of_int \<lfloor>x\<rfloor>" "1 / 2" "\<lfloor>x\<rfloor>"] unfolding round_even_def Let_def by blast
  then show ?thesis by cases (use f in \<open>simp only: abs_le_iff of_int_add of_int_1, linarith\<close>)+
qed

lemma round_even_nonneg: "0 \<le> x \<Longrightarrow> 0 \<le> round_even x"
  by (auto simp: round_even_def Let_def intro: add_nonneg_nonneg)

lemma round_even_of_int [simp]: "round_even (of_int i) = i"
  by (simp add: round_even_def)

text \<open>The number that a fixed decimal denotes.\<close>

definition read_fixed :: "string \<Rightarrow> rat option" where
  "read_fixed s = (case split_on CHR ''.'' s of
     [a] \<Rightarrow> map_option of_nat (read_nat a)
   | [a, b] \<Rightarrow> (case (read_nat a, read_nat b) of
       (Some m, Some k) \<Rightarrow> Some (of_nat m + of_nat k / 10 ^ length b) | _ \<Rightarrow> None)
   | _ \<Rightarrow> None)"

lemma length_pad_zeros: "k < 10 ^ n \<Longrightarrow> 0 < n \<Longrightarrow> length (pad_zeros n (show_nat k)) = n"
  using length_show_nat [of k n] by (simp add: pad_zeros_def)

lemma pad_zeros_digits: "c \<in> set (pad_zeros n (show_nat k)) \<Longrightarrow> digit_val c \<noteq> None"
  by (auto simp: pad_zeros_def digit_val_def dest: show_nat_digits)

lemma read_fixed_nat:
  assumes x: "0 \<le> x" and n: "0 < n"
  shows "read_fixed (fixed n x) = Some (of_int (round_even (x * 10 ^ n)) / 10 ^ n)"
proof -
  define k where "k = nat (round_even (x * 10 ^ n))"
  have k: "of_int (round_even (x * 10 ^ n)) = (of_nat k :: rat)"
    using x by (simp add: k_def round_even_nonneg)
  let ?a = "show_nat (k div 10 ^ n)" and ?b = "pad_zeros n (show_nat (k mod 10 ^ n))"
  have "fixed n x = ?a @ CHR ''.'' # ?b" using x n by (simp add: fixed_def fixed_nat_def k_def Let_def not_less)
  moreover have "CHR ''.'' \<notin> set ?a" "CHR ''.'' \<notin> set ?b"
    using show_nat_digits pad_zeros_digits not_digit(3) by blast+
  ultimately have "split_on CHR ''.'' (fixed n x) = [?a, ?b]" by (simp add: split_on_sep split_on_no_sep)
  moreover have "length ?b = n" by (rule length_pad_zeros) (use n in simp_all)
  ultimately have "read_fixed (fixed n x) = Some (of_nat (k div 10 ^ n) + of_nat (k mod 10 ^ n) / 10 ^ n)"
    by (simp add: read_fixed_def read_pad_zeros)
  also have "of_nat (k div 10 ^ n) + of_nat (k mod 10 ^ n) / 10 ^ n = (of_nat k / 10 ^ n :: rat)"
  proof -
    have "k = k div 10 ^ n * 10 ^ n + k mod 10 ^ n" by (simp only: div_mult_mod_eq)
    then have "(of_nat k :: rat) = of_nat (k div 10 ^ n) * 10 ^ n + of_nat (k mod 10 ^ n)"
      by (metis of_nat_add of_nat_mult of_nat_power of_nat_numeral)
    then show ?thesis by (simp add: add_divide_distrib)
  qed
  finally show ?thesis by (simp add: k)
qed

lemma fixed_close:
  assumes "0 \<le> x" and "0 < n"
  shows "\<exists>y. read_fixed (fixed n x) = Some y \<and> \<bar>y - x\<bar> \<le> 1 / (2 * 10 ^ n)"
proof -
  let ?r = "of_int (round_even (x * 10 ^ n)) :: rat"
  have "\<bar>?r / 10 ^ n - x\<bar> = \<bar>?r - x * 10 ^ n\<bar> / 10 ^ n"
    by (simp add: abs_if field_simps)
  also have "\<dots> \<le> (1 / 2) / 10 ^ n" by (rule divide_right_mono [OF round_even_close]) simp
  finally show ?thesis using read_fixed_nat [OF assms] by simp
qed

section \<open>Decimal numbers\<close>

text \<open>\<open>strconv.ParseFloat\<close> on decimal notation: an optional sign, digits with at most one point among them. The texts
  Go reads beyond that (exponents, hexadecimal, \<open>inf\<close>, \<open>nan\<close>) count as malformed; ffprobe does not print them.\<close>

definition parse_unsigned :: "string \<Rightarrow> rat option" where
  "parse_unsigned s = (case split_on CHR ''.'' s of
     [a] \<Rightarrow> map_option of_nat (read_nat a)
   | [a, b] \<Rightarrow> (if a = [] \<and> b = [] then None
       else (case (foldl read_digit (Some 0) a, foldl read_digit (Some 0) b) of
         (Some m, Some k) \<Rightarrow> Some (of_nat m + of_nat k / 10 ^ length b) | _ \<Rightarrow> None))
   | _ \<Rightarrow> None)"

definition parse_float :: "string \<Rightarrow> rat option" where
  "parse_float s = (case s of [] \<Rightarrow> None
     | c # ds \<Rightarrow> if c = CHR ''-'' then map_option uminus (parse_unsigned ds)
         else if c = CHR ''+'' then parse_unsigned ds else parse_unsigned s)"

lemma parse_unsigned_nonneg: "parse_unsigned s = Some x \<Longrightarrow> 0 \<le> x"
  by (auto simp: parse_unsigned_def split: list.splits if_splits option.splits)

end
