(* ===== verification/HlsTimeline.thy ===== *)
theory HlsTimeline
  imports GoNumbers
begin

text \<open>
  The shared HLS timeline, \<open>internal/transcode/playlist_vod.go\<close>: the table of segment lengths, segment names
  and the media playlist; and the cut points of an encoder run (\<open>ffargs.go\<close>). Seconds are rationals.
\<close>

section \<open>The segment table\<close>

definition segment_target :: rat where "segment_target = 6"

definition min_segment :: rat where "min_segment = 1 / 10"

text \<open>\<open>keyframeSegments\<close>: the lengths and the last prev.\<close>

fun keyframe_loop :: "rat \<Rightarrow> rat \<Rightarrow> rat \<Rightarrow> rat \<Rightarrow> rat list \<Rightarrow> rat list \<times> rat" where
  "keyframe_loop dur target prev desired [] = ([], prev)"
| "keyframe_loop dur target prev desired (k # ks) =
     (if k < desired \<or> dur \<le> k then keyframe_loop dur target prev desired ks
      else if k - prev < min_segment then keyframe_loop dur target prev desired ks
      else (case keyframe_loop dur target k (k + target) ks of (ss, l) \<Rightarrow> ((k - prev) # ss, l)))"

definition keyframe_segments :: "rat list \<Rightarrow> rat \<Rightarrow> rat \<Rightarrow> rat list" where
  "keyframe_segments kfs dur target = (case keyframe_loop dur target 0 target kfs of
     (ss, prev) \<Rightarrow> if min_segment \<le> dur - prev then ss @ [dur - prev] else ss)"

definition equal_length_segments :: "rat \<Rightarrow> rat \<Rightarrow> rat list" where
  "equal_length_segments dur target = (let count = \<lceil>dur / target\<rceil> in
     if count \<le> 0 then []
     else let full = replicate (nat (count - 1)) target; rest = dur - target * of_int (count - 1) in
       if rest < min_segment then full else full @ [rest])"

definition segment_table :: "rat list \<Rightarrow> rat \<Rightarrow> rat \<Rightarrow> rat list" where
  "segment_table kfs dur target =
     (if dur \<le> 0 \<or> target \<le> 0 then []
      else if kfs = [] then equal_length_segments dur target
      else let ss = keyframe_segments kfs dur target in
        if ss = [] then equal_length_segments dur target else ss)"

definition segment_start :: "rat list \<Rightarrow> int \<Rightarrow> rat" where
  "segment_start segs i = sum_list (take (nat i) segs)"

subsection \<open>Laws of the loop\<close>

lemma keyframe_loop_sum:
  "keyframe_loop dur target prev desired ks = (ss, l) \<Longrightarrow> prev + sum_list ss = l"
proof (induction dur target prev desired ks arbitrary: ss l rule: keyframe_loop.induct)
  case (2 dur target prev desired k ks)
  then show ?case by (auto split: if_splits prod.splits)
qed simp

lemma keyframe_loop_last:
  "keyframe_loop dur target prev desired ks = (ss, l) \<Longrightarrow> prev \<le> dur \<Longrightarrow> l \<le> dur"
proof (induction dur target prev desired ks arbitrary: ss l rule: keyframe_loop.induct)
  case (2 dur target prev desired k ks)
  then show ?case by (auto split: if_splits prod.splits)
qed simp

lemma keyframe_loop_length:
  "keyframe_loop dur target prev desired ks = (ss, l) \<Longrightarrow> desired = prev + target \<Longrightarrow>
    x \<in> set ss \<Longrightarrow> target \<le> x \<and> min_segment \<le> x"
proof (induction dur target prev desired ks arbitrary: ss l rule: keyframe_loop.induct)
  case (2 dur target prev desired k ks)
  then show ?case by (auto split: if_splits prod.splits)
qed simp

lemma keyframe_loop_cuts:
  "keyframe_loop dur target prev desired ks = (ss, l) \<Longrightarrow> 0 < i \<Longrightarrow> i \<le> length ss \<Longrightarrow>
    prev + sum_list (take i ss) \<in> set ks"
proof (induction dur target prev desired ks arbitrary: ss l i rule: keyframe_loop.induct)
  case (2 dur target prev desired k ks)
  show ?case
  proof (cases "k < desired \<or> dur \<le> k \<or> k - prev < min_segment")
    case True
    with 2 show ?thesis by (auto split: if_splits)
  next
    case False
    obtain ss' l' where rest: "keyframe_loop dur target k (k + target) ks = (ss', l')" by fastforce
    with False 2 have ss: "ss = (k - prev) # ss'" by simp
    show ?thesis
    proof (cases "i = 1")
      case True
      then show ?thesis by (simp add: ss)
    next
      case i: False
      with 2 have "k + sum_list (take (i - 1) ss') \<in> set ks"
        using False rest by (intro 2(3)) (auto simp: ss)
      moreover have "take i ss = (k - prev) # take (i - 1) ss'" using 2 by (simp add: ss take_Cons')
      ultimately show ?thesis by simp
    qed
  qed
qed simp

lemma equal_length_sum:
  assumes "0 < dur" and "0 < target"
  shows "\<exists>gap. sum_list (equal_length_segments dur target) = dur - gap \<and> 0 \<le> gap \<and> gap < min_segment"
proof -
  define c where "c = \<lceil>dur / target\<rceil>"
  have pos: "0 < c" unfolding c_def using assms by simp
  have c: "of_int c - 1 < dur / target" "dur / target \<le> of_int c" unfolding c_def by linarith+
  then have "target * (of_int c - 1) < dur" using assms by (simp add: field_simps)
  then have prev: "0 < dur - target * of_int (c - 1)" by simp
  have full: "sum_list (replicate (nat (c - 1)) target) = target * of_int (c - 1)"
    using pos by (simp add: sum_list_replicate)
  show ?thesis
  proof (cases "dur - target * of_int (c - 1) < min_segment")
    case True
    with pos full prev show ?thesis
      by (intro exI [of _ "dur - target * of_int (c - 1)"]) (simp add: equal_length_segments_def Let_def c_def)
  next
    case False
    with pos full prev show ?thesis
      by (intro exI [of _ 0]) (simp add: equal_length_segments_def Let_def c_def min_segment_def)
  qed
qed

lemma equal_length_min: "x \<in> set (equal_length_segments dur target) \<Longrightarrow> min_segment \<le> target \<Longrightarrow> min_segment \<le> x"
  by (auto simp: equal_length_segments_def Let_def split: if_splits)

lemma keyframe_segments_sum:
  assumes "0 < dur"
  shows "\<exists>gap. sum_list (keyframe_segments kfs dur target) = dur - gap \<and> 0 \<le> gap \<and> gap < min_segment"
proof -
  obtain ss l where run: "keyframe_loop dur target 0 target kfs = (ss, l)" by fastforce
  note sum = keyframe_loop_sum [OF run] and le = keyframe_loop_last [OF run]
  show ?thesis
  proof (cases "min_segment \<le> dur - l")
    case True
    with run sum show ?thesis by (intro exI [of _ 0]) (simp add: keyframe_segments_def min_segment_def)
  next
    case False
    with run sum le assms show ?thesis by (intro exI [of _ "dur - l"]) (simp add: keyframe_segments_def)
  qed
qed

lemma keyframe_segments_min:
  assumes "x \<in> set (keyframe_segments kfs dur target)"
  shows "min_segment \<le> x"
proof -
  obtain ss l where run: "keyframe_loop dur target 0 target kfs = (ss, l)" by fastforce
  with assms keyframe_loop_length [OF run] show ?thesis by (auto simp: keyframe_segments_def split: if_splits)
qed

lemma segment_table_min:
  assumes "min_segment \<le> target" and "x \<in> set (segment_table kfs dur target)"
  shows "min_segment \<le> x"
  using assms by (auto simp: segment_table_def Let_def split: if_splits
      intro: equal_length_min keyframe_segments_min)

lemma segment_table_sum:
  assumes "0 < dur" and "0 < target"
  shows "\<exists>gap. sum_list (segment_table kfs dur target) = dur - gap \<and> 0 \<le> gap \<and> gap < min_segment"
proof -
  consider "segment_table kfs dur target = equal_length_segments dur target"
    | "segment_table kfs dur target = keyframe_segments kfs dur target"
    using assms by (cases "kfs = []"; cases "keyframe_segments kfs dur target = []") (auto simp: segment_table_def Let_def)
  then show ?thesis
    using equal_length_sum [OF assms] keyframe_segments_sum [OF assms(1)] by cases simp_all
qed

section \<open>The table covers the timeline\<close>

text \<open>C24. The table of any source covers its timeline: no segment is shorter than a tenth of a second, the segments do not
  reach beyond the duration, and less than a tenth of a second at the end is left out. This holds for every list of
  keyframe times, sorted or not.\<close>

theorem segment_table_covers:
  assumes "0 < dur"
  shows "(\<forall>x \<in> set (segment_table kfs dur segment_target). min_segment \<le> x) \<and>
    sum_list (segment_table kfs dur segment_target) \<le> dur \<and>
    dur - sum_list (segment_table kfs dur segment_target) < min_segment"
proof -
  have "min_segment \<le> segment_target" "0 < segment_target" by (simp_all add: min_segment_def segment_target_def)
  with segment_table_sum [OF assms this(2), of kfs] segment_table_min show ?thesis by fastforce
qed

lemma segment_table_covers_witness:
  "(let t = segment_table [0, 2, 4, 7, 3, 13] 20 segment_target in
    t = [7, 6, 7] \<and> sum_list t \<le> 20 \<and> 20 - sum_list t < min_segment)"
  using segment_table_covers [of 20 "[0, 2, 4, 7, 3, 13]"]
  by (simp add: segment_table_def keyframe_segments_def segment_target_def min_segment_def Let_def)

text \<open>A table made from keyframes cuts at keyframes only: every segment but the first starts at one of them, as a
  copied video stream needs, and every segment but the last is at least the target long.\<close>

lemma keyframe_table_cuts:
  assumes "0 < i" and "i < length (keyframe_segments kfs dur target)"
  shows "segment_start (keyframe_segments kfs dur target) (int i) \<in> set kfs \<and>
    target \<le> keyframe_segments kfs dur target ! (i - 1)"
proof -
  obtain ss l where run: "keyframe_loop dur target 0 target kfs = (ss, l)" by fastforce
  let ?t = "keyframe_segments kfs dur target"
  have t: "?t = ss \<or> ?t = ss @ [dur - l]" using run by (auto simp: keyframe_segments_def)
  with assms have i: "i \<le> length ss" by auto
  with t have take: "take i ?t = take i ss" and nth: "?t ! (i - 1) = ss ! (i - 1)"
    using assms by (auto simp: nth_append)
  have "sum_list (take i ss) \<in> set kfs" using keyframe_loop_cuts [OF run assms(1) i] by simp
  moreover have "ss ! (i - 1) \<in> set ss" using i assms by simp
  ultimately show ?thesis
    using take nth keyframe_loop_length [OF run] by (simp add: segment_start_def)
qed

lemma keyframe_table_cuts_witness:
  "segment_start (keyframe_segments [0, 2, 4, 7, 9, 13] 20 6) 2 \<in> set [0, 2, 4, 7, 9, 13]"
  using keyframe_table_cuts [of 2 "[0, 2, 4, 7, 9, 13]" 20 6]
  by (simp add: keyframe_segments_def min_segment_def)

section \<open>The cut points of an encoder run\<close>

text \<open>\<open>segmentRun.cutTimes\<close>: the boundaries after the start of a run, relative to it.\<close>

fun cut_loop :: "rat \<Rightarrow> rat list \<Rightarrow> rat list" where
  "cut_loop elapsed [] = []"
| "cut_loop elapsed [x] = []"
| "cut_loop elapsed (x # y # xs) = (elapsed + x) # cut_loop (elapsed + x) (y # xs)"

definition cut_times :: "rat list \<Rightarrow> nat \<Rightarrow> rat list" where
  "cut_times segs start = cut_loop 0 (drop start segs)"

lemma length_cut_loop: "length (cut_loop e xs) = length xs - 1"
  by (induction e xs rule: cut_loop.induct) auto

lemma nth_cut_loop: "k < length xs - 1 \<Longrightarrow> cut_loop e xs ! k = e + sum_list (take (Suc k) xs)"
proof (induction e xs arbitrary: k rule: cut_loop.induct)
  case (3 e x y xs)
  then show ?case by (cases k) (auto simp: add.assoc)
qed simp_all

lemma sum_take_drop: "sum_list (take (i + n) xs) = sum_list (take i xs) + sum_list (take n (drop i xs))"
  for xs :: "rat list"
  by (simp add: take_add)


section \<open>Segment names\<close>

definition segment_prefix :: string where "segment_prefix = ''seg_''"

definition segment_ext :: string where "segment_ext = ''.ts''"

definition segment_name :: "int \<Rightarrow> string" where
  "segment_name i = segment_prefix @ itoa_padded 5 i @ segment_ext"

definition segment_index_from_name :: "string \<Rightarrow> int option" where
  "segment_index_from_name name =
     (if \<not> has_prefix name segment_prefix \<or> \<not> has_suffix name segment_ext then None
      else let rest = drop (length segment_prefix) name;
               digits = (if has_suffix rest segment_ext then take (length rest - length segment_ext) rest else rest) in
        (case atoi digits of None \<Rightarrow> None | Some i \<Rightarrow> if i < 0 then None else Some i))"

lemma index_of_name [simp]:
  assumes "0 \<le> i" and "i \<le> max_int64"
  shows "segment_index_from_name (segment_name i) = Some i"
proof -
  have "has_prefix (segment_name i) segment_prefix" "has_suffix (segment_name i) segment_ext"
    by (simp_all add: segment_name_def has_prefix_def has_suffix_def suffix_def)
  moreover have "drop (length segment_prefix) (segment_name i) = itoa_padded 5 i @ segment_ext"
    by (simp add: segment_name_def)
  moreover have "has_suffix (itoa_padded 5 i @ segment_ext) segment_ext" by (simp add: has_suffix_def suffix_def)
  ultimately show ?thesis using assms by (simp add: segment_index_from_name_def Let_def atoi_padded)
qed

text \<open>The name of a segment determines its index, and names are read back to the index they were made from.\<close>

lemma segment_name_roundtrip:
  assumes "0 \<le> i" and "i \<le> max_int64"
  shows "segment_index_from_name (segment_name i) = Some i \<and>
    (\<forall>j. 0 \<le> j \<and> j \<le> max_int64 \<and> segment_name j = segment_name i \<longrightarrow> j = i)"
  using assms index_of_name by (metis option.inject)

lemma segment_name_roundtrip_witness:
  "segment_name 42 = ''seg_00042.ts'' \<and> segment_index_from_name ''seg_00042.ts'' = Some 42"
proof -
  have "segment_name 42 = ''seg_00042.ts''" by code_simp
  with segment_name_roundtrip [of 42] show ?thesis by (simp add: max_int64_def)
qed

section \<open>The media playlist\<close>

definition hls_header :: string where "hls_header = ''#EXTM3U''"

definition hls_version :: string where "hls_version = ''#EXT-X-VERSION:6''"

definition newline :: char where "newline = CHR 0x0A"

definition target_duration :: "rat list \<Rightarrow> int" where
  "target_duration segs = foldl (\<lambda>t x. if t < \<lceil>x\<rceil> then \<lceil>x\<rceil> else t) 1 segs"

definition extinf_lines :: "nat \<times> rat \<Rightarrow> string list" where
  "extinf_lines = (\<lambda>(i, x). [''#EXTINF:'' @ fixed 6 x @ '','', segment_name (int i)])"

definition media_playlist_lines :: "rat list \<Rightarrow> string list" where
  "media_playlist_lines segs =
     [hls_header, hls_version, ''#EXT-X-TARGETDURATION:'' @ itoa (target_duration segs),
      ''#EXT-X-MEDIA-SEQUENCE:0'', ''#EXT-X-PLAYLIST-TYPE:VOD'', ''#EXT-X-INDEPENDENT-SEGMENTS'']
     @ concat (map extinf_lines (enumerate 0 segs)) @ [''#EXT-X-ENDLIST'', []]"

definition build_media_playlist :: "rat list \<Rightarrow> string" where
  "build_media_playlist segs = join_on newline (media_playlist_lines segs)"

lemma target_duration_foldl:
  "t \<le> foldl (\<lambda>t x. if t < \<lceil>x\<rceil> then \<lceil>x\<rceil> else t) t xs \<and>
   (\<forall>x \<in> set xs. \<lceil>x\<rceil> \<le> foldl (\<lambda>t x. if t < \<lceil>x\<rceil> then \<lceil>x\<rceil> else t) t xs) \<and>
   foldl (\<lambda>t x. if t < \<lceil>x\<rceil> then \<lceil>x\<rceil> else t) t xs \<in> insert t (ceiling ` set xs)"
  for xs :: "rat list"
proof (induction xs arbitrary: t)
  case Nil
  then show ?case by simp
next
  case (Cons a xs)
  show ?case using Cons [of "if t < \<lceil>a\<rceil> then \<lceil>a\<rceil> else t"] by (auto split: if_splits)
qed

text \<open>The target duration of the playlist is the smallest whole number of seconds, at least one, that no segment
  exceeds.\<close>

lemma target_duration_least:
  "target_duration segs = Max (insert 1 (ceiling ` set segs)) \<and>
   list_all (\<lambda>x. x \<le> of_int (target_duration segs)) segs"
proof -
  note t = target_duration_foldl [of 1 segs, folded target_duration_def]
  have "target_duration segs = Max (insert 1 (ceiling ` set segs))"
    by (rule Max_eqI [symmetric]) (use t in auto)
  moreover have "list_all (\<lambda>x. x \<le> of_int (target_duration segs)) segs"
    using t by (auto simp: list_all_iff intro: order.trans [OF le_of_int_ceiling])
  ultimately show ?thesis by simp
qed

section \<open>What a client reads\<close>

text \<open>The pairs of a duration and an URI that a player takes from the lines of a media playlist.\<close>

fun playlist_entries :: "string list \<Rightarrow> (rat \<times> string) list" where
  "playlist_entries (l # u # ls) =
     (if has_prefix l ''#EXTINF:''
      then (case read_fixed (takeWhile (\<lambda>c. c \<noteq> CHR '','') (drop 8 l)) of
          Some d \<Rightarrow> (d, u) # playlist_entries ls
        | None \<Rightarrow> playlist_entries ls)
      else playlist_entries (u # ls))"
| "playlist_entries _ = []"

lemma fixed_chars: "c \<in> set (fixed n x) \<Longrightarrow> c = CHR ''-'' \<or> c = CHR ''.'' \<or> digit_val c \<noteq> None"
  by (auto simp: fixed_def fixed_nat_def Let_def dest: show_nat_digits pad_zeros_digits split: if_splits)

lemma newline_not_digit: "digit_val newline = None"
  by (simp add: newline_def digit_val_def)

lemma newline_simps [simp]:
  "newline \<noteq> CHR ''#''" "newline \<noteq> CHR ''.''" "newline \<noteq> CHR ''-''" "newline \<noteq> CHR '',''"
  by (simp_all add: newline_def)

lemma newline_not_fixed: "newline \<notin> set (fixed n x)"
  using fixed_chars [of newline n x] newline_not_digit by auto

lemma newline_not_itoa: "newline \<notin> set (itoa i)"
  using newline_not_digit by (auto simp: itoa_def dest: show_nat_digits split: if_splits)

lemma newline_not_name: "newline \<notin> set (segment_name i)"
proof -
  have "newline \<notin> set (itoa_padded 5 i)"
    using newline_not_digit by (auto simp: itoa_padded_def dest: pad_zeros_digits split: if_splits)
  then show ?thesis by (auto simp: segment_name_def segment_prefix_def segment_ext_def newline_def)
qed

lemma media_playlist_line: "l \<in> set (media_playlist_lines segs) \<Longrightarrow> newline \<notin> set l"
proof -
  have "newline \<notin> set (''#EXTINF:'' @ fixed 6 x @ '','')" for x
    using newline_not_fixed [of 6 x] by (simp add: newline_def)
  then have "l \<in> set (extinf_lines p) \<Longrightarrow> newline \<notin> set l" for p
    using newline_not_name by (cases p) (auto simp: extinf_lines_def)
  moreover have "newline \<notin> set (''#EXT-X-TARGETDURATION:'' @ itoa (target_duration segs))"
    using newline_not_itoa by (simp add: newline_def)
  moreover have "newline \<notin> set hls_header" "newline \<notin> set hls_version" "newline \<notin> set ''#EXT-X-MEDIA-SEQUENCE:0''"
    "newline \<notin> set ''#EXT-X-PLAYLIST-TYPE:VOD''" "newline \<notin> set ''#EXT-X-INDEPENDENT-SEGMENTS''"
    "newline \<notin> set ''#EXT-X-ENDLIST''"
    by (simp_all add: hls_header_def hls_version_def newline_def)
  ultimately show "l \<in> set (media_playlist_lines segs) \<Longrightarrow> newline \<notin> set l"
    unfolding media_playlist_lines_def by (simp only: set_append set_concat set_map) auto
qed

lemma split_media_playlist: "split_on newline (build_media_playlist segs) = media_playlist_lines segs"
  unfolding build_media_playlist_def
  by (rule split_join) (use media_playlist_line in \<open>auto simp: media_playlist_lines_def\<close>)

definition extinf_seconds :: "string \<Rightarrow> rat option" where
  "extinf_seconds l = read_fixed (takeWhile (\<lambda>c. c \<noteq> CHR '','') (drop 8 l))"

lemma extinf_seconds_close:
  assumes "0 \<le> x"
  obtains y where "extinf_seconds (''#EXTINF:'' @ fixed 6 x @ '','') = Some y" and "\<bar>y - x\<bar> \<le> 1 / 2000000"
proof -
  have "CHR '','' \<notin> set (fixed 6 x)" using fixed_chars [of "CHR '',''" 6 x] by auto
  then have "takeWhile (\<lambda>c. c \<noteq> CHR '','') (fixed 6 x @ '','') = fixed 6 x"
    by (subst takeWhile_append2) auto
  then have "extinf_seconds (''#EXTINF:'' @ fixed 6 x @ '','') = read_fixed (fixed 6 x)"
    by (simp add: extinf_seconds_def)
  with fixed_close [OF assms, of 6] that show thesis by auto
qed

definition entry_of :: "rat \<times> string \<Rightarrow> nat \<times> rat \<Rightarrow> bool" where
  "entry_of e s = (snd e = segment_name (int (fst s)) \<and> \<bar>fst e - snd s\<bar> \<le> 1 / 2000000)"

lemma entries_of_segments:
  "list_all (\<lambda>x. 0 \<le> x) xs \<Longrightarrow>
    list_all2 entry_of (playlist_entries (concat (map extinf_lines (enumerate n xs)) @ [''#EXT-X-ENDLIST'', []])) (enumerate n xs)"
proof (induction xs arbitrary: n)
  case Nil
  then show ?case by (simp add: has_prefix_def)
next
  case (Cons x xs)
  then have "0 \<le> x" by simp
  then obtain y where y: "extinf_seconds (''#EXTINF:'' @ fixed 6 x @ '','') = Some y" "\<bar>y - x\<bar> \<le> 1 / 2000000"
    by (rule extinf_seconds_close)
  have "has_prefix (''#EXTINF:'' @ fixed 6 x @ '','') ''#EXTINF:''" by (simp add: has_prefix_def)
  with y Cons show ?case by (simp add: extinf_lines_def extinf_seconds_def entry_of_def)
qed

text \<open>C26. The published playlist denotes the table: a player that reads the text gets one entry per segment, in order, with
  the name the segment is served under and its length up to half a microsecond.\<close>

theorem media_playlist_denotes:
  assumes "list_all (\<lambda>x. 0 \<le> x) segs"
  shows "list_all2 entry_of (playlist_entries (split_on newline (build_media_playlist segs))) (enumerate 0 segs)"
proof -
  let ?body = "concat (map extinf_lines (enumerate 0 segs)) @ [''#EXT-X-ENDLIST'', []]"
  have skip: "playlist_entries (l # ?body) = playlist_entries ?body" if "\<not> has_prefix l ''#EXTINF:''" for l
    using that by (cases ?body) auto
  have "playlist_entries (media_playlist_lines segs) = playlist_entries ?body"
    by (simp add: media_playlist_lines_def has_prefix_def hls_header_def hls_version_def skip)
  then show ?thesis using entries_of_segments [OF assms, of 0] by (simp only: split_media_playlist)
qed

lemma media_playlist_denotes_witness:
  "list_all2 entry_of (playlist_entries (split_on newline (build_media_playlist [6, 13 / 2, 7 / 3]))) [(0, 6), (1, 13 / 2), (2, 7 / 3)]"
  using media_playlist_denotes [of "[6, 13 / 2, 7 / 3]"] by (simp add: numeral_2_eq_2)

end
