(* ===== verification/HlsSource.thy ===== *)
theory HlsSource
  imports HlsTimeline
begin

text \<open>
  What the server knows of a source video: the result of ffprobe (\<open>probe.go\<close>, \<open>source_duration.go\<close>), the index
  of its video packets (\<open>keyframes.go\<close>), the choice of an audio track (\<open>audio_select.go\<close>), whether the video can be
  copied (\<open>remux.go\<close>), and the metadata made from it (\<open>source_meta.go\<close>). Running ffprobe and decoding its JSON are
  left out: the model starts from the decoded output.
\<close>

section \<open>The output of ffprobe\<close>

record probe_stream =
  ps_index :: int
  ps_codec_type :: string
  ps_codec_name :: string
  ps_frame_rate :: string
  ps_width :: int
  ps_height :: int
  ps_channels :: int
  ps_channel_layout :: string
  ps_pix_fmt :: string
  ps_color_transfer :: string
  ps_color_primaries :: string
  ps_color_space :: string
  ps_tags :: "(string \<times> string) list"
  ps_disposition :: "(string \<times> int) list"

record probe_chapter =
  pc_start :: string
  pc_end :: string
  pc_tags :: "(string \<times> string) list"

record probe_output =
  po_duration :: string
  po_start_time :: string
  po_bit_rate :: string
  po_format_name :: string
  po_streams :: "probe_stream list"
  po_chapters :: "probe_chapter list"

record chapter_info =
  ch_start :: rat
  ch_end :: rat
  ch_title :: string

record subtitle_stream =
  ss_index :: int
  ss_label :: string
  ss_language :: string

record audio_stream =
  as_index :: int
  as_label :: string
  as_codec :: string
  as_language :: string
  as_channels :: int
  as_channel_layout :: string
  as_commentary :: bool

record source_info =
  si_height :: int
  si_width :: int
  si_frame_rate :: rat
  si_duration :: rat
  si_start :: rat
  si_audio :: "audio_stream list"
  si_subtitles :: "subtitle_stream list"
  si_chapters :: "chapter_info list"
  si_video_codec :: string
  si_audio_codec :: string
  si_video_count :: nat
  si_pix_fmt :: string
  si_color_transfer :: string
  si_color_primaries :: string
  si_color_space :: string
  si_bitrate :: int
  si_format_name :: string

text \<open>Reading a missing key of a Go map gives the zero value.\<close>

definition tag :: "(string \<times> string) list \<Rightarrow> string \<Rightarrow> string" where
  "tag m k = (case map_of m k of None \<Rightarrow> [] | Some v \<Rightarrow> v)"

definition flag :: "(string \<times> int) list \<Rightarrow> string \<Rightarrow> int" where
  "flag m k = (case map_of m k of None \<Rightarrow> 0 | Some v \<Rightarrow> v)"

section \<open>Fields\<close>

definition parse_probe_duration :: "string \<Rightarrow> rat" where
  "parse_probe_duration raw = (let raw = trim_space raw in
     if raw = [] then 0
     else (case parse_float raw of None \<Rightarrow> 0 | Some x \<Rightarrow> if x \<le> 0 then 0 else x))"

definition parse_probe_start_time :: "string \<Rightarrow> rat" where
  "parse_probe_start_time raw = (case parse_float (trim_space raw) of None \<Rightarrow> 0 | Some x \<Rightarrow> x)"

definition parse_probe_bitrate :: "string \<Rightarrow> int" where
  "parse_probe_bitrate raw = (let raw = trim_space raw in
     if raw = [] then 0
     else (case atoi raw of None \<Rightarrow> 0 | Some x \<Rightarrow> if x \<le> 0 then 0 else x))"

text \<open>\<open>num/den\<close>; \<open>strings.Cut\<close> splits at the first slash.\<close>

definition parse_frame_rate :: "string \<Rightarrow> rat" where
  "parse_frame_rate raw = (let s = trim_space raw; num = takeWhile (\<lambda>c. c \<noteq> CHR ''/'') s in
     if CHR ''/'' \<notin> set s then 0
     else (case (parse_float num, parse_float (drop (length num + 1) s)) of
       (Some n, Some d) \<Rightarrow> if d = 0 then 0 else n / d | _ \<Rightarrow> 0))"

definition needs_tone_map :: "string \<Rightarrow> string \<Rightarrow> string \<Rightarrow> bool" where
  "needs_tone_map transfer primaries pix_fmt = (let
      transfer = to_lower (trim_space transfer);
      primaries = to_lower (trim_space primaries);
      pix_fmt = to_lower (trim_space pix_fmt)
    in transfer \<in> set [''smpte2084'', ''arib-std-b67'', ''smpte2084_pq'']
      \<or> primaries = ''bt2020''
      \<or> contains pix_fmt ''10'' \<or> contains pix_fmt ''12'' \<or> contains pix_fmt ''p010'' \<or> contains pix_fmt ''p012'')"

definition is_remux_video_codec :: "string \<Rightarrow> bool" where
  "is_remux_video_codec codec = (to_lower (trim_space codec) \<in> set [''h264'', ''avc1''])"

definition remux_eligible :: "source_info \<Rightarrow> bool" where
  "remux_eligible s \<longleftrightarrow> si_video_count s = 1 \<and> is_remux_video_codec (si_video_codec s)
     \<and> \<not> needs_tone_map (si_color_transfer s) (si_color_primaries s) (si_pix_fmt s)"

section \<open>Streams\<close>

definition audio_label :: "probe_stream \<Rightarrow> string" where
  "audio_label p = (let title = trim_space (tag (ps_tags p) ''title''); lang = trim_space (tag (ps_tags p) ''language'') in
     if title \<noteq> [] then title else if lang \<noteq> [] then lang
     else if 0 < ps_channels p
       then ''Audio '' @ itoa (ps_index p) @ '' ('' @ itoa (ps_channels p) @ '' ch)''
       else ''Audio '' @ itoa (ps_index p))"

definition subtitle_label :: "probe_stream \<Rightarrow> string" where
  "subtitle_label p = (let title = trim_space (tag (ps_tags p) ''title''); lang = trim_space (tag (ps_tags p) ''language'') in
     if title \<noteq> [] then title else if lang \<noteq> [] then lang else ''Subtitles '' @ itoa (ps_index p))"

definition is_commentary :: "probe_stream \<Rightarrow> bool" where
  "is_commentary p \<longleftrightarrow> flag (ps_disposition p) ''comment'' = 1 \<or> flag (ps_disposition p) ''description'' = 1"

definition apply_video_stream :: "source_info \<Rightarrow> probe_stream \<Rightarrow> source_info" where
  "apply_video_stream i p =
     (if flag (ps_disposition p) ''attached_pic'' = 1 then i
      else let i1 = i\<lparr>si_video_count := si_video_count i + 1\<rparr>;
               i2 = (if si_video_count i1 = 1
                 then i1\<lparr>si_video_codec := ps_codec_name p, si_frame_rate := parse_frame_rate (ps_frame_rate p),
                   si_pix_fmt := trim_space (ps_pix_fmt p), si_color_transfer := trim_space (ps_color_transfer p),
                   si_color_primaries := trim_space (ps_color_primaries p), si_color_space := trim_space (ps_color_space p)\<rparr>
                 else i1)
        in if si_height i2 < ps_height p then i2\<lparr>si_height := ps_height p, si_width := ps_width p\<rparr> else i2)"

definition audio_of :: "probe_stream \<Rightarrow> audio_stream" where
  "audio_of p = \<lparr>as_index = ps_index p, as_label = audio_label p, as_codec = ps_codec_name p,
     as_language = trim_space (tag (ps_tags p) ''language''), as_channels = ps_channels p,
     as_channel_layout = trim_space (ps_channel_layout p), as_commentary = is_commentary p\<rparr>"

text \<open>\<open>appendAudioStream\<close> also notes the position of the first stream marked as default.\<close>

definition append_audio_stream :: "source_info \<Rightarrow> int \<Rightarrow> probe_stream \<Rightarrow> source_info \<times> int" where
  "append_audio_stream i def p =
     (i\<lparr>si_audio := si_audio i @ [audio_of p]\<rparr>,
      if flag (ps_disposition p) ''default'' = 1 \<and> def < 0 then int (length (si_audio i)) else def)"

definition subtitle_of :: "probe_stream \<Rightarrow> subtitle_stream" where
  "subtitle_of p = \<lparr>ss_index = ps_index p, ss_label = subtitle_label p,
     ss_language = trim_space (tag (ps_tags p) ''language'')\<rparr>"

definition probe_step :: "source_info \<times> int \<Rightarrow> probe_stream \<Rightarrow> source_info \<times> int" where
  "probe_step = (\<lambda>(i, def) p.
     if ps_codec_type p = ''video'' then (apply_video_stream i p, def)
     else if ps_codec_type p = ''audio'' then append_audio_stream i def p
     else if ps_codec_type p = ''subtitle'' then (i\<lparr>si_subtitles := si_subtitles i @ [subtitle_of p]\<rparr>, def)
     else (i, def))"

definition promote_default :: "int \<Rightarrow> 'a list \<Rightarrow> 'a list" where
  "promote_default def xs = (if def \<le> 0 then xs
     else xs ! nat def # take (nat def) xs @ drop (nat def + 1) xs)"

definition empty_source :: source_info where
  "empty_source = \<lparr>si_height = 0, si_width = 0, si_frame_rate = 0, si_duration = 0, si_start = 0, si_audio = [],
     si_subtitles = [], si_chapters = [], si_video_codec = [], si_audio_codec = [], si_video_count = 0, si_pix_fmt = [],
     si_color_transfer = [], si_color_primaries = [], si_color_space = [], si_bitrate = 0, si_format_name = []\<rparr>"

definition source_info_from_probe :: "probe_stream list \<Rightarrow> source_info" where
  "source_info_from_probe ps = (case foldl probe_step (empty_source, -1) ps of
     (i, def) \<Rightarrow> let audio = promote_default def (si_audio i); i1 = i\<lparr>si_audio := audio\<rparr> in
       if audio \<noteq> [] then i1\<lparr>si_audio_codec := as_codec (hd audio)\<rparr> else i1)"

definition map_chapter :: "nat \<times> probe_chapter \<Rightarrow> chapter_info" where
  "map_chapter = (\<lambda>(i, c). let title = trim_space (tag (pc_tags c) ''title'') in
     \<lparr>ch_start = parse_probe_duration (pc_start c), ch_end = parse_probe_duration (pc_end c),
      ch_title = (if title = [] then ''Chapter '' @ itoa (int i + 1) else title)\<rparr>)"

definition map_probe_chapters :: "probe_chapter list \<Rightarrow> chapter_info list" where
  "map_probe_chapters cs = map map_chapter (enumerate 0 cs)"

text \<open>\<open>ProbeSource\<close> after the JSON is decoded.\<close>

definition probe_source :: "probe_output \<Rightarrow> source_info" where
  "probe_source p = (source_info_from_probe (po_streams p))
     \<lparr>si_duration := parse_probe_duration (po_duration p), si_start := parse_probe_start_time (po_start_time p),
      si_format_name := trim_space (po_format_name p), si_bitrate := parse_probe_bitrate (po_bit_rate p),
      si_chapters := map_probe_chapters (po_chapters p)\<rparr>"

section \<open>The packet index\<close>

record packet_index =
  pi_keyframes :: "rat list"
  pi_packets :: "(rat \<times> int) list"

definition packet_step :: "packet_index \<times> rat \<Rightarrow> string \<Rightarrow> packet_index \<times> rat" where
  "packet_step = (\<lambda>(idx, previous) line.
     let fields = split_on CHR '','' (trim_space line) in
     if length fields < 3 then (idx, previous)
     else (case parse_float (trim_space (fields ! 0)) of
         None \<Rightarrow> (idx, previous)
       | Some seconds \<Rightarrow>
           let idx1 = (case atoi (trim_space (fields ! 1)) of
                 Some n \<Rightarrow> if 0 < n then idx\<lparr>pi_packets := pi_packets idx @ [(seconds, n)]\<rparr> else idx
               | None \<Rightarrow> idx)
           in if \<not> contains (fields ! 2) ''K'' \<or> seconds < 0 \<or> seconds \<le> previous then (idx1, previous)
              else (idx1\<lparr>pi_keyframes := pi_keyframes idx1 @ [seconds]\<rparr>, seconds)))"

definition parse_packet_csv :: "string \<Rightarrow> packet_index" where
  "parse_packet_csv raw =
     fst (foldl packet_step (\<lparr>pi_keyframes = [], pi_packets = []\<rparr>, -1) (split_on newline raw))"

text \<open>\<open>PacketIndex.normalized\<close>.\<close>

definition normalize_index :: "rat \<Rightarrow> packet_index \<Rightarrow> packet_index" where
  "normalize_index start p = (if start = 0 then p
     else \<lparr>pi_keyframes = filter (\<lambda>k. 0 \<le> k) (map (\<lambda>k. k - start) (pi_keyframes p)),
           pi_packets = map (\<lambda>(t, n). (t - start, n)) (pi_packets p)\<rparr>)"

text \<open>\<open>sort.SearchFloat64s\<close>: the first position with a value of at least \<open>x\<close>.\<close>

definition search_first :: "rat list \<Rightarrow> rat \<Rightarrow> nat" where
  "search_first xs x = length (takeWhile (\<lambda>y. y < x) xs)"

fun segment_starts :: "rat \<Rightarrow> rat list \<Rightarrow> rat list" where
  "segment_starts t [] = []"
| "segment_starts t (x # xs) = t # segment_starts (t + x) xs"

definition packet_position :: "rat list \<Rightarrow> rat \<Rightarrow> nat" where
  "packet_position starts pts = search_first starts (pts + 1 / 1000000000) - 1"

definition segment_bytes :: "rat list \<Rightarrow> (rat \<times> int) list \<Rightarrow> int list" where
  "segment_bytes segs packets = foldl (\<lambda>bytes (pts, n).
      let pos = packet_position (segment_starts 0 segs) pts in bytes[pos := bytes ! pos + n])
    (replicate (length segs) 0) packets"

definition truncate :: "rat \<Rightarrow> int" where
  "truncate x = (if 0 \<le> x then \<lfloor>x\<rfloor> else \<lceil>x\<rceil>)"

text \<open>Peak and average bits per second; a segment shorter than half the target does not count for the peak.\<close>

definition segment_bitrates :: "rat list \<Rightarrow> (rat \<times> int) list \<Rightarrow> int \<times> int" where
  "segment_bitrates segs packets =
     (if packets = [] \<or> segs = [] then (0, 0)
      else let secs = sum_list segs; bytes = segment_bytes segs packets; total_bytes = sum_list (map snd packets) in
        if secs \<le> 0 then (0, 0)
        else let average = truncate (of_int (total_bytes * 8) / secs);
                 peak = foldl (\<lambda>peak (len, n). if len < segment_target / 2 then peak
                   else max peak (truncate (of_int (n * 8) / len))) 0 (zip segs bytes)
          in (max peak average, average))"

section \<open>Source metadata\<close>

datatype packaging_mode = PackagingRemux | PackagingTranscode

record source_meta =
  sm_height :: int
  sm_width :: int
  sm_duration :: rat
  sm_frame_rate :: rat
  sm_video_codec :: string
  sm_packaging :: packaging_mode
  sm_pix_fmt :: string
  sm_color_transfer :: string
  sm_color_primaries :: string
  sm_color_space :: string
  sm_audio :: "audio_stream list"
  sm_subtitles :: "subtitle_stream list"
  sm_chapters :: "chapter_info list"
  sm_segments :: "rat list"
  sm_peak :: int
  sm_average :: int

definition source_meta_from_probe :: "source_info \<Rightarrow> packet_index \<Rightarrow> source_meta" where
  "source_meta_from_probe s packets = (let
      segments = segment_table (pi_keyframes packets) (si_duration s) segment_target;
      (peak, average) = segment_bitrates segments (pi_packets packets);
      (peak, average) = (if peak \<le> 0 \<and> 0 < si_bitrate s then (si_bitrate s, si_bitrate s) else (peak, average))
    in \<lparr>sm_height = si_height s, sm_width = si_width s, sm_duration = si_duration s, sm_frame_rate = si_frame_rate s,
        sm_video_codec = si_video_codec s, sm_packaging = (if remux_eligible s then PackagingRemux else PackagingTranscode),
        sm_pix_fmt = si_pix_fmt s, sm_color_transfer = si_color_transfer s, sm_color_primaries = si_color_primaries s,
        sm_color_space = si_color_space s, sm_audio = si_audio s, sm_subtitles = si_subtitles s,
        sm_chapters = si_chapters s, sm_segments = segments, sm_peak = peak, sm_average = average\<rparr>)"

definition copies_video_at :: "source_meta \<Rightarrow> int \<Rightarrow> bool" where
  "copies_video_at m height \<longleftrightarrow> sm_packaging m = PackagingRemux \<and> height = sm_height m"

definition meta_needs_tone_map :: "source_meta \<Rightarrow> bool" where
  "meta_needs_tone_map m = needs_tone_map (sm_color_transfer m) (sm_color_primaries m) (sm_pix_fmt m)"

record track_info =
  ti_id :: string
  ti_label :: string
  ti_default :: bool

definition audio_tracks_with_default :: "int \<Rightarrow> source_meta \<Rightarrow> track_info list" where
  "audio_tracks_with_default def m =
     (if sm_audio m = [] then [\<lparr>ti_id = ''0'', ti_label = ''Default'', ti_default = True\<rparr>]
      else let def = (if def < 0 \<or> int (length (sm_audio m)) \<le> def then 0 else def) in
        map (\<lambda>(i, s). \<lparr>ti_id = itoa (int i), ti_label = as_label s, ti_default = (int i = def)\<rparr>) (enumerate 0 (sm_audio m)))"

section \<open>The default audio track\<close>

definition normalize_language_prefs :: "string list \<Rightarrow> string list" where
  "normalize_language_prefs langs = take 3 (filter (\<lambda>l. l \<noteq> []) (map (to_lower \<circ> trim_space) langs))"

definition language_matches :: "string \<Rightarrow> string \<Rightarrow> bool" where
  "language_matches pref track = (let track = to_lower (trim_space track) in
     track \<noteq> [] \<and> (track = pref \<or> has_prefix track pref \<or> has_prefix pref track))"

definition first_index :: "('a \<Rightarrow> bool) \<Rightarrow> 'a list \<Rightarrow> nat option" where
  "first_index P xs = (let n = length (takeWhile (\<lambda>x. \<not> P x) xs) in if n < length xs then Some n else None)"

fun pick_preferred :: "audio_stream list \<Rightarrow> string list \<Rightarrow> nat option" where
  "pick_preferred streams [] = None"
| "pick_preferred streams (p # ps) =
     (case first_index (\<lambda>s. \<not> as_commentary s \<and> language_matches p (as_language s)) streams of
        Some i \<Rightarrow> Some i | None \<Rightarrow> pick_preferred streams ps)"

definition select_default_audio :: "audio_stream list \<Rightarrow> string list \<Rightarrow> int" where
  "select_default_audio streams langs =
     (if streams = [] then -1
      else (case pick_preferred streams (normalize_language_prefs langs) of
         Some i \<Rightarrow> int i
       | None \<Rightarrow> (case first_index (\<lambda>s. \<not> as_commentary s) streams of Some i \<Rightarrow> int i | None \<Rightarrow> 0)))"

end
