(* ===== verification/HlsVariants.thy ===== *)
theory HlsVariants
  imports HlsSource MediaFs
begin

text \<open>
  The renditions of a source and the URLs that name them: the quality ladder (\<open>probe.go\<close>, \<open>playlist_vod.go\<close>), the
  variant directories (\<open>variant.go\<close>), the parts of a play URL (\<open>paths.go\<close>), the file behind a resource (\<open>service.go\<close>)
  and the master playlist (\<open>playlist_vod.go\<close>).
\<close>

section \<open>The quality ladder\<close>

record quality_rung =
  qr_height :: int
  qr_bitrate :: string
  qr_max_rate :: string
  qr_buf_size :: string

definition all_rungs :: "quality_rung list" where
  "all_rungs =
    [\<lparr>qr_height = 2160, qr_bitrate = ''14000k'', qr_max_rate = ''14980k'', qr_buf_size = ''21000k''\<rparr>,
     \<lparr>qr_height = 1440, qr_bitrate = ''8000k'', qr_max_rate = ''8560k'', qr_buf_size = ''12000k''\<rparr>,
     \<lparr>qr_height = 1080, qr_bitrate = ''5000k'', qr_max_rate = ''5350k'', qr_buf_size = ''7500k''\<rparr>,
     \<lparr>qr_height = 720, qr_bitrate = ''2800k'', qr_max_rate = ''2996k'', qr_buf_size = ''4200k''\<rparr>,
     \<lparr>qr_height = 480, qr_bitrate = ''1400k'', qr_max_rate = ''1498k'', qr_buf_size = ''2100k''\<rparr>,
     \<lparr>qr_height = 360, qr_bitrate = ''800k'', qr_max_rate = ''856k'', qr_buf_size = ''1200k''\<rparr>,
     \<lparr>qr_height = 240, qr_bitrate = ''400k'', qr_max_rate = ''428k'', qr_buf_size = ''600k''\<rparr>]"

definition quality_rungs :: "int \<Rightarrow> quality_rung list" where
  "quality_rungs source =
     (if source \<le> 0 then [last all_rungs]
      else let rungs = filter (\<lambda>r. qr_height r \<le> source) all_rungs in
        if rungs = [] then [\<lparr>qr_height = source, qr_bitrate = ''1400k'', qr_max_rate = ''1498k'', qr_buf_size = ''2100k''\<rparr>]
        else rungs)"

definition fast_start_rung :: "int \<Rightarrow> quality_rung" where
  "fast_start_rung source = hd (quality_rungs source)"

definition ladder_heights :: "int \<Rightarrow> int list" where
  "ladder_heights source = (let rungs = quality_rungs source;
      own = (if 0 < source \<and> \<not> list_ex (\<lambda>r. qr_height r = source) rungs then [source] else [])
    in rev (sort (own @ map qr_height rungs)))"

definition ladder_rung :: "int \<Rightarrow> int \<Rightarrow> quality_rung" where
  "ladder_rung source height = (case find (\<lambda>r. qr_height r = height) (quality_rungs source) of
     Some r \<Rightarrow> r | None \<Rightarrow> fast_start_rung source)"

section \<open>Variants\<close>

datatype variant_kind = VariantVideo | VariantAudio

record variant =
  va_kind :: variant_kind
  va_value :: int

definition variant_dir :: "int \<Rightarrow> string" where
  "variant_dir height = CHR ''v'' # itoa height"

definition audio_dir :: "int \<Rightarrow> string" where
  "audio_dir i = CHR ''a'' # itoa i"

text \<open>\<open>Variant.Dir\<close>.\<close>

definition dir_of_variant :: "variant \<Rightarrow> string" where
  "dir_of_variant v = (if va_kind v = VariantAudio then audio_dir (va_value v) else variant_dir (va_value v))"

definition parse_variant_dir :: "string \<Rightarrow> variant option" where
  "parse_variant_dir dir =
     (if length dir < 2 then None
      else (case atoi (tl dir) of
         None \<Rightarrow> None
       | Some n \<Rightarrow>
           if n < 0 then None
           else if hd dir = CHR ''v'' then (if n \<le> 0 then None else Some \<lparr>va_kind = VariantVideo, va_value = n\<rparr>)
           else if hd dir = CHR ''a'' then Some \<lparr>va_kind = VariantAudio, va_value = n\<rparr>
           else None))"

definition split_segment_resource :: "string \<Rightarrow> (variant \<times> int) option" where
  "split_segment_resource resource = (let parts = split_on CHR ''/'' (trim_prefix resource ''/'') in
     if length parts \<noteq> 2 then None
     else (case parse_variant_dir (parts ! 0) of
        None \<Rightarrow> None
      | Some v \<Rightarrow> (case segment_index_from_name (parts ! 1) of None \<Rightarrow> None | Some i \<Rightarrow> Some (v, i))))"

definition variant_height_from_resource :: "string \<Rightarrow> int option" where
  "variant_height_from_resource resource = (let parts = split_on CHR ''/'' (trim_prefix resource ''/'') in
     if length parts < 2 then None
     else (case parse_variant_dir (parts ! 0) of
        None \<Rightarrow> None
      | Some v \<Rightarrow> if va_kind v \<noteq> VariantVideo then None else Some (va_value v)))"

definition valid_variant :: "source_meta \<Rightarrow> variant \<Rightarrow> bool" where
  "valid_variant m v =
     (if va_kind v = VariantAudio then 0 \<le> va_value v \<and> va_value v < int (length (sm_audio m))
      else va_value v \<in> set (ladder_heights (sm_height m)))"

section \<open>Play URLs\<close>

definition master_playlist_name :: string where "master_playlist_name = ''master.m3u8''"

definition media_playlist_name :: string where "media_playlist_name = ''playlist.m3u8''"

definition is_hls_stream_dir :: "string \<Rightarrow> bool" where
  "is_hls_stream_dir name = has_prefix (to_lower name) ''stream_''"

definition is_hls_resource_start :: "string \<Rightarrow> bool" where
  "is_hls_resource_start name \<longleftrightarrow> name = master_playlist_name \<or> name = ''subtitles'' \<or> is_hls_stream_dir name
     \<or> parse_variant_dir name \<noteq> None"

fun last_video_index :: "nat \<Rightarrow> string list \<Rightarrow> nat option \<Rightarrow> nat option" where
  "last_video_index i [] found = found"
| "last_video_index i (s # ss) found =
     last_video_index (i + 1) ss (if is_video_extension (path_ext s) then Some i else found)"

definition split_with_video_ext :: "string list \<Rightarrow> (string \<times> string) option" where
  "split_with_video_ext ss = (case last_video_index 0 ss None of
     None \<Rightarrow> None
   | Some i \<Rightarrow> Some (join_on CHR ''/'' (take (i + 1) ss),
       if i + 1 < length ss then join_on CHR ''/'' (drop (i + 1) ss) else master_playlist_name))"

definition split_extensionless :: "string list \<Rightarrow> (string \<times> string) option" where
  "split_extensionless ss = (case first_index is_hls_resource_start ss of
     Some i \<Rightarrow> if i = 0 then None
       else Some (join_on CHR ''/'' (take i ss), join_on CHR ''/'' (drop i ss))
   | None \<Rightarrow> Some (join_on CHR ''/'' ss, master_playlist_name))"

definition split_play_path :: "string \<Rightarrow> (string \<times> string) option" where
  "split_play_path raw = (let ss = split_on CHR ''/'' (trim_prefix raw ''/'') in
     if hd ss = [] then None
     else (case split_with_video_ext ss of
        Some r \<Rightarrow> Some r
      | None \<Rightarrow> split_extensionless ss))"

text \<open>\<open>Service.CacheOutDir\<close> and \<open>Service.ResourcePath\<close>.\<close>

definition cache_out_dir :: "string \<Rightarrow> string \<Rightarrow> string" where
  "cache_out_dir cache_dir key = path_join [cache_dir, key]"

definition resource_path :: "string \<Rightarrow> string \<Rightarrow> string \<Rightarrow> string" where
  "resource_path cache_dir key resource =
     (if resource = [] \<or> contains resource ''..'' then [] else path_join [cache_dir, key, resource])"

section \<open>The master playlist\<close>

record packaged_subtitle =
  pt_id :: string
  pt_display_name :: string
  pt_rel_playlist :: string

definition escape_attr :: "string \<Rightarrow> string" where
  "escape_attr v = map (\<lambda>c. if c = CHR 0x22 then CHR 0x27 else c) (trim_space v)"

definition quoted :: "string \<Rightarrow> string" where
  "quoted v = CHR 0x22 # v @ [CHR 0x22]"

definition bitrate_to_int :: "string \<Rightarrow> int" where
  "bitrate_to_int b = (let v = to_lower (trim_space b);
      v = (if has_suffix v ''k'' then butlast v else v)
    in if v = [] then 0 else (case atoi v of None \<Rightarrow> 0 | Some n \<Rightarrow> n * 1000))"

text \<open>Peak and average bits per second of one rung, audio included.\<close>

definition rung_bandwidth :: "source_meta \<Rightarrow> int \<Rightarrow> int \<times> int" where
  "rung_bandwidth m height = (let audio = (if sm_audio m \<noteq> [] then 192 * 1000 else 0) in
     if copies_video_at m height \<and> 0 < sm_peak m
     then let average = (if sm_average m \<le> 0 then sm_peak m else sm_average m) in (sm_peak m + audio, average + audio)
     else let rung = ladder_rung (sm_height m) height;
              peak = bitrate_to_int (qr_max_rate rung);
              peak = (if peak \<le> 0 then 1400000 else peak);
              average = bitrate_to_int (qr_bitrate rung);
              average = (if average \<le> 0 \<or> peak < average then peak else average)
       in (peak + audio, average + audio))"

text \<open>Widths and heights are not negative here, so Go's division is \<open>div\<close>.\<close>

definition scaled_width :: "source_meta \<Rightarrow> int \<Rightarrow> int" where
  "scaled_width m height =
     (let width = sm_width m * height div sm_height m; width = (if width mod 2 \<noteq> 0 then width + 1 else width) in
      if 0 < sm_width m \<and> 0 < sm_height m \<and> 0 < width then width else height * 16 div 9)"

definition stream_inf_suffix :: "bool \<Rightarrow> bool \<Rightarrow> string" where
  "stream_inf_suffix has_audio has_subtitles =
     (if has_audio then '',AUDIO='' @ quoted ''aud'' else []) @ (if has_subtitles then '',SUBTITLES='' @ quoted ''subs'' else [])"

definition stream_inf_line :: "source_meta \<Rightarrow> int \<Rightarrow> string \<Rightarrow> string" where
  "stream_inf_line m height attrs = (case rung_bandwidth m height of (peak, average) \<Rightarrow>
     ''#EXT-X-STREAM-INF:BANDWIDTH='' @ itoa peak @ '',AVERAGE-BANDWIDTH='' @ itoa average @ '',RESOLUTION=''
     @ itoa (scaled_width m height) @ ''x'' @ itoa height @ '',CODECS='' @ quoted ''avc1.640028,mp4a.40.2'' @ attrs)"

definition yes_no :: "bool \<Rightarrow> string" where
  "yes_no b = (if b then ''YES'' else ''NO'')"

definition audio_tag :: "nat \<times> audio_stream \<Rightarrow> string" where
  "audio_tag = (\<lambda>(i, s). ''#EXT-X-MEDIA:TYPE=AUDIO,GROUP-ID='' @ quoted ''aud'' @ '',NAME='' @ quoted (escape_attr (as_label s))
     @ '',LANGUAGE='' @ quoted (escape_attr (if as_language s = [] then ''und'' else as_language s))
     @ '',DEFAULT='' @ yes_no (i = 0) @ '',AUTOSELECT=YES,CHANNELS='' @ quoted ''2''
     @ '',URI='' @ quoted (audio_dir (int i) @ ''/'' @ media_playlist_name))"

definition audio_media_tags :: "audio_stream list \<Rightarrow> string list" where
  "audio_media_tags streams = map audio_tag (enumerate 0 streams)"

definition subtitle_tag :: "nat \<times> packaged_subtitle \<Rightarrow> string" where
  "subtitle_tag = (\<lambda>(i, t). ''#EXT-X-MEDIA:TYPE=SUBTITLES,GROUP-ID='' @ quoted ''subs'' @ '',NAME='' @ quoted (escape_attr (pt_display_name t))
     @ '',DEFAULT='' @ yes_no (i = 0) @ '',AUTOSELECT=YES,URI='' @ quoted (pt_rel_playlist t))"

definition subtitle_media_tags :: "packaged_subtitle list \<Rightarrow> string list" where
  "subtitle_media_tags tracks = map subtitle_tag (enumerate 0 tracks)"

definition master_playlist_lines :: "source_meta \<Rightarrow> packaged_subtitle list \<Rightarrow> string list" where
  "master_playlist_lines m subs =
     [hls_header, hls_version, ''#EXT-X-INDEPENDENT-SEGMENTS''] @ audio_media_tags (sm_audio m) @ subtitle_media_tags subs
     @ concat (map (\<lambda>h. [stream_inf_line m h (stream_inf_suffix (sm_audio m \<noteq> []) (subs \<noteq> [])),
          variant_dir h @ ''/'' @ media_playlist_name]) (ladder_heights (sm_height m))) @ [[]]"

definition build_master_playlist :: "source_meta \<Rightarrow> packaged_subtitle list \<Rightarrow> string" where
  "build_master_playlist m subs = join_on newline (master_playlist_lines m subs)"

subsection \<open>Rewriting the default audio track\<close>

text \<open>\<open>DEFAULT=(YES|NO)\<close> is replaced wherever it occurs in the line.\<close>

fun replace_default :: "string \<Rightarrow> string \<Rightarrow> string" where
  "replace_default v [] = []"
| "replace_default v (c # cs) =
     (if has_prefix (c # cs) ''DEFAULT=YES'' then ''DEFAULT='' @ v @ replace_default v (drop 10 cs)
      else if has_prefix (c # cs) ''DEFAULT=NO'' then ''DEFAULT='' @ v @ replace_default v (drop 9 cs)
      else c # replace_default v cs)"

fun set_default_audio :: "int \<Rightarrow> int \<Rightarrow> string list \<Rightarrow> string list" where
  "set_default_audio def n [] = []"
| "set_default_audio def n (l # ls) =
     (if contains l ''TYPE=AUDIO''
      then (if contains l ''DEFAULT='' then replace_default (yes_no (n = def)) l else l) # set_default_audio def (n + 1) ls
      else l # set_default_audio def n ls)"

definition apply_default_audio :: "string \<Rightarrow> int \<Rightarrow> string" where
  "apply_default_audio playlist def = (if def \<le> 0 then playlist
     else join_on newline (set_default_audio def 0 (split_on newline playlist)))"

section \<open>Quality labels and content types\<close>

definition quality_label :: "int \<Rightarrow> string" where
  "quality_label height = (case map_of [(2160, ''4K''), (1440, ''2K''), (1080, ''FHD''), (720, ''HD''), (480, ''480p''),
      (360, ''360p''), (240, ''240p'')] height of
     Some l \<Rightarrow> l | None \<Rightarrow> itoa height @ ''p'')"

text \<open>The suffixes hold no slash, so they end the last element (\<open>filepath.Base\<close>) when they end the path without its
  trailing slashes.\<close>

definition content_type_for_resource :: "string \<Rightarrow> string" where
  "content_type_for_resource resource = (let base = trim_right (\<lambda>c. c = CHR ''/'') resource in
     if has_suffix base ''.m3u8'' then ''application/vnd.apple.mpegurl''
      else if has_suffix base ''.ts'' then ''video/mp2t''
      else if has_suffix base ''.m4s'' then ''video/iso.segment''
      else if has_suffix base ''.vtt'' then ''text/vtt; charset=utf-8''
      else ''application/octet-stream'')"

end
