(* ===== verification/HlsSettings.thy ===== *)
theory HlsSettings
  imports HlsVariants
begin

text \<open>
  The administrator's transcoding settings (\<open>settings.go\<close>), the choice of an encoder (\<open>hwencoder.go\<close>), tone mapping
  (\<open>tonemap.go\<close>) and stereo downmix (\<open>downmix.go\<close>). The devices of the machine are the record \<open>devices\<close>. As in the
  code, the preferences are strings, because a stored document may hold anything before it is normalised.
\<close>

section \<open>Settings\<close>

datatype settings_err = InvalidHwAccel | InvalidDownmix | InvalidDownmixBoost | InvalidToneMapping

record transcode_settings =
  ts_hw_accel :: string
  ts_downmix :: string
  ts_boost :: rat
  ts_tone_enabled :: bool
  ts_tone_algo :: string

definition default_transcode_settings :: transcode_settings where
  "default_transcode_settings = \<lparr>ts_hw_accel = ''off'', ts_downmix = ''ac4'', ts_boost = 0, ts_tone_enabled = True,
     ts_tone_algo = ''bt2390''\<rparr>"

definition parse_hw_accel :: "string \<Rightarrow> settings_err + string" where
  "parse_hw_accel raw = (let v = to_lower (trim_space raw) in
     if v = ''off'' \<or> v = [] then Inr ''off''
     else if v \<in> set [''qsv'', ''vaapi'', ''nvenc'', ''rockchip''] then Inr v
     else Inl InvalidHwAccel)"

definition parse_downmix :: "string \<Rightarrow> settings_err + string" where
  "parse_downmix raw = (let v = to_lower (trim_space raw) in
     if v = ''none'' then Inr ''none''
     else if v = ''ac4'' \<or> v = [] then Inr ''ac4''
     else if v = ''dave750'' then Inr ''dave750''
     else if v = to_lower ''nightmodeDialogue'' then Inr ''nightmodeDialogue''
     else if v = ''rfc7845'' then Inr ''rfc7845''
     else Inl InvalidDownmix)"

definition default_downmix_boost :: "string \<Rightarrow> rat" where
  "default_downmix_boost algo = (if algo = ''none'' then 2 else 1)"

definition parse_downmix_boost :: "rat \<Rightarrow> string \<Rightarrow> settings_err + rat" where
  "parse_downmix_boost raw algo =
     (if raw = 0 then Inr (default_downmix_boost algo)
      else if raw < 1 / 2 \<or> 3 < raw then Inl InvalidDownmixBoost else Inr raw)"

definition parse_tone_mapping :: "string \<Rightarrow> settings_err + string" where
  "parse_tone_mapping raw = (let v = to_lower (trim_space raw) in
     if v = ''bt2390'' \<or> v = [] then Inr ''bt2390''
     else if v \<in> set [''hable'', ''reinhard'', ''mobius''] then Inr v
     else Inl InvalidToneMapping)"

definition normalize_transcode_settings :: "transcode_settings \<Rightarrow> settings_err + transcode_settings" where
  "normalize_transcode_settings s =
     (case parse_hw_accel (ts_hw_accel s) of Inl e \<Rightarrow> Inl e | Inr hw \<Rightarrow>
     (case parse_downmix (ts_downmix s) of Inl e \<Rightarrow> Inl e | Inr downmix \<Rightarrow>
     (case parse_downmix_boost (ts_boost s) downmix of Inl e \<Rightarrow> Inl e | Inr boost \<Rightarrow>
     (case parse_tone_mapping (ts_tone_algo s) of Inl e \<Rightarrow> Inl e | Inr algo \<Rightarrow>
       Inr \<lparr>ts_hw_accel = hw, ts_downmix = downmix, ts_boost = boost, ts_tone_enabled = ts_tone_enabled s, ts_tone_algo = algo\<rparr>))))"

section \<open>Encoders\<close>

datatype gpu_vendor = GpuNone | GpuNvidia | GpuIntel | GpuAmd | GpuUnknown

text \<open>What is found under \<open>/dev\<close> and \<open>/sys\<close>: the NVIDIA and Rockchip devices, the first render node (empty: none), the vendor.\<close>

record devices =
  dv_nvidia :: bool
  dv_rockchip :: bool
  dv_render :: string
  dv_vendor :: gpu_vendor

definition pci_id_to_vendor :: "string \<Rightarrow> gpu_vendor" where
  "pci_id_to_vendor i = (let i = to_lower i in
     if i = ''0x10de'' then GpuNvidia else if i = ''0x8086'' then GpuIntel else if i = ''0x1002'' then GpuAmd
     else if i = [] then GpuNone else GpuUnknown)"

datatype video_encoder = EncoderSoftware | EncoderNvenc | EncoderVaapi | EncoderQsv | EncoderRockchip

fun encoder_name :: "video_encoder \<Rightarrow> string" where
  "encoder_name EncoderSoftware = ''libx264''"
| "encoder_name EncoderNvenc = ''h264_nvenc''"
| "encoder_name EncoderVaapi = ''h264_vaapi''"
| "encoder_name EncoderQsv = ''h264_qsv''"
| "encoder_name EncoderRockchip = ''h264_rkmpp''"

definition resolve_preferred_encoder :: "devices \<Rightarrow> string \<Rightarrow> video_encoder \<times> string" where
  "resolve_preferred_encoder d pref =
     (if pref = ''nvenc'' then (if dv_nvidia d then EncoderNvenc else EncoderSoftware, [])
      else if pref = ''vaapi'' then (if dv_render d = [] then (EncoderSoftware, []) else (EncoderVaapi, dv_render d))
      else if pref = ''qsv'' then (if dv_render d = [] then (EncoderSoftware, [])
        else if dv_vendor d \<noteq> GpuIntel then (EncoderSoftware, dv_render d) else (EncoderQsv, dv_render d))
      else if pref = ''rockchip'' then (if dv_rockchip d then EncoderRockchip else EncoderSoftware, [])
      else (EncoderSoftware, []))"

definition resolve_video_encoder :: "devices \<Rightarrow> string \<Rightarrow> video_encoder \<times> string" where
  "resolve_video_encoder d pref = resolve_preferred_encoder d (case parse_hw_accel pref of Inl _ \<Rightarrow> ''off'' | Inr v \<Rightarrow> v)"

section \<open>Tone mapping\<close>

datatype tone_map_mode = ToneMapNone | ToneMapCpu | ToneMapCuda | ToneMapQsvVpp | ToneMapVulkan | ToneMapOpencl

definition resolve_tone_map_mode :: "video_encoder \<Rightarrow> gpu_vendor \<Rightarrow> bool \<Rightarrow> tone_map_mode" where
  "resolve_tone_map_mode encoder vendor needs =
     (if \<not> needs then ToneMapNone
      else (case encoder of
         EncoderNvenc \<Rightarrow> ToneMapCuda
       | EncoderVaapi \<Rightarrow> if vendor = GpuAmd then ToneMapVulkan else ToneMapCpu
       | EncoderRockchip \<Rightarrow> ToneMapOpencl
       | _ \<Rightarrow> ToneMapCpu))"

definition tonemap_algo_or_default :: "string \<Rightarrow> string" where
  "tonemap_algo_or_default algo = (if algo = [] then ''bt2390'' else algo)"

definition vulkan_tonemap_algo :: "string \<Rightarrow> string" where
  "vulkan_tonemap_algo algo = (let algo = tonemap_algo_or_default algo in if algo = ''bt2390'' then ''bt.2390'' else algo)"

definition cpu_tonemap_filter :: "string \<Rightarrow> string" where
  "cpu_tonemap_filter algo = ''tonemapx=tonemap='' @ tonemap_algo_or_default algo
     @ '':desat=0:peak=100:t=bt709:m=bt709:p=bt709:format=yuv420p''"

definition hw_tonemap_filter :: "string \<Rightarrow> string \<Rightarrow> string \<Rightarrow> string" where
  "hw_tonemap_filter kind format algo = ''tonemap_'' @ kind @ ''=format='' @ (if format = [] then ''nv12'' else format)
     @ '':p=bt709:t=bt709:m=bt709:tonemap='' @ tonemap_algo_or_default algo @ '':peak=100:desat=0''"

definition vulkan_tonemap_filter :: "string \<Rightarrow> string \<Rightarrow> string" where
  "vulkan_tonemap_filter format algo = ''libplacebo=upscaler=none:downscaler=none:format=''
     @ (if format = [] then ''nv12'' else format) @ '':tonemapping='' @ vulkan_tonemap_algo algo
     @ '':peak_detect=0:color_primaries=bt709:color_trc=bt709:colorspace=bt709''"

definition backslash :: char where "backslash = CHR 0x5C"

text \<open>\<open>min(<height>\,ih)\<close>, with the comma escaped for ffmpeg.\<close>

definition capped_height :: "int \<Rightarrow> string" where
  "capped_height height = ''min('' @ itoa height @ backslash # '',ih)''"

definition qsv_vpp_tonemap_scale :: "int \<Rightarrow> string" where
  "qsv_vpp_tonemap_scale height = ''vpp_qsv=w=-2:h='' @ capped_height height @ '':format=nv12:tonemap=1:async_depth=2''"

definition join_filters :: "string list \<Rightarrow> string" where
  "join_filters parts = join_on CHR '','' (filter (\<lambda>p. p \<noteq> []) (map trim_space parts))"

section \<open>Downmix\<close>

definition downmix_pan_filters :: "((string \<times> string) \<times> string) list" where
  "downmix_pan_filters = [
     ((''dave750'', ''5.1''), ''pan=stereo|c0=0.5*c2+0.707*c0+0.707*c4+0.5*c3|c1=0.5*c2+0.707*c1+0.707*c5+0.5*c3''),
     ((''dave750'', ''7.1''), ''pan=5.1(side)|c0=c0|c1=c1|c2=c2|c3=c3|c4=0.707*c4+0.707*c6|c5=0.707*c5+0.707*c7,'' @ ''pan=stereo|c0=0.5*c2+0.707*c0+0.707*c4+0.5*c3|c1=0.5*c2+0.707*c1+0.707*c5+0.5*c3''),
     ((''nightmodeDialogue'', ''5.1''), ''pan=stereo|c0=c2+0.30*c0+0.30*c4|c1=c2+0.30*c1+0.30*c5''),
     ((''nightmodeDialogue'', ''7.1''), ''pan=5.1(side)|c0=c0|c1=c1|c2=c2|c3=c3|c4=0.707*c4+0.707*c6|c5=0.707*c5+0.707*c7,'' @ ''pan=stereo|c0=c2+0.30*c0+0.30*c4|c1=c2+0.30*c1+0.30*c5''),
     ((''rfc7845'', ''3.0''), ''pan=stereo|c0=0.414214*c2+0.585786*c0|c1=0.414214*c2+0.585786*c1''),
     ((''rfc7845'', ''quad''), ''pan=stereo|c0=0.422650*c0+0.366025*c2+0.211325*c3|c1=0.422650*c1+0.366025*c3+0.211325*c2''),
     ((''rfc7845'', ''5.0''), ''pan=stereo|c0=0.460186*c2+0.650802*c0+0.563611*c3+0.325401*c4|c1=0.460186*c2+0.650802*c1+0.563611*c4+0.325401*c3''),
     ((''rfc7845'', ''5.1''), ''pan=stereo|c0=0.374107*c2+0.529067*c0+0.458186*c4+0.264534*c5+0.374107*c3|c1=0.374107*c2+0.529067*c1+0.458186*c5+0.264534*c4+0.374107*c3''),
     ((''rfc7845'', ''6.1''), ''pan=stereo|c0=0.321953*c2+0.455310*c0+0.394310*c5+0.227655*c6+0.278819*c4+0.321953*c3|c1=0.321953*c2+0.455310*c1+0.394310*c6+0.227655*c5+0.278819*c4+0.321953*c3''),
     ((''rfc7845'', ''7.1''), ''pan=stereo|c0=0.274804*c2+0.388631*c0+0.336565*c6+0.194316*c7+0.336565*c4+0.194316*c5+0.274804*c3|c1=0.274804*c2+0.388631*c1+0.336565*c7+0.194316*c6+0.336565*c5+0.194316*c4+0.274804*c3''),
     ((''ac4'', ''3.0''), ''pan=stereo|c0=c0+0.707*c2|c1=c1+0.707*c2''),
     ((''ac4'', ''5.0''), ''pan=stereo|c0=c0+0.707*c2+0.707*c3|c1=c1+0.707*c2+0.707*c4''),
     ((''ac4'', ''5.1''), ''pan=stereo|c0=c0+0.707*c2+0.707*c4|c1=c1+0.707*c2+0.707*c5''),
     ((''ac4'', ''7.0''), ''pan=5.0(side)|c0=c0|c1=c1|c2=c2|c3=0.707*c3+0.707*c5|c4=0.707*c4+0.707*c6,'' @ ''pan=stereo|c0=c0+0.707*c2+0.707*c3|c1=c1+0.707*c2+0.707*c4''),
     ((''ac4'', ''7.1''), ''pan=5.1(side)|c0=c0|c1=c1|c2=c2|c3=c3|c4=0.707*c4+0.707*c6|c5=0.707*c5+0.707*c7,'' @ ''pan=stereo|c0=c0+0.707*c2+0.707*c4|c1=c1+0.707*c2+0.707*c5'')]"

definition infer_channel_layout :: "int \<Rightarrow> string \<Rightarrow> string" where
  "infer_channel_layout channels layout = (let layout = trim_space layout in
     if layout \<noteq> [] then layout
     else (case map_of [(1, ''mono''), (2, ''stereo''), (3, ''2.1''), (4, ''4.0''), (5, ''5.0''), (6, ''5.1''), (7, ''6.1''),
         (8, ''7.1'')] channels of Some l \<Rightarrow> l | None \<Rightarrow> []))"

definition stereo_downmix_filter :: "string \<Rightarrow> int \<Rightarrow> string \<Rightarrow> string" where
  "stereo_downmix_filter algo channels layout =
     (if algo = ''none'' \<or> channels \<le> 2 then []
      else (case map_of downmix_pan_filters (algo, infer_channel_layout channels layout) of None \<Rightarrow> [] | Some f \<Rightarrow> f))"

text \<open>\<open>%g\<close> of a positive number with at most 14 decimals: the decimals without the zeros at the end.\<close>

definition show_decimal :: "rat \<Rightarrow> string" where
  "show_decimal x = trim_right (\<lambda>c. c = CHR ''.'') (trim_right (\<lambda>c. c = CHR ''0'') (fixed 14 x))"

definition volume_filter_value :: "rat \<Rightarrow> string" where
  "volume_filter_value boost = (if boost = 1 then [] else ''volume='' @ show_decimal boost)"

definition compose_audio_filter :: "string \<Rightarrow> int \<Rightarrow> string \<Rightarrow> rat \<Rightarrow> string" where
  "compose_audio_filter algo channels layout boost = (let
      boost = (if boost \<le> 0 then default_downmix_boost algo else boost);
      pan = stereo_downmix_filter algo channels layout;
      volume = volume_filter_value boost
    in if pan = [] \<and> volume = [] then [] else if pan = [] then volume else if volume = [] then pan
       else pan @ '','' @ volume)"

section \<open>Settings are normalised once\<close>

lemma parse_hw_accel_again: "parse_hw_accel raw = Inr v \<Longrightarrow> parse_hw_accel v = Inr v"
  by (auto simp: parse_hw_accel_def Let_def split: if_splits) (simp_all add: trim_space_def trim_both_def trim_left_def
      trim_right_def to_lower_def is_space_def lower_char_def)

lemma parse_downmix_again: "parse_downmix raw = Inr v \<Longrightarrow> parse_downmix v = Inr v"
proof -
  have fixed_points: "parse_downmix ''none'' = Inr ''none''" "parse_downmix ''ac4'' = Inr ''ac4''"
    "parse_downmix ''dave750'' = Inr ''dave750''" "parse_downmix ''nightmodeDialogue'' = Inr ''nightmodeDialogue''"
    "parse_downmix ''rfc7845'' = Inr ''rfc7845''" by code_simp+
  assume "parse_downmix raw = Inr v"
  then have "v \<in> set [''none'', ''ac4'', ''dave750'', ''nightmodeDialogue'', ''rfc7845'']"
    unfolding parse_downmix_def Let_def by (simp only: list.set insert_iff empty_iff split: if_splits) auto
  with fixed_points show ?thesis by auto
qed

lemma parse_tone_mapping_again: "parse_tone_mapping raw = Inr v \<Longrightarrow> parse_tone_mapping v = Inr v"
proof -
  have fixed_points: "parse_tone_mapping ''bt2390'' = Inr ''bt2390''" "parse_tone_mapping ''hable'' = Inr ''hable''"
    "parse_tone_mapping ''reinhard'' = Inr ''reinhard''" "parse_tone_mapping ''mobius'' = Inr ''mobius''" by code_simp+
  assume "parse_tone_mapping raw = Inr v"
  then have "v \<in> set [''bt2390'', ''hable'', ''reinhard'', ''mobius'']"
    unfolding parse_tone_mapping_def Let_def by (simp split: if_splits)
  with fixed_points show ?thesis by auto
qed

lemma parse_downmix_boost_again:
  "parse_downmix_boost raw algo = Inr b \<Longrightarrow> parse_downmix_boost b algo = Inr b \<and> 1 / 2 \<le> b \<and> b \<le> 3"
  by (auto simp: parse_downmix_boost_def default_downmix_boost_def split: if_splits)



end
