(* ===== verification/HlsSourceSafety.thy ===== *)
theory HlsSourceSafety
  imports HlsSource
begin

text \<open>
  What the model of a source guarantees: keyframe times come out strictly increasing whatever ffprobe printed, every
  packet is charged to the segment it lies in, and the default audio track is a real track. And where the language
  preference of a user goes wrong.
\<close>

section \<open>Keyframes\<close>

definition increasing_from :: "rat \<Rightarrow> rat list \<Rightarrow> bool" where
  "increasing_from b xs \<longleftrightarrow> sorted_wrt (<) xs \<and> list_all (\<lambda>x. 0 \<le> x \<and> x \<le> b) xs"

lemma increasing_from_snoc: "increasing_from b xs \<Longrightarrow> b < x \<Longrightarrow> 0 \<le> x \<Longrightarrow> increasing_from x (xs @ [x])"
  by (fastforce simp: increasing_from_def sorted_wrt_append list_all_iff)

lemma packet_step_increasing:
  assumes "increasing_from b (pi_keyframes i)" and "packet_step (i, b) line = (i', b')"
  shows "increasing_from b' (pi_keyframes i')"
  using assms increasing_from_snoc [OF assms(1)]
  by (auto simp: packet_step_def Let_def not_less not_le split: if_splits option.splits)

lemma packets_increasing:
  "increasing_from b (pi_keyframes i) \<Longrightarrow> foldl packet_step (i, b) ls = (i', b') \<Longrightarrow> increasing_from b' (pi_keyframes i')"
proof (induction ls arbitrary: i b)
  case (Cons l ls)
  obtain i1 b1 where step: "packet_step (i, b) l = (i1, b1)" by fastforce
  with Cons.IH packet_step_increasing [OF Cons.prems(1) step] Cons.prems(2) show ?case by simp
qed simp

lemma sorted_wrt_shift: "sorted_wrt (<) xs \<Longrightarrow> sorted_wrt (<) (map (\<lambda>k. k - s) xs)" for xs :: "rat list"
  by (simp add: sorted_wrt_map)

text \<open>Whatever text ffprobe prints, and whatever the start time of the container is, the keyframe times of the index are
  strictly increasing and none is negative, so the binary searches over them are meaningful.\<close>

lemma keyframes_strictly_increasing:
  "sorted_wrt (<) (pi_keyframes (normalize_index start (parse_packet_csv raw))) \<and>
   list_all (\<lambda>k. 0 \<le> k) (pi_keyframes (normalize_index start (parse_packet_csv raw)))"
proof -
  obtain i b where run: "foldl packet_step (\<lparr>pi_keyframes = [], pi_packets = []\<rparr>, -1) (split_on newline raw) = (i, b)"
    by fastforce
  have "increasing_from b (pi_keyframes i)" by (rule packets_increasing [OF _ run]) (simp add: increasing_from_def)
  with run have "sorted_wrt (<) (pi_keyframes (parse_packet_csv raw))"
    "list_all (\<lambda>k. 0 \<le> k) (pi_keyframes (parse_packet_csv raw))"
    by (simp_all add: parse_packet_csv_def increasing_from_def list_all_iff)
  then show ?thesis
    by (auto simp: normalize_index_def sorted_wrt_shift intro!: sorted_wrt_filter simp: list_all_iff)
qed

section \<open>Bitrates\<close>

lemma length_segment_starts [simp]: "length (segment_starts t segs) = length segs"
  by (induction segs arbitrary: t) auto

lemma nth_segment_starts: "k < length segs \<Longrightarrow> segment_starts t segs ! k = t + sum_list (take k segs)"
proof (induction segs arbitrary: t k)
  case (Cons x segs)
  then show ?case by (cases k) (auto simp: add.assoc)
qed simp

lemma packet_position_bound: "segs \<noteq> [] \<Longrightarrow> packet_position (segment_starts 0 segs) pts < length segs"
proof -
  assume "segs \<noteq> []"
  then have "0 < length segs" by simp
  moreover have "search_first (segment_starts 0 segs) x \<le> length segs" for x
    using length_takeWhile_le [of _ "segment_starts 0 segs"] by (simp add: search_first_def)
  then have "packet_position (segment_starts 0 segs) pts \<le> length segs - 1"
    unfolding packet_position_def by (rule diff_le_mono)
  ultimately show ?thesis by linarith
qed

lemma sum_list_add_at: "k < length xs \<Longrightarrow> sum_list (xs[k := xs ! k + n]) = sum_list xs + n" for n :: int
proof (induction xs arbitrary: k)
  case (Cons x xs)
  then show ?case by (cases k) auto
qed simp

lemma segment_bytes_sum:
  "segs \<noteq> [] \<Longrightarrow> length bs = length segs \<Longrightarrow>
    sum_list (foldl (\<lambda>bytes (pts, n). let pos = packet_position (segment_starts 0 segs) pts in
      bytes[pos := bytes ! pos + n]) bs packets) = sum_list bs + sum_list (map snd packets)"
  for bs :: "int list"
proof (induction packets arbitrary: bs)
  case (Cons p packets)
  obtain pts n where p: "p = (pts, n)" by fastforce
  have "packet_position (segment_starts 0 segs) pts < length bs" using packet_position_bound Cons.prems by simp
  from sum_list_add_at [OF this, of n] Cons show ?case by (simp add: p Let_def)
qed simp

lemma starts_increasing:
  assumes "list_all (\<lambda>x. 0 < x) segs" and "j < k" and "k < length segs"
  shows "segment_starts 0 segs ! j < segment_starts 0 segs ! k"
proof -
  have pos: "ys \<noteq> [] \<Longrightarrow> set ys \<subseteq> set segs \<Longrightarrow> 0 < sum_list ys" for ys
  proof (induction ys)
    case (Cons y ys)
    then have "0 < y" using assms(1) by (auto simp: list_all_iff)
    with Cons show ?case by (cases ys) (auto intro: add_pos_pos)
  qed simp
  have "take k segs = take j segs @ drop j (take k segs)" using assms by (metis append_take_drop_id min.absorb1 less_imp_le take_take)
  moreover have "0 < sum_list (drop j (take k segs))"
    by (rule pos) (use assms in \<open>auto dest: in_set_dropD in_set_takeD\<close>)
  ultimately have "sum_list (take j segs) < sum_list (take k segs)" by (metis less_add_same_cancel1 sum_list_append)
  with assms show ?thesis by (simp add: nth_segment_starts)
qed

lemma search_first_at:
  assumes "k < length xs" and "\<And>j. j \<le> k \<Longrightarrow> xs ! j < x" and "\<And>j. k < j \<Longrightarrow> j < length xs \<Longrightarrow> x \<le> xs ! j"
  shows "search_first xs x = Suc k"
proof -
  have "takeWhile (\<lambda>y. y < x) xs = take (Suc k) xs"
    by (rule takeWhile_eq_take_P_nth) (use assms in \<open>auto simp: less_Suc_eq_le not_less\<close>)
  with assms(1) show ?thesis by (simp add: search_first_def)
qed

text \<open>C35. The bandwidth of a copied stream is computed from all its packets: the bytes of the segments add up to the bytes
  of the packets, for any packet times, and a packet that lies within a segment of the table (up to a nanosecond) is charged
  to this segment. No packet leads outside the table.\<close>

theorem segment_bytes_conserved:
  assumes "segs \<noteq> []" and "list_all (\<lambda>x. 0 < x) segs" and "k < length segs"
    and "segment_start segs (int k) \<le> pts"
    and "pts + 1 / 1000000000 \<le> segment_start segs (int (Suc k))"
  shows "sum_list (segment_bytes segs packets) = sum_list (map snd packets) \<and>
    packet_position (segment_starts 0 segs) pts = k"
proof
  show "sum_list (segment_bytes segs packets) = sum_list (map snd packets)"
    using segment_bytes_sum [OF assms(1), of "replicate (length segs) 0" packets]
    by (simp add: segment_bytes_def sum_list_replicate)
  note le = starts_increasing [OF assms(2)]
  have at: "segment_starts 0 segs ! j = segment_start segs (int j)" if "j < length segs" for j
    using that by (simp add: nth_segment_starts segment_start_def)
  have "search_first (segment_starts 0 segs) (pts + 1 / 1000000000) = Suc k"
  proof (rule search_first_at)
    show "k < length (segment_starts 0 segs)" using assms by simp
    fix j
    show "segment_starts 0 segs ! j < pts + 1 / 1000000000" if "j \<le> k"
    proof -
      have "segment_starts 0 segs ! j \<le> segment_starts 0 segs ! k"
        using that assms le [of j k] by (cases "j = k") auto
      also have "\<dots> \<le> pts" using assms by (simp add: at)
      finally show ?thesis by (rule le_less_trans) simp
    qed
    show "pts + 1 / 1000000000 \<le> segment_starts 0 segs ! j" if "k < j" "j < length (segment_starts 0 segs)"
    proof -
      have "segment_starts 0 segs ! Suc k \<le> segment_starts 0 segs ! j"
        using that le [of "Suc k" j] by (cases "j = Suc k") auto
      moreover have "segment_starts 0 segs ! Suc k = segment_start segs (int (Suc k))" using that by (intro at) simp
      ultimately show ?thesis using assms(5) by linarith
    qed
  qed
  then show "packet_position (segment_starts 0 segs) pts = k" by (simp add: packet_position_def)
qed

lemma segment_bytes_conserved_witness:
  "sum_list (segment_bytes [6, 6, 3] [(-1, 100), (7, 50), (20, 5)]) = 155 \<and> packet_position (segment_starts 0 [6, 6, 3]) 7 = 1"
  using segment_bytes_conserved [of "[6, 6, 3]" 1 7 "[(-1, 100), (7, 50), (20, 5)]"]
  by (simp add: segment_start_def numeral_2_eq_2)

section \<open>Audio tracks\<close>

lemma first_index_Some:
  assumes "first_index P xs = Some i"
  shows "i < length xs \<and> P (xs ! i) \<and> (\<forall>j < i. \<not> P (xs ! j))"
proof -
  have i: "i = length (takeWhile (\<lambda>x. \<not> P x) xs)" "i < length xs"
    using assms by (auto simp: first_index_def Let_def split: if_splits)
  then have "P (xs ! i)" using nth_length_takeWhile [of "\<lambda>x. \<not> P x" xs] by simp
  moreover have "\<not> P (xs ! j)" if "j < i" for j
    using that i by (metis nth_mem set_takeWhileD takeWhile_nth)
  ultimately show ?thesis using i(2) by blast
qed

lemma first_index_None: "first_index P xs = None \<longleftrightarrow> (\<forall>x \<in> set xs. \<not> P x)"
proof -
  have "length (takeWhile (\<lambda>x. \<not> P x) xs) < length xs \<longleftrightarrow> takeWhile (\<lambda>x. \<not> P x) xs \<noteq> xs"
    by (metis length_takeWhile_le le_neq_implies_less less_irrefl takeWhile_eq_take take_all_iff)
  then show ?thesis by (simp add: first_index_def Let_def takeWhile_eq_all_conv)
qed

lemma pick_preferred_Some:
  "pick_preferred streams ps = Some i \<Longrightarrow> i < length streams \<and> \<not> as_commentary (streams ! i)"
  by (induction ps) (auto split: option.splits dest: first_index_Some)

text \<open>The default track is a track of the file, and never a commentary while there is another one: a language preference
  cannot select a commentary.\<close>

lemma default_audio_is_a_track:
  assumes "streams \<noteq> []"
  shows "0 \<le> select_default_audio streams langs \<and> select_default_audio streams langs < int (length streams) \<and>
    (as_commentary (streams ! nat (select_default_audio streams langs)) = list_all as_commentary streams)"
proof (cases "pick_preferred streams (normalize_language_prefs langs)")
  case (Some i)
  with assms pick_preferred_Some [OF Some] show ?thesis by (auto simp: select_default_audio_def list_all_length)
next
  case none: None
  show ?thesis
  proof (cases "first_index (\<lambda>s. \<not> as_commentary s) streams")
    case None
    then have "list_all as_commentary streams" by (simp add: first_index_None list_all_iff)
    with None none assms show ?thesis
      by (simp add: select_default_audio_def list_all_length)
  next
    case (Some i)
    with none assms first_index_Some [OF Some] show ?thesis
      by (auto simp: select_default_audio_def list_all_length)
  qed
qed

definition track :: "string \<Rightarrow> bool \<Rightarrow> audio_stream" where
  "track lang comment = \<lparr>as_index = 1, as_label = lang, as_codec = ''aac'', as_language = lang, as_channels = 2,
     as_channel_layout = [], as_commentary = comment\<rparr>"

lemma default_audio_is_a_track_witness:
  "select_default_audio [track ''eng'' True, track ''ger'' False, track ''eng'' False] [''EN''] = 2"
proof -
  let ?x = "select_default_audio [track ''eng'' True, track ''ger'' False, track ''eng'' False] [''EN'']"
  have "?x = 2" by code_simp
  with default_audio_is_a_track [of "[track ''eng'' True, track ''ger'' False, track ''eng'' False]" "[''EN'']"]
  show ?thesis by simp
qed

text \<open>The prefix rule for languages does not connect the two ISO codes: a user who prefers Spanish (\<open>es\<close>) gets the
  Estonian track (\<open>est\<close>), and never the Spanish one (\<open>spa\<close>) on account of the preference.\<close>

lemma spanish_selects_estonian:
  "select_default_audio [track ''spa'' False, track ''est'' False] [''es''] = 1 \<and>
   \<not> language_matches ''es'' ''spa''"
  by code_simp

end
