(* ===== verification/HlsRun.thy ===== *)
theory HlsRun
  imports HlsSettings HlsSourceSafety
begin

text \<open>
  One run of ffmpeg, \<open>internal/transcode/ffargs.go\<close> and the encoder arguments of \<open>job.go\<close>: where it starts, what it is
  told to cut, and its whole argument list. The main result is about stream copies, which can start at a keyframe only:
  the run begins after the keyframe before its target.
\<close>

section \<open>Runs\<close>

record segment_run =
  sr_media_path :: string
  sr_variant_dir :: string
  sr_meta :: source_meta
  sr_keyframes :: "rat list"
  sr_variant :: variant
  sr_start_index :: nat
  sr_encoder :: video_encoder
  sr_render :: string
  sr_tone_map :: tone_map_mode
  sr_tone_algo :: string
  sr_downmix :: string
  sr_downmix_boost :: rat

definition start_seconds :: "segment_run \<Rightarrow> rat" where
  "start_seconds r = segment_start (sm_segments (sr_meta r)) (int (sr_start_index r))"

definition run_cut_times :: "segment_run \<Rightarrow> rat list" where
  "run_cut_times r = cut_times (sm_segments (sr_meta r)) (sr_start_index r)"

definition can_copy_video :: "segment_run \<Rightarrow> bool" where
  "can_copy_video r \<longleftrightarrow> va_kind (sr_variant r) = VariantVideo \<and> copies_video_at (sr_meta r) (va_value (sr_variant r))"

definition copy_seek_preroll :: rat where "copy_seek_preroll = 3 / 2"

definition copy_seek_trim :: rat where "copy_seek_trim = 1 / 2"

definition keyframe_match_tolerance :: rat where "keyframe_match_tolerance = 2 / 1000"

definition copy_trim_at :: "rat list \<Rightarrow> rat \<Rightarrow> rat" where
  "copy_trim_at kfs start = (let pos = search_first kfs (start - keyframe_match_tolerance) in
     if length kfs \<le> pos \<or> keyframe_match_tolerance < \<bar>kfs ! pos - start\<bar> then 0
     else let trim = min copy_seek_trim start in
       if 0 < pos then min trim ((start - kfs ! (pos - 1)) / 2) else trim)"

definition copy_trim :: "segment_run \<Rightarrow> rat" where
  "copy_trim r = (let start = start_seconds r in
     if \<not> can_copy_video r \<or> start \<le> 0 then 0 else copy_trim_at (sr_keyframes r) start)"

section \<open>Encoder arguments\<close>

definition append_hw_global_args :: "video_encoder \<Rightarrow> string \<Rightarrow> string list" where
  "append_hw_global_args encoder render = (case encoder of
     EncoderNvenc \<Rightarrow> [''-hwaccel'', ''cuda'', ''-hwaccel_output_format'', ''cuda'']
   | EncoderQsv \<Rightarrow> [''-hwaccel'', ''qsv'', ''-hwaccel_output_format'', ''qsv'']
   | EncoderVaapi \<Rightarrow> if render = [] then []
       else [''-init_hw_device'', ''vaapi=va:'' @ render, ''-filter_hw_device'', ''va'']
   | EncoderRockchip \<Rightarrow> [''-init_hw_device'', ''rkmpp=rk'']
   | EncoderSoftware \<Rightarrow> [])"

definition software_scale_expr :: "int \<Rightarrow> string" where
  "software_scale_expr height = ''scale=-2:'' @ capped_height height"

definition nvenc_video_filter :: "quality_rung \<Rightarrow> tone_map_mode \<Rightarrow> string \<Rightarrow> string" where
  "nvenc_video_filter rung mode algo = (let scale_cuda = ''scale_cuda=-2:'' @ capped_height (qr_height rung) @ '':format=nv12'' in
     case mode of
       ToneMapCuda \<Rightarrow> join_filters [hw_tonemap_filter ''cuda'' ''nv12'' algo, scale_cuda]
     | ToneMapCpu \<Rightarrow> join_filters [cpu_tonemap_filter algo, software_scale_expr (qr_height rung) @ '',format=nv12,hwupload_cuda'']
     | _ \<Rightarrow> scale_cuda)"

definition qsv_video_filter :: "quality_rung \<Rightarrow> tone_map_mode \<Rightarrow> string \<Rightarrow> string" where
  "qsv_video_filter rung mode algo = (let scale_qsv = ''scale_qsv=-2:'' @ capped_height (qr_height rung) @ '':format=nv12'' in
     if mode = ToneMapQsvVpp then qsv_vpp_tonemap_scale (qr_height rung)
     else if mode = ToneMapCpu
       then join_filters [cpu_tonemap_filter algo, ''format=nv12,hwupload=extra_hw_frames=64,'' @ scale_qsv]
     else scale_qsv)"

definition vaapi_video_filter :: "quality_rung \<Rightarrow> tone_map_mode \<Rightarrow> string \<Rightarrow> string" where
  "vaapi_video_filter rung mode algo = (let scale_va = ''scale_vaapi=w=-2:h='' @ capped_height (qr_height rung) @ '':format=nv12'' in
     case mode of
       ToneMapVulkan \<Rightarrow> join_filters [vulkan_tonemap_filter ''nv12'' algo, ''hwupload'', scale_va]
     | ToneMapCpu \<Rightarrow> join_filters [cpu_tonemap_filter algo, ''format=nv12,hwupload'', scale_va]
     | _ \<Rightarrow> join_filters [''format=nv12,hwupload'', scale_va])"

definition rockchip_video_filter :: "quality_rung \<Rightarrow> tone_map_mode \<Rightarrow> string \<Rightarrow> string" where
  "rockchip_video_filter rung mode algo = (let scale = software_scale_expr (qr_height rung) in
     case mode of
       ToneMapOpencl \<Rightarrow> join_filters [''format=nv12,hwupload=derive_device=opencl'', hw_tonemap_filter ''opencl'' ''nv12'' algo,
         ''hwdownload,format=nv12'', scale]
     | ToneMapCpu \<Rightarrow> join_filters [cpu_tonemap_filter algo, scale]
     | _ \<Rightarrow> scale)"

definition software_video_filter :: "quality_rung \<Rightarrow> tone_map_mode \<Rightarrow> string \<Rightarrow> string" where
  "software_video_filter rung mode algo = (let scale = software_scale_expr (qr_height rung) in
     if mode \<noteq> ToneMapNone then join_filters [cpu_tonemap_filter algo, scale] else scale)"

definition append_video_encode_args :: "video_encoder \<Rightarrow> quality_rung \<Rightarrow> tone_map_mode \<Rightarrow> string \<Rightarrow> string list" where
  "append_video_encode_args encoder rung mode algo =
     (case encoder of
        EncoderNvenc \<Rightarrow> [''-vf'', nvenc_video_filter rung mode algo, ''-c:v'', encoder_name EncoderNvenc, ''-preset'', ''p4'']
      | EncoderQsv \<Rightarrow> [''-vf'', qsv_video_filter rung mode algo, ''-c:v'', encoder_name EncoderQsv]
      | EncoderVaapi \<Rightarrow> [''-vf'', vaapi_video_filter rung mode algo, ''-c:v'', encoder_name EncoderVaapi]
      | EncoderRockchip \<Rightarrow> [''-vf'', rockchip_video_filter rung mode algo, ''-c:v'', encoder_name EncoderRockchip]
      | EncoderSoftware \<Rightarrow> [''-vf'', software_video_filter rung mode algo, ''-c:v'', encoder_name EncoderSoftware,
          ''-preset'', ''veryfast'', ''-crf'', ''23''])
     @ [''-b:v'', qr_bitrate rung, ''-maxrate'', qr_max_rate rung, ''-bufsize'', qr_buf_size rung]"

section \<open>The argument list\<close>

definition format_seconds :: "rat \<Rightarrow> string" where
  "format_seconds x = fixed 6 x"

definition join_seconds :: "rat list \<Rightarrow> string" where
  "join_seconds xs = join_on CHR '','' (map format_seconds xs)"

definition map_input_stream :: "int \<Rightarrow> string" where
  "map_input_stream i = ''0:'' @ itoa i"

definition video_rendition_args :: "segment_run \<Rightarrow> rat list \<Rightarrow> string list" where
  "video_rendition_args r cuts = [''-map'', ''0:v:0'', ''-an'', ''-sn'', ''-dn''] @
     (if can_copy_video r then [''-c:v'', ''copy'']
      else append_video_encode_args (sr_encoder r) (ladder_rung (sm_height (sr_meta r)) (va_value (sr_variant r)))
          (sr_tone_map r) (sr_tone_algo r)
        @ (if cuts \<noteq> [] then [''-force_key_frames'', join_seconds cuts] else []) @ [''-sc_threshold'', ''0''])"

text \<open>The track exists: \<open>ResolveSegment\<close> has checked the variant (\<open>valid_variant\<close>).\<close>

definition audio_rendition_args :: "segment_run \<Rightarrow> string list" where
  "audio_rendition_args r = (let stream = sm_audio (sr_meta r) ! nat (va_value (sr_variant r));
      af = compose_audio_filter (sr_downmix r) (as_channels stream) (as_channel_layout stream) (sr_downmix_boost r)
    in [''-map'', map_input_stream (as_index stream), ''-vn'', ''-sn'', ''-dn''] @ (if af \<noteq> [] then [''-af'', af] else [])
       @ [''-c:a'', ''aac'', ''-ac'', ''2'', ''-b:a'', itoa 192 @ ''k''])"

definition segment_muxer_args :: "segment_run \<Rightarrow> rat list \<Rightarrow> string list" where
  "segment_muxer_args r cuts =
     [''-f'', ''segment'', ''-segment_format'', ''mpegts'', ''-segment_time_delta'', ''0.1'',
      ''-segment_start_number'', itoa (int (sr_start_index r)), ''-segment_list_type'', ''flat'',
      ''-segment_list'', path_join [sr_variant_dir r, ''segments.txt'']]
     @ (if cuts \<noteq> [] then [''-segment_times'', join_seconds cuts] else [])
     @ [path_join [sr_variant_dir r, segment_prefix @ ''%05d'' @ segment_ext]]"

text \<open>Where the input is entered, where the output begins after that, and the offset that is added to its times.\<close>

definition run_seeks :: "segment_run \<Rightarrow> rat \<times> rat option \<times> rat" where
  "run_seeks r = (let start = start_seconds r; trim = copy_trim r in
     if 0 < trim
     then let input = max (start - copy_seek_preroll) 0 in (input, Some (start - input - trim), start - trim)
     else (max start 0, None, start))"

definition build_segment_args :: "segment_run \<Rightarrow> string list" where
  "build_segment_args r = (let cuts = run_cut_times r in
     case run_seeks r of (input, output, offset) \<Rightarrow>
       [''-v'', ''warning'', ''-nostdin'']
       @ (if va_kind (sr_variant r) = VariantVideo \<and> \<not> can_copy_video r
          then append_hw_global_args (sr_encoder r) (sr_render r) else [])
       @ (if 0 < input then [''-ss'', format_seconds input] else [])
       @ [''-i'', sr_media_path r]
       @ (case output of None \<Rightarrow> [] | Some x \<Rightarrow> [''-ss'', format_seconds x])
       @ (if va_kind (sr_variant r) = VariantAudio then audio_rendition_args r else video_rendition_args r cuts)
       @ [''-output_ts_offset'', format_seconds offset, ''-muxdelay'', ''0'', ''-muxpreload'', ''0'',
          ''-avoid_negative_ts'', ''disabled'']
       @ segment_muxer_args r cuts)"

section \<open>Where a copy run begins\<close>

lemma search_first_below: "sorted_wrt (<) xs \<Longrightarrow> q < search_first xs x \<Longrightarrow> xs ! q < x"
  unfolding search_first_def by (metis nth_mem set_takeWhileD takeWhile_nth)

lemma copy_trim_positive:
  assumes trim: "0 < copy_trim_at kfs start" and kfs: "sorted_wrt (<) kfs"
  obtains p where "p < length kfs" and "\<bar>kfs ! p - start\<bar> \<le> keyframe_match_tolerance"
    and "copy_trim_at kfs start \<le> copy_seek_trim" and "copy_trim_at kfs start \<le> start"
    and "\<And>q. q < p \<Longrightarrow> kfs ! q < start - copy_trim_at kfs start"
proof -
  define p where "p = search_first kfs (start - keyframe_match_tolerance)"
  let ?t = "copy_trim_at kfs start"
  have found: "p < length kfs" "\<bar>kfs ! p - start\<bar> \<le> keyframe_match_tolerance"
    using trim by (auto simp: copy_trim_at_def p_def Let_def split: if_splits)
  then have t: "?t = (if 0 < p then min (min copy_seek_trim start) ((start - kfs ! (p - 1)) / 2) else min copy_seek_trim start)"
    by (simp add: copy_trim_at_def p_def Let_def)
  have before: "kfs ! q < start - ?t" if q: "q < p" for q
  proof -
    have "kfs ! (p - 1) < start - keyframe_match_tolerance"
      using q by (intro search_first_below [OF kfs]) (simp add: p_def)
    then have prev: "kfs ! (p - 1) < start" by (simp add: keyframe_match_tolerance_def)
    have "0 < p" using q by simp
    then have "?t \<le> (start - kfs ! (p - 1)) / 2" by (simp only: t if_True min.cobounded2)
    with prev have "kfs ! (p - 1) < start - ?t" by (simp add: field_simps)
    moreover have "kfs ! q \<le> kfs ! (p - 1)"
      using q found kfs by (cases "q = p - 1") (auto simp: sorted_wrt_iff_nth_less less_imp_le)
    ultimately show ?thesis by simp
  qed
  have "?t \<le> copy_seek_trim" "?t \<le> start" by (simp_all add: t min_le_iff_disj)
  with found before that show thesis by blast
qed


definition demo_meta :: source_meta where
  "demo_meta = \<lparr>sm_height = 720, sm_width = 1280, sm_duration = 20, sm_frame_rate = 25, sm_video_codec = ''h264'',
     sm_packaging = PackagingRemux, sm_pix_fmt = [], sm_color_transfer = [], sm_color_primaries = [], sm_color_space = [],
     sm_audio = [], sm_subtitles = [], sm_chapters = [], sm_segments = [7, 6, 7], sm_peak = 0, sm_average = 0\<rparr>"

definition demo_run :: segment_run where
  "demo_run = \<lparr>sr_media_path = ''/m/a.mkv'', sr_variant_dir = ''/c/k/v720'', sr_meta = demo_meta, sr_keyframes = [0, 7, 125 / 10, 13],
     sr_variant = \<lparr>va_kind = VariantVideo, va_value = 720\<rparr>, sr_start_index = 2, sr_encoder = EncoderSoftware, sr_render = [],
     sr_tone_map = ToneMapNone, sr_tone_algo = [], sr_downmix = [], sr_downmix_boost = 1\<rparr>"


end
