(* ===== verification/HlsVariantsSafety.thy ===== *)
theory HlsVariantsSafety
  imports HlsVariants
begin

text \<open>
  Names and URLs of renditions: round trips, the shape of the quality ladder, the confinement of the files that can
  be requested, and two inputs the code does not handle.
\<close>

section \<open>The ladder\<close>

lemma sorted_strict: "distinct xs \<Longrightarrow> sorted_wrt (>) (rev (sort xs))" for xs :: "int list"
  by (simp add: sorted_wrt_rev strict_sorted_iff)

lemma rung_heights_distinct: "distinct (map qr_height all_rungs)"
  by (simp add: all_rungs_def)

lemma quality_rungs_heights:
  assumes "0 < source"
  shows "distinct (map qr_height (quality_rungs source)) \<and> (\<forall>r \<in> set (quality_rungs source). qr_height r \<le> source)"
  using assms rung_heights_distinct
  by (auto simp: quality_rungs_def Let_def distinct_map_filter)

lemma rev_sort_hd:
  assumes "m \<in> set xs" and "\<And>x. x \<in> set xs \<Longrightarrow> x \<le> m"
  shows "hd (rev (sort xs)) = m"
proof -
  have "xs \<noteq> []" using assms(1) by auto
  then obtain ys y where sort: "sort xs = ys @ [y]" by (cases "sort xs" rule: rev_cases) (auto dest: arg_cong [of _ _ length])
  have set: "set xs = insert y (set ys)" by (metis sort set_sort set_append list.set Un_insert_right sup_bot.right_neutral)
  have "\<forall>x \<in> set ys. x \<le> y" using sorted_sort [of xs] by (simp add: sort sorted_append)
  with assms set have "y = m" by (metis antisym insertE insertI1)
  then show ?thesis by (simp add: sort)
qed

text \<open>The ladder of a source is strictly descending, starts with the height of the source itself and never goes above
  it: nothing is upscaled and the original resolution is always on offer.\<close>

lemma ladder_shape:
  assumes "0 < source"
  shows "sorted_wrt (>) (ladder_heights source) \<and> hd (ladder_heights source) = source \<and>
    list_all (\<lambda>h. 0 < h \<and> h \<le> source) (ladder_heights source)"
proof -
  let ?rungs = "quality_rungs source"
  define xs where "xs = (if 0 < source \<and> \<not> list_ex (\<lambda>r. qr_height r = source) ?rungs then [source] else []) @ map qr_height ?rungs"
  have ladder: "ladder_heights source = rev (sort xs)" by (simp add: ladder_heights_def xs_def Let_def)
  note heights = quality_rungs_heights [OF assms]
  have "distinct xs" using heights by (auto simp: xs_def list_ex_iff)
  moreover have mem: "source \<in> set xs" using assms by (auto simp: xs_def list_ex_iff)
  moreover have le: "x \<le> source" if "x \<in> set xs" for x using that heights by (auto simp: xs_def split: if_splits)
  moreover have "0 < x" if "x \<in> set xs" for x
    using that assms by (auto simp: xs_def quality_rungs_def all_rungs_def Let_def split: if_splits)
  ultimately show ?thesis by (simp add: ladder sorted_strict rev_sort_hd list_all_iff)
qed

lemma ladder_shape_witness: "ladder_heights 800 = [800, 720, 480, 360, 240] \<and> hd (ladder_heights 800) = 800"
proof -
  have "ladder_heights 800 = [800, 720, 480, 360, 240]" by code_simp
  with ladder_shape [of 800] show ?thesis by simp
qed

section \<open>Names of renditions\<close>

definition variant_ok :: "variant \<Rightarrow> bool" where
  "variant_ok v \<longleftrightarrow> va_value v \<le> max_int64 \<and> (if va_kind v = VariantVideo then 0 < va_value v else 0 \<le> va_value v)"

lemma dir_cases: "dir_of_variant v = (if va_kind v = VariantAudio then CHR ''a'' else CHR ''v'') # itoa (va_value v)"
  by (simp add: dir_of_variant_def audio_dir_def variant_dir_def)

lemma itoa_not_Nil [simp]: "itoa i \<noteq> []"
  by (simp add: itoa_def)

lemma parse_dir_of_variant:
  assumes "variant_ok v"
  shows "parse_variant_dir (dir_of_variant v) = Some v"
proof -
  have bounds: "0 \<le> va_value v" "va_value v \<le> max_int64"
    using assms by (auto simp: variant_ok_def split: if_splits)
  then have "atoi (itoa (va_value v)) = Some (va_value v)" by (intro atoi_itoa) (simp_all add: max_int64_def)
  moreover have "2 \<le> length (dir_of_variant v)" by (cases "itoa (va_value v)") (auto simp: dir_cases)
  ultimately show ?thesis
    using assms bounds by (cases v; cases "va_kind v") (auto simp: parse_variant_dir_def dir_cases variant_ok_def)
qed

lemma no_slash_number: "0 \<le> i \<Longrightarrow> CHR ''/'' \<notin> set (itoa i)"
  using itoa_digits not_digit(5) by blast

lemma no_dot_number: "0 \<le> i \<Longrightarrow> CHR ''.'' \<notin> set (itoa i)"
  using itoa_digits not_digit(3) by blast

lemma variant_dir_chars:
  assumes "variant_ok v"
  shows "CHR ''/'' \<notin> set (dir_of_variant v)" and "CHR ''.'' \<notin> set (dir_of_variant v)"
proof -
  have "0 \<le> va_value v" using assms by (auto simp: variant_ok_def split: if_splits)
  then show "CHR ''/'' \<notin> set (dir_of_variant v)" "CHR ''.'' \<notin> set (dir_of_variant v)"
    by (simp_all add: dir_cases no_slash_number no_dot_number)
qed

lemma segment_name_chars: "0 \<le> i \<Longrightarrow> CHR ''/'' \<notin> set (segment_name i)"
  using pad_zeros_digits not_digit(5)
  by (fastforce simp: segment_name_def segment_prefix_def segment_ext_def itoa_padded_def)

lemma split_variant_segment:
  assumes "variant_ok v" and "0 \<le> i" and "i \<le> max_int64"
  shows "split_segment_resource (dir_of_variant v @ CHR ''/'' # segment_name i) = Some (v, i)"
proof -
  have "split_on CHR ''/'' (dir_of_variant v @ CHR ''/'' # segment_name i) = [dir_of_variant v, segment_name i]"
    using variant_dir_chars [OF assms(1)] segment_name_chars [OF assms(2)]
    by (simp add: split_on_sep split_on_no_sep)
  moreover have "\<not> has_prefix (dir_of_variant v @ CHR ''/'' # segment_name i) ''/''"
    by (simp add: dir_cases has_prefix_def)
  ultimately show ?thesis
    using assms by (simp add: split_segment_resource_def trim_prefix_def parse_dir_of_variant)
qed

section \<open>Play URLs\<close>

lemma last_video_index_append:
  "last_video_index i (ss @ ts) found = last_video_index (i + length ss) ts (last_video_index i ss found)"
  by (induction ss arbitrary: i found) auto

lemma last_video_index_none:
  "\<forall>s \<in> set ss. \<not> is_video_extension (path_ext s) \<Longrightarrow> last_video_index i ss found = found"
  by (induction ss arbitrary: i) auto

lemma path_ext_none: "CHR ''.'' \<notin> set s \<Longrightarrow> path_ext s = []"
proof -
  assume nodot: "CHR ''.'' \<notin> set s"
  let ?P = "\<lambda>c. c \<noteq> CHR ''.'' \<and> c \<noteq> CHR ''/''"
  have "dropWhile ?P (rev s) = [] \<or> hd (dropWhile ?P (rev s)) \<noteq> CHR ''.''"
  proof (cases "dropWhile ?P (rev s)")
    case (Cons c cs)
    then have "c \<in> set s" by (metis list.set_intros(1) set_dropWhileD set_rev)
    with Cons nodot show ?thesis by auto
  qed simp
  moreover have "drop (length (takeWhile ?P (rev s))) (rev s) = dropWhile ?P (rev s)"
    by (rule dropWhile_eq_drop [symmetric])
  ultimately show ?thesis
    unfolding path_ext_def Let_def by (cases "dropWhile ?P (rev s)") auto
qed

lemma segment_not_video:
  assumes "0 \<le> i"
  shows "\<not> is_video_extension (path_ext (segment_name i))"
proof -
  have "rev (segment_name i) = ''st.'' @ rev (segment_prefix @ itoa_padded 5 i)"
    by (simp add: segment_name_def segment_ext_def)
  then have "path_ext (segment_name i) = ''.ts''" by (simp add: path_ext_def Let_def)
  then show ?thesis by (simp add: is_video_extension_def to_lower_def lower_char_def)
qed

text \<open>C27. The URL of a segment is taken apart into what it was made of: for every media path that ends with a video file,
  every rendition and every index, splitting the play URL gives the media path, and the rest of it gives the rendition and
  the index back.\<close>

theorem play_url_roundtrip:
  assumes media: "media \<noteq> []" "hd media \<noteq> CHR ''/''"
    and video: "is_video_extension (path_ext (last (split_on CHR ''/'' media)))"
    and v: "variant_ok v" and i: "0 \<le> i" "i \<le> max_int64"
  shows "split_play_path (media @ CHR ''/'' # dir_of_variant v @ CHR ''/'' # segment_name i) =
      Some (media, dir_of_variant v @ CHR ''/'' # segment_name i) \<and>
    split_segment_resource (dir_of_variant v @ CHR ''/'' # segment_name i) = Some (v, i)"
proof -
  let ?ms = "split_on CHR ''/'' media" and ?rs = "[dir_of_variant v, segment_name i]"
  let ?url = "media @ CHR ''/'' # dir_of_variant v @ CHR ''/'' # segment_name i"
  have rs: "split_on CHR ''/'' (dir_of_variant v @ CHR ''/'' # segment_name i) = ?rs"
    using variant_dir_chars [OF v] segment_name_chars [OF i(1)] by (simp add: split_on_sep split_on_no_sep)
  then have split: "split_on CHR ''/'' ?url = ?ms @ ?rs" by (simp only: split_on_append_sep)
  have "\<not> has_prefix ?url ''/''" using media by (cases media) (auto simp: has_prefix_def)
  then have trim: "trim_prefix ?url ''/'' = ?url" by (simp add: trim_prefix_def)
  have "hd (split_on CHR ''/'' media) \<noteq> []"
    using media by (cases media) (auto split: list.splits)
  then have first: "hd (?ms @ ?rs) \<noteq> []" by simp
  have "path_ext (dir_of_variant v) = []" by (rule path_ext_none) (rule variant_dir_chars(2) [OF v])
  then have "\<forall>s \<in> set ?rs. \<not> is_video_extension (path_ext s)"
    using segment_not_video [OF i(1)] by (simp add: is_video_extension_def to_lower_def)
  moreover obtain ns n where ms: "?ms = ns @ [n]" by (cases ?ms rule: rev_cases) auto
  ultimately have "last_video_index 0 (?ms @ ?rs) None = Some (length ns)"
    using video by (simp only: last_video_index_append last_video_index_none) (simp add: last_video_index_append)
  then have "split_with_video_ext (?ms @ ?rs) =
      Some (join_on CHR ''/'' (take (length ?ms) (?ms @ ?rs)), join_on CHR ''/'' (drop (length ?ms) (?ms @ ?rs)))"
    by (simp add: split_with_video_ext_def ms)
  also have "\<dots> = Some (media, dir_of_variant v @ CHR ''/'' # segment_name i)"
    by simp
  finally have "split_play_path ?url = Some (media, dir_of_variant v @ CHR ''/'' # segment_name i)"
    using first by (simp only: split_play_path_def Let_def trim split if_False option.case)
  with split_variant_segment [OF v i] show ?thesis by blast
qed

lemma play_url_roundtrip_witness:
  "split_play_path ''tv/a.mkv/v720/seg_00007.ts'' = Some (''tv/a.mkv'', ''v720/seg_00007.ts'') \<and>
   split_segment_resource ''v720/seg_00007.ts'' = Some (\<lparr>va_kind = VariantVideo, va_value = 720\<rparr>, 7)"
proof -
  let ?v = "\<lparr>va_kind = VariantVideo, va_value = 720\<rparr>"
  have "is_video_extension (path_ext (last (split_on CHR ''/'' ''tv/a.mkv'')))" by code_simp
  moreover have "dir_of_variant ?v = ''v720''" "segment_name 7 = ''seg_00007.ts''" by code_simp+
  ultimately show ?thesis
    using play_url_roundtrip [of "''tv/a.mkv''" ?v 7] by (simp add: variant_ok_def max_int64_def)
qed

text \<open>A file that the listing takes for a video by its MIME type alone can be out of reach: below a folder named like a
  rendition the play link of the listing is read as a resource of another file.\<close>

lemma rendition_folder_hides_video:
  "act_play (build_actions ''shows/v2/clip.flv'' ''video/x-flv'' ''.flv'' False) = ''/api/play/shows/v2/clip.flv/master.m3u8'' \<and>
   split_play_path ''shows/v2/clip.flv/master.m3u8'' = Some (''shows'', ''v2/clip.flv/master.m3u8'')"
  by code_simp

section \<open>Confinement of resources\<close>

lemma clean_segs_no_parent:
  "''..'' \<notin> set ss \<Longrightarrow> clean_segs acc ss = rev acc @ filter (\<lambda>s. s \<noteq> [] \<and> s \<noteq> ''.'') ss"
  by (induction ss arbitrary: acc) auto

lemma no_parent_segment:
  assumes "\<not> contains p ''..''"
  shows "''..'' \<notin> set (split_on CHR ''/'' p)"
proof
  assume "''..'' \<in> set (split_on CHR ''/'' p)"
  then obtain as bs where "split_on CHR ''/'' p = as @ ''..'' # bs" by (meson split_list)
  then have "p = join_on CHR ''/'' (as @ ''..'' # bs)" by (metis join_split)
  moreover have "sublist ''..'' (join_on CHR ''/'' (''..'' # bs))" by (cases bs) (auto simp: sublist_Cons_right)
  ultimately have "sublist ''..'' p"
    by (cases "as = []") (auto simp: join_on_append sublist_append intro: sublist_Cons_right [THEN iffD2])
  with assms show False by (simp add: contains_def)
qed

text \<open>C28. Whatever resource a play URL names, the file that is served lies below the cache directory of its source.\<close>

theorem resource_confined:
  assumes root: "media_root cache_dir" and key: "good_seg key"
    and served: "resource_path cache_dir key resource \<noteq> []"
  shows "is_within_root (cache_out_dir cache_dir key) (resource_path cache_dir key resource)"
proof -
  from served have ne: "resource \<noteq> []" and nodots: "\<not> contains resource ''..''"
    by (auto simp: resource_path_def split: if_splits)
  from root obtain ss where ss: "ss \<noteq> []" "\<forall>s \<in> set ss. good_seg s" and cache: "cache_dir = CHR ''/'' # join_on CHR ''/'' ss"
    by (auto simp: media_root_def)
  have sep: "\<forall>s \<in> set (ss @ [key]). CHR ''/'' \<notin> set s" using ss key good_segD(4) by auto
  have good: "\<forall>s \<in> set (ss @ [key]). good_seg s" using ss key by auto
  have split: "split_on CHR ''/'' (cache_dir @ CHR ''/'' # key @ rest) = [] # ss @ split_on CHR ''/'' (key @ rest)" for rest
  proof -
    have "split_on CHR ''/'' cache_dir = [] # ss"
      using sep ss by (simp only: cache join_rooted_split) (simp add: split_join)
    then show ?thesis by (simp only: split_on_append_sep append_Cons)
  qed
  let ?out = "CHR ''/'' # join_on CHR ''/'' (ss @ [key])"
  have out: "cache_out_dir cache_dir key = ?out"
    using path_join_root [OF root, of key] key sep ss
    by (simp add: cache_out_dir_def safe_rel_def split_on_no_sep join_on_append cache good_segD)
  let ?rest = "filter (\<lambda>s. s \<noteq> [] \<and> s \<noteq> ''.'') (split_on CHR ''/'' resource)"
  have "resource_path cache_dir key resource = clean_rooted (cache_dir @ CHR ''/'' # key @ CHR ''/'' # resource)"
    using ne nodots good_segD(1) [OF key] by (simp add: resource_path_def path_join_def clean_path_def cache has_prefix_def)
  also have "\<dots> = CHR ''/'' # join_on CHR ''/'' ((ss @ [key]) @ ?rest)"
  proof -
    have "split_on CHR ''/'' (key @ CHR ''/'' # resource) = key # split_on CHR ''/'' resource"
      using sep by (simp add: split_on_sep)
    then have all: "split_on CHR ''/'' (cache_dir @ CHR ''/'' # key @ CHR ''/'' # resource) = [] # (ss @ [key]) @ split_on CHR ''/'' resource"
      using split [of "CHR ''/'' # resource"] by simp
    have "''..'' \<notin> set ([] # (ss @ [key]) @ split_on CHR ''/'' resource)"
      using good no_parent_segment [OF nodots] by (auto simp: good_segD)
    moreover have "filter (\<lambda>s. s \<noteq> [] \<and> s \<noteq> ''.'') ss = ss" "key \<noteq> []" "key \<noteq> ''.''"
      using good by (auto intro!: filter_True simp: good_segD)
    ultimately have "clean_segs [] ([] # (ss @ [key]) @ split_on CHR ''/'' resource) = (ss @ [key]) @ ?rest"
      by (subst clean_segs_no_parent) simp_all
    then show ?thesis by (simp only: clean_rooted_def all)
  qed
  finally have path: "resource_path cache_dir key resource = CHR ''/'' # join_on CHR ''/'' ((ss @ [key]) @ ?rest)" .
  show ?thesis
  proof (cases "?rest = []")
    case True
    then show ?thesis by (simp add: path out)
  next
    case False
    then have "join_on CHR ''/'' ((ss @ [key]) @ ?rest) = join_on CHR ''/'' (ss @ [key]) @ CHR ''/'' # join_on CHR ''/'' ?rest"
      by (intro join_on_append) simp_all
    then have "resource_path cache_dir key resource = ?out @ CHR ''/'' # join_on CHR ''/'' ?rest"
      by (simp only: path append_Cons)
    moreover have "media_root ?out" unfolding media_root_def by (rule exI [of _ "ss @ [key]"]) (use good in simp)
    then have "\<not> has_suffix ?out ''/''" by (rule media_root_no_trailing)
    ultimately show ?thesis by (simp only: out) (rule within_root_below)
  qed
qed

lemma resource_confined_witness:
  "resource_path ''/cache'' ''k1'' ''v720//./seg_00001.ts'' = ''/cache/k1/v720/seg_00001.ts'' \<and>
   is_within_root (cache_out_dir ''/cache'' ''k1'') ''/cache/k1/v720/seg_00001.ts''"
proof -
  have path: "resource_path ''/cache'' ''k1'' ''v720//./seg_00001.ts'' = ''/cache/k1/v720/seg_00001.ts''" by code_simp
  have "media_root ''/cache''" unfolding media_root_def by (rule exI [of _ "[''cache'']"]) (simp add: good_seg_def)
  moreover have "good_seg ''k1''" by (simp add: good_seg_def)
  ultimately show ?thesis using resource_confined [of "''/cache''" "''k1''" "''v720//./seg_00001.ts''"] path by simp
qed

section \<open>Bandwidth\<close>

lemma bitrates_ordered: "segment_bitrates segs packets = (peak, average) \<Longrightarrow> average \<le> peak"
  by (auto simp: segment_bitrates_def Let_def split: if_splits)

lemma meta_bitrates_ordered: "sm_average (source_meta_from_probe s packets) \<le> sm_peak (source_meta_from_probe s packets)"
proof -
  let ?segs = "segment_table (pi_keyframes packets) (si_duration s) segment_target"
  obtain p a where pa: "segment_bitrates ?segs (pi_packets packets) = (p, a)" by fastforce
  then have "a \<le> p" by (rule bitrates_ordered)
  then show ?thesis by (simp add: source_meta_from_probe_def Let_def pa)
qed

lemma rung_bandwidth_ordered:
  assumes "sm_average m \<le> sm_peak m" and "rung_bandwidth m height = (peak, average)"
  shows "0 < average \<and> average \<le> peak"
proof (cases "copies_video_at m height \<and> 0 < sm_peak m")
  case True
  with assms show ?thesis by (auto simp: rung_bandwidth_def Let_def split: if_splits)
next
  case False
  define p where "p = (let p = bitrate_to_int (qr_max_rate (ladder_rung (sm_height m) height)) in if p \<le> 0 then 1400000 else p)"
  define a where "a = (let a = bitrate_to_int (qr_bitrate (ladder_rung (sm_height m) height)) in if a \<le> 0 \<or> p < a then p else a)"
  define audio :: int where "audio = (if sm_audio m \<noteq> [] then 192 * 1000 else 0)"
  have "rung_bandwidth m height = (p + audio, a + audio)"
    unfolding rung_bandwidth_def Let_def if_not_P [OF False] p_def a_def audio_def ..
  moreover have "0 < p" "0 \<le> audio" by (simp_all add: p_def audio_def Let_def)
  moreover have "0 < a \<and> a \<le> p" using \<open>0 < p\<close> by (simp add: a_def Let_def)
  ultimately show ?thesis using assms(2) by simp
qed

text \<open>The master playlist advertises a consistent bandwidth for every rung of a probed source: the average is positive
  and at most the peak.\<close>

lemma bandwidth_consistent:
  "case rung_bandwidth (source_meta_from_probe s packets) height of (peak, average) \<Rightarrow> 0 < average \<and> average \<le> peak"
proof -
  obtain p a where pa: "rung_bandwidth (source_meta_from_probe s packets) height = (p, a)" by fastforce
  from rung_bandwidth_ordered [OF meta_bitrates_ordered pa] show ?thesis by (simp add: pa)
qed

section \<open>Labels in the master playlist\<close>

lemma label_line:
  assumes audio: "sm_audio m = [a]" and label: "escape_attr (as_label a) = p @ newline # l @ newline # q"
    and l: "newline \<notin> set l"
  shows "l \<in> set (split_on newline (build_master_playlist m subs))"
proof -
  define p' where "p' = ''#EXT-X-MEDIA:TYPE=AUDIO,GROUP-ID='' @ quoted ''aud'' @ '',NAME='' @ [CHR 0x22]"
  have "\<exists>q'. audio_tag (0, a) = p' @ escape_attr (as_label a) @ q'"
    by (simp add: audio_tag_def quoted_def p'_def)
  then obtain q' where "audio_tag (0, a) = p' @ (p @ newline # l @ newline # q) @ q'" unfolding label by blast
  then have tag: "audio_tag (0, a) = (p' @ p) @ newline # l @ newline # (q @ q')" by simp
  let ?head = "[hls_header, hls_version, ''#EXT-X-INDEPENDENT-SEGMENTS'']"
  obtain rest where "master_playlist_lines m subs = (?head @ [audio_tag (0, a)]) @ rest" "rest \<noteq> []"
    by (simp add: master_playlist_lines_def audio_media_tags_def audio)
  then have "build_master_playlist m subs = join_on newline (?head @ [audio_tag (0, a)]) @ newline # join_on newline rest"
    unfolding build_master_playlist_def by (simp only: join_on_append append_is_Nil_conv list.distinct not_Cons_self2 simp_thms)
  also have "join_on newline (?head @ [audio_tag (0, a)]) = join_on newline ?head @ newline # audio_tag (0, a)" by simp
  finally have "build_master_playlist m subs =
      (join_on newline ?head @ newline # (p' @ p)) @ newline # l @ newline # (q @ q') @ newline # join_on newline rest"
    by (simp add: tag)
  then show ?thesis by (simp only: split_on_append_sep split_on_no_sep [OF l]) simp
qed

definition one_audio :: "string \<Rightarrow> source_meta" where
  "one_audio label = \<lparr>sm_height = 240, sm_width = 320, sm_duration = 6, sm_frame_rate = 25, sm_video_codec = ''h264'',
     sm_packaging = PackagingTranscode, sm_pix_fmt = [], sm_color_transfer = [], sm_color_primaries = [], sm_color_space = [],
     sm_audio = [\<lparr>as_index = 1, as_label = label, as_codec = ''aac'', as_language = [], as_channels = 2,
       as_channel_layout = [], as_commentary = False\<rparr>],
     sm_subtitles = [], sm_chapters = [], sm_segments = [6], sm_peak = 0, sm_average = 0\<rparr>"

definition titled_stream :: "string \<Rightarrow> probe_stream" where
  "titled_stream title = \<lparr>ps_index = 1, ps_codec_type = ''audio'', ps_codec_name = ''aac'', ps_frame_rate = [], ps_width = 0,
     ps_height = 0, ps_channels = 2, ps_channel_layout = [], ps_pix_fmt = [], ps_color_transfer = [], ps_color_primaries = [],
     ps_color_space = [], ps_tags = [(''title'', title)], ps_disposition = []\<rparr>"

text \<open>A line break in the title of an audio track ends its tag in the master playlist: the rest of the title becomes a
  line of its own, here the address of another server.\<close>

lemma track_title_injects_line:
  "''https://evil/x.m3u8'' \<in> set (split_on newline (build_master_playlist
      (one_audio (audio_label (titled_stream (''x'' @ newline # ''https://evil/x.m3u8'' @ newline # ''y'')))) subs))"
proof (rule label_line)
  let ?title = "''x'' @ newline # ''https://evil/x.m3u8'' @ newline # ''y''"
  show "sm_audio (one_audio (audio_label (titled_stream ?title))) =
      [\<lparr>as_index = 1, as_label = audio_label (titled_stream ?title), as_codec = ''aac'', as_language = [], as_channels = 2,
        as_channel_layout = [], as_commentary = False\<rparr>]" by (simp add: one_audio_def)
  have "audio_label (titled_stream ?title) = ?title" "escape_attr ?title = ?title" by code_simp+
  then show "escape_attr (as_label \<lparr>as_index = 1, as_label = audio_label (titled_stream ?title), as_codec = ''aac'',
      as_language = [], as_channels = 2, as_channel_layout = [], as_commentary = False\<rparr>) =
      ''x'' @ newline # ''https://evil/x.m3u8'' @ newline # ''y''" by simp
  show "newline \<notin> set ''https://evil/x.m3u8''" by (simp add: newline_def)
qed

end
