(* ===== verification/HlsRewrite.thy ===== *)
theory HlsRewrite
  imports HlsTimeline GoPath
begin

text \<open>
  Playlists on their way to a client, \<open>internal/transcode/playlist.go\<close>: the access token is appended to every URI, and an
  event playlist of ffmpeg is made a finished one. The main result: rewriting twice is rewriting once, and no URI line is
  left without a token.
\<close>

section \<open>Text functions\<close>

text \<open>\<open>url.QueryEscape\<close>.\<close>

definition query_unreserved :: "char \<Rightarrow> bool" where
  "query_unreserved c \<longleftrightarrow> (let n = of_char c :: nat in
     n \<in> {48..57} \<union> {65..90} \<union> {97..122} \<or> n = 45 \<or> n = 46 \<or> n = 95 \<or> n = 126)"

definition query_escape_char :: "char \<Rightarrow> string" where
  "query_escape_char c =
     (if query_unreserved c then [c] else if c = CHR '' '' then ''+''
      else [CHR ''%'', hex_digit ((of_char c :: nat) div 16), hex_digit ((of_char c :: nat) mod 16)])"

definition query_escape :: "string \<Rightarrow> string" where
  "query_escape s = concat (map query_escape_char s)"

text \<open>The text before and after the first occurrence (\<open>strings.Index\<close>).\<close>

fun cut_at :: "string \<Rightarrow> string \<Rightarrow> (string \<times> string) option" where
  "cut_at p [] = (if p = [] then Some ([], []) else None)"
| "cut_at p (c # cs) = (if has_prefix (c # cs) p then Some ([], drop (length p) (c # cs))
     else map_option (\<lambda>(a, b). (c # a, b)) (cut_at p cs))"

lemma cut_at_Some: "cut_at p s = Some (a, b) \<Longrightarrow> s = a @ p @ b"
proof (induction p s arbitrary: a b rule: cut_at.induct)
  case (2 p c cs)
  then show ?case by (auto simp: has_prefix_append split: if_splits)
qed (simp split: if_splits)

section \<open>Access tokens\<close>

definition access_key :: string where "access_key = ''access_token=''"

definition uri_key :: string where "uri_key = ''URI='' @ [CHR 0x22]"

definition append_access_token :: "string \<Rightarrow> string \<Rightarrow> string" where
  "append_access_token uri tok =
     (if tok = [] \<or> contains uri access_key then uri
      else uri @ (if contains uri ''?'' then ''&'' else ''?'') @ access_key @ query_escape tok)"

definition rewrite_tag_uri :: "string \<Rightarrow> string \<Rightarrow> string" where
  "rewrite_tag_uri line tok = (case cut_at uri_key line of
     None \<Rightarrow> line
   | Some (before, rest) \<Rightarrow>
       if CHR 0x22 \<notin> set rest then line
       else let uri = takeWhile (\<lambda>c. c \<noteq> CHR 0x22) rest in
         before @ uri_key @ append_access_token uri tok @ drop (length uri) rest)"

definition rewrite_playlist_line :: "string \<Rightarrow> string \<Rightarrow> string" where
  "rewrite_playlist_line line tok = (let trimmed = trim_space line in
     if trimmed = [] then line
     else if has_prefix trimmed ''#''
       then (if contains trimmed uri_key then rewrite_tag_uri line tok else line)
     else append_access_token trimmed tok)"

definition rewrite_playlist_tokens :: "string \<Rightarrow> string \<Rightarrow> string" where
  "rewrite_playlist_tokens body tok =
     (if tok = [] then body
      else join_on newline (map (\<lambda>l. rewrite_playlist_line l tok) (split_on newline body)))"

section \<open>Finished playlists\<close>

definition playlist_has_end_list :: "string \<Rightarrow> bool" where
  "playlist_has_end_list body = contains body ''#EXT-X-ENDLIST''"

definition playlist_cache_control :: "string \<Rightarrow> string" where
  "playlist_cache_control body = (if playlist_has_end_list body then ''private, max-age=3600''
     else ''no-cache, no-store, must-revalidate'')"

definition is_master_playlist :: "string \<Rightarrow> bool" where
  "is_master_playlist body = contains body ''#EXT-X-STREAM-INF:''"

text \<open>The last discontinuity before the first segment is removed.\<close>

fun drop_last_discontinuity :: "string list \<Rightarrow> string list" where
  "drop_last_discontinuity [] = []"
| "drop_last_discontinuity (l # ls) =
     (if trim_space l = ''#EXT-X-DISCONTINUITY'' \<and> \<not> list_ex (\<lambda>k. trim_space k = ''#EXT-X-DISCONTINUITY'') ls then ls
      else l # drop_last_discontinuity ls)"

definition strip_leading_discontinuity :: "string \<Rightarrow> string" where
  "strip_leading_discontinuity body = (let ls = split_on newline body;
      head = takeWhile (\<lambda>l. \<not> has_prefix (trim_space l) ''#EXTINF:'') ls
    in if length head = length ls \<or> head = [] then body
       else join_on newline (drop_last_discontinuity head @ drop (length head) ls))"

definition normalize_playlist_for_client :: "string \<Rightarrow> string" where
  "normalize_playlist_for_client body = (let body = strip_leading_discontinuity body in
     if contains body ''#EXT-X-ENDLIST''
     then (case cut_at ''#EXT-X-PLAYLIST-TYPE:EVENT'' body of
         None \<Rightarrow> body | Some (a, b) \<Rightarrow> a @ ''#EXT-X-PLAYLIST-TYPE:VOD'' @ b)
     else body)"

section \<open>Lemmas\<close>

lemma cut_at_again: "cut_at p s = Some (a, b) \<Longrightarrow> cut_at p (a @ p @ b') = Some (a, b')"
proof (induction p s arbitrary: a b rule: cut_at.induct)
  case (1 p)
  then show ?case by (cases b') (auto simp: has_prefix_def split: if_splits)
next
  case (2 p c cs)
  show ?case
  proof (cases "has_prefix (c # cs) p")
    case True
    with 2 have "a = []" by simp
    then show ?thesis
      by (cases "p @ b'") (auto simp: has_prefix_def dest!: sym [of "p @ b'"])
  next
    case False
    with 2 obtain a' where a: "a = c # a'" "cut_at p cs = Some (a', b)" by auto
    then have cs: "c # cs = a @ p @ b" using cut_at_Some by fastforce
    have "\<not> has_prefix (c # a' @ p @ b') p"
    proof
      assume "has_prefix (c # a' @ p @ b') p"
      then have "prefix p (a @ p @ b')" by (simp add: has_prefix_def a)
      then have "prefix p (a @ p)"
        by (metis append_assoc prefix_length_prefix prefixI length_append le_add2)
      then have "prefix p (a @ p @ b)" by (metis append_assoc prefix_prefix)
      with False cs show False by (simp add: has_prefix_def)
    qed
    with 2(1) [OF False a(2)] a(1) show ?thesis by simp
  qed
qed

lemma hex_digit_range: "n < 16 \<Longrightarrow> (of_char (hex_digit n) :: nat) \<in> {48..57} \<union> {65..70}"
  by (simp add: hex_digit_def)

lemma query_escape_chars:
  assumes "c \<in> set (query_escape s)"
  shows "\<not> is_space c \<and> c \<noteq> CHR 0x22 \<and> c \<noteq> newline"
proof -
  obtain d where d: "c \<in> set (query_escape_char d)" using assms by (auto simp: query_escape_def)
  have "(of_char c :: nat) \<in> {37} \<union> {43} \<union> {45..46} \<union> {48..57} \<union> {65..90} \<union> {95} \<union> {97..122} \<union> {126}"
  proof (cases "query_unreserved d")
    case True
    with d show ?thesis by (auto simp: query_escape_char_def query_unreserved_def Let_def)
  next
    case False
    show ?thesis
      using d False of_char_div_16 [of d] hex_digit_range [of "of_char d div 16"] hex_digit_range [of "of_char d mod 16"]
      by (auto simp: query_escape_char_def split: if_splits)
  qed
  then show ?thesis by (auto simp: is_space_def Let_def newline_def)
qed


lemma access_key_chars: "c \<in> set access_key \<Longrightarrow> \<not> is_space c \<and> c \<noteq> CHR 0x22 \<and> c \<noteq> newline"
  by (auto simp: access_key_def is_space_def newline_def Let_def)

text \<open>A token that is appended adds text without white space, quotes and line breaks, and leaves its key.\<close>

lemma append_token:
  assumes "tok \<noteq> []"
  obtains more where "append_access_token uri tok = uri @ more" and "contains (uri @ more) access_key"
    and "\<forall>c \<in> set more. \<not> is_space c \<and> c \<noteq> CHR 0x22 \<and> c \<noteq> newline"
proof (cases "contains uri access_key")
  case True
  with that [of "[]"] show thesis by (simp add: append_access_token_def)
next
  case False
  define sep where "sep = (if contains uri ''?'' then ''&'' else ''?'')"
  have "append_access_token uri tok = uri @ sep @ access_key @ query_escape tok"
    using False assms by (simp add: append_access_token_def sep_def)
  moreover have "uri @ sep @ access_key @ query_escape tok = (uri @ sep) @ access_key @ query_escape tok" by simp
  then have "contains (uri @ sep @ access_key @ query_escape tok) access_key"
    unfolding contains_def sublist_def by blast
  moreover have "\<forall>c \<in> set (sep @ access_key @ query_escape tok). \<not> is_space c \<and> c \<noteq> CHR 0x22 \<and> c \<noteq> newline"
    using access_key_chars query_escape_chars [of _ tok] by (auto simp: sep_def is_space_def newline_def Let_def)
  ultimately show thesis by (rule that)
qed

lemma append_token_again: "append_access_token (append_access_token uri tok) tok = append_access_token uri tok"
proof (cases "tok = []")
  case True
  then show ?thesis by (simp add: append_access_token_def)
next
  case False
  then obtain more where "append_access_token uri tok = uri @ more" "contains (uri @ more) access_key"
    by (rule append_token)
  then show ?thesis by (simp add: append_access_token_def [of "uri @ more"])
qed

lemma rewrite_tag_uri_no_token: "rewrite_tag_uri line [] = line"
proof (cases "cut_at uri_key line")
  case None
  then show ?thesis by (simp add: rewrite_tag_uri_def)
next
  case (Some ab)
  obtain before rest where ab: "ab = (before, rest)" by fastforce
  have "takeWhile P rest @ drop (length (takeWhile P rest)) rest = rest" for P
    by (metis dropWhile_eq_drop takeWhile_dropWhile_id)
  with Some ab cut_at_Some [of uri_key line before rest] show ?thesis
    by (simp add: rewrite_tag_uri_def append_access_token_def Let_def)
qed

lemma rewrite_tag_uri_again: "rewrite_tag_uri (rewrite_tag_uri line tok) tok = rewrite_tag_uri line tok"
proof (cases "tok = []")
  case True
  then show ?thesis by (simp add: rewrite_tag_uri_no_token)
next
  case tok: False
  show ?thesis
  proof (cases "cut_at uri_key line")
    case None
    then show ?thesis by (simp add: rewrite_tag_uri_def)
  next
    case (Some ab)
    obtain before rest where ab: "ab = (before, rest)" by fastforce
    note cut = Some [unfolded ab]
    show ?thesis
    proof (cases "CHR 0x22 \<in> set rest")
      case False
      with cut show ?thesis by (simp add: rewrite_tag_uri_def)
    next
      case True
      let ?quote = "\<lambda>c. c \<noteq> CHR 0x22"
      define uri where "uri = takeWhile ?quote rest"
      define post where "post = drop (length uri) rest"
      have drop: "post = dropWhile ?quote rest" by (simp add: post_def uri_def dropWhile_eq_drop)
      then have ne: "post \<noteq> []" using True by (simp add: dropWhile_eq_Nil_conv)
      then have "hd post = CHR 0x22" using hd_dropWhile [of ?quote rest] by (simp add: drop)
      with ne obtain q where post: "post = CHR 0x22 # q" by (cases post) simp_all
      obtain more where more: "append_access_token uri tok = uri @ more"
        "\<forall>c \<in> set more. \<not> is_space c \<and> c \<noteq> CHR 0x22 \<and> c \<noteq> newline"
        by (rule append_token [OF tok])
      define u where "u = append_access_token uri tok"
      have no_quote: "\<forall>c \<in> set u. ?quote c"
      proof -
        have "u = uri @ more" by (simp only: u_def more(1))
        moreover have "?quote c" if "c \<in> set uri" for c using that unfolding uri_def by (blast dest: set_takeWhileD)
        ultimately show ?thesis using more(2) by auto
      qed
      have once: "rewrite_tag_uri line tok = before @ uri_key @ u @ post"
        unfolding rewrite_tag_uri_def cut u_def post_def uri_def using True by (simp add: Let_def)
      have cut': "cut_at uri_key (before @ uri_key @ u @ post) = Some (before, u @ post)"
        by (rule cut_at_again [OF cut])
      have tw: "takeWhile ?quote (u @ post) = u" using no_quote by (simp add: post takeWhile_append2)
      have again: "append_access_token u tok = u" unfolding u_def by (rule append_token_again)
      have "CHR 0x22 \<in> set (u @ post)" by (simp add: post)
      then have "rewrite_tag_uri (before @ uri_key @ u @ post) tok = before @ uri_key @ u @ post"
        unfolding rewrite_tag_uri_def cut' by (simp add: tw again)
      then show ?thesis unfolding once .
    qed
  qed
qed

text \<open>The first character of the trimmed line, and what follows it, decide what happens to a line.\<close>

lemma dropWhile_snoc: "\<not> P c \<Longrightarrow> dropWhile P (xs @ [c]) = dropWhile P xs @ [c]"
  by (induction xs) auto

lemma trim_starts:
  "\<not> is_space c \<Longrightarrow> \<forall>d \<in> set ws. is_space d \<Longrightarrow> \<exists>t. trim_space (ws @ c # s) = c # t"
proof -
  assume c: "\<not> is_space c" and ws: "\<forall>d \<in> set ws. is_space d"
  then have "trim_left is_space (ws @ c # s) = c # s" by (simp add: trim_left_def dropWhile_append2)
  moreover have "\<exists>t. trim_right is_space (c # s) = c # t"
    using c by (simp add: trim_right_def dropWhile_snoc)
  ultimately show ?thesis by (simp add: trim_space_def trim_both_def)
qed

lemma trimmed_split:
  assumes "trim_space l = c # t"
  obtains ws s where "l = ws @ c # s" and "\<forall>d \<in> set ws. is_space d" and "\<not> is_space c"
proof -
  let ?d = "dropWhile is_space l"
  have "?d \<noteq> []"
  proof
    assume "?d = []"
    then have "trim_space l = []" by (simp only: trim_space_def trim_both_def trim_left_def trim_right_def) simp
    with assms show False by simp
  qed
  then obtain c' s where d: "?d = c' # s" by (cases ?d) auto
  then have c': "\<not> is_space c'" using hd_dropWhile [of is_space l] by simp
  have l: "l = takeWhile is_space l @ c' # s" by (metis d takeWhile_dropWhile_id)
  have ws: "\<forall>d \<in> set (takeWhile is_space l). is_space d" by (auto dest: set_takeWhileD)
  from trim_starts [OF c' ws, of s] l assms have "c' = c" by (metis list.inject)
  with that [OF _ ws] l c' show thesis by metis
qed

lemma tag_line_stays:
  assumes "trim_space l = CHR ''#'' # t"
  shows "\<exists>t'. trim_space (rewrite_tag_uri l tok) = CHR ''#'' # t'"
proof -
  obtain ws s where l: "l = ws @ CHR ''#'' # s" and ws: "\<forall>d \<in> set ws. is_space d" and c: "\<not> is_space CHR ''#''"
    using assms by (rule trimmed_split)
  show ?thesis
  proof (cases "cut_at uri_key l")
    case None
    with assms show ?thesis by (simp add: rewrite_tag_uri_def)
  next
    case (Some ab)
    obtain before rest where ab: "ab = (before, rest)" by fastforce
    note cut = Some [unfolded ab]
    from cut_at_Some [OF cut] have eq: "ws @ CHR ''#'' # s = before @ uri_key @ rest" by (simp add: l)
    have "\<exists>b. before = ws @ CHR ''#'' # b"
    proof (cases "length before \<le> length ws")
      case True
      then obtain ws' where ws': "ws = before @ ws'" using eq by (metis append_eq_append_conv_if append_take_drop_id)
      then have "ws' @ CHR ''#'' # s = uri_key @ rest" using eq by simp
      then have "hd (ws' @ CHR ''#'' # s) = CHR ''U''" by (simp add: uri_key_def)
      with ws ws' show ?thesis by (cases ws') (auto simp: is_space_def)
    next
      case False
      then obtain b where "before = ws @ b" "b \<noteq> []" using eq
        by (metis append_eq_append_conv2 append_Nil2 append_eq_append_conv_if append_take_drop_id linear self_append_conv)
      with eq show ?thesis by (cases b) auto
    qed
    then obtain b where "before = ws @ CHR ''#'' # b" by blast
    then have "\<exists>z. rewrite_tag_uri l tok = ws @ CHR ''#'' # z"
      using cut l by (auto simp: rewrite_tag_uri_def Let_def)
    with trim_starts [OF c ws] show ?thesis by metis
  qed
qed

lemma uri_line_stays:
  assumes "trim_space l = c # t" and "tok \<noteq> []"
  shows "trim_space (append_access_token (trim_space l) tok) = append_access_token (trim_space l) tok"
proof -
  obtain more where more: "append_access_token (trim_space l) tok = trim_space l @ more"
    "\<forall>c \<in> set more. \<not> is_space c \<and> c \<noteq> CHR 0x22 \<and> c \<noteq> newline"
    using append_token [OF assms(2)] by metis
  have ends: "\<not> is_space (hd (trim_space l)) \<and> \<not> is_space (last (trim_space l))"
  proof
    show "\<not> is_space (hd (trim_space l))" using assms(1) trimmed_split by (metis list.sel(1))
    have "trim_space l = rev (dropWhile is_space (rev (dropWhile is_space l)))"
      by (simp add: trim_space_def trim_both_def trim_left_def trim_right_def)
    moreover have "trim_space l \<noteq> []" using assms(1) by simp
    ultimately show "\<not> is_space (last (trim_space l))" by (metis hd_dropWhile last_rev rev_is_Nil_conv)
  qed
  have "trim_space (trim_space l @ more) = trim_space l @ more"
  proof (rule trim_space_id, rule disjI2, rule conjI)
    show "\<not> is_space (hd (trim_space l @ more))" using assms(1) ends by simp
    show "\<not> is_space (last (trim_space l @ more))" using assms(1) ends more(2) by (cases "more = []") auto
  qed
  with more(1) show ?thesis by simp
qed

lemma rewrite_line_again: "rewrite_playlist_line (rewrite_playlist_line l tok) tok = rewrite_playlist_line l tok"
proof (cases "tok = [] \<or> trim_space l = []")
  case True
  then show ?thesis
  proof
    assume "tok = []"
    then show ?thesis by (simp add: rewrite_playlist_line_def Let_def append_access_token_def rewrite_tag_uri_no_token)
  next
    assume "trim_space l = []"
    then show ?thesis by (simp add: rewrite_playlist_line_def)
  qed
next
  case False
  then obtain c t where ct: "trim_space l = c # t" and tok: "tok \<noteq> []" by (cases "trim_space l") auto
  show ?thesis
  proof (cases "c = CHR ''#''")
    case True
    have stays: "rewrite_playlist_line k tok = rewrite_tag_uri k tok \<or> rewrite_playlist_line k tok = k"
      if "trim_space k = CHR ''#'' # t'" for k t'
      unfolding rewrite_playlist_line_def Let_def that by (simp add: has_prefix_def)
    obtain t' where "trim_space (rewrite_tag_uri l tok) = CHR ''#'' # t'"
      using tag_line_stays [of l t tok] ct True by blast
    note again = stays [OF this]
    from stays [of l t] ct True consider "rewrite_playlist_line l tok = rewrite_tag_uri l tok" | "rewrite_playlist_line l tok = l"
      by blast
    then show ?thesis
    proof cases
      case 1
      with again show ?thesis by (auto simp: rewrite_tag_uri_again)
    next
      case 2
      then show ?thesis by simp
    qed
  next
    case other: False
    define u where "u = append_access_token (trim_space l) tok"
    have line: "rewrite_playlist_line l tok = u"
      using ct other by (simp add: rewrite_playlist_line_def has_prefix_def u_def)
    have trim: "trim_space u = u" using uri_line_stays [OF ct tok] by (simp only: u_def)
    have "\<exists>z. u = c # z" using ct by (simp add: append_access_token_def u_def)
    then have "u \<noteq> []" "\<not> has_prefix u ''#''" using other by (auto simp: has_prefix_def)
    with trim have "rewrite_playlist_line u tok = append_access_token u tok"
      by (simp add: rewrite_playlist_line_def)
    also have "\<dots> = u" by (simp add: u_def append_token_again)
    finally show ?thesis by (simp add: line)
  qed
qed

lemma rewrite_line_no_newline: "newline \<notin> set l \<Longrightarrow> newline \<notin> set (rewrite_playlist_line l tok)"
proof -
  assume l: "newline \<notin> set l"
  have app: "newline \<notin> set uri \<Longrightarrow> newline \<notin> set (append_access_token uri tok)" for uri
  proof (cases "tok = []")
    case False
    then obtain more where "append_access_token uri tok = uri @ more"
      "\<forall>c \<in> set more. \<not> is_space c \<and> c \<noteq> CHR 0x22 \<and> c \<noteq> newline" by (rule append_token)
    moreover assume "newline \<notin> set uri"
    ultimately show ?thesis by auto
  qed (simp add: append_access_token_def)
  have "newline \<notin> set (rewrite_tag_uri l tok)"
  proof (cases "cut_at uri_key l")
    case (Some ab)
    obtain before rest where ab: "ab = (before, rest)" by fastforce
    from cut_at_Some [OF Some [unfolded ab]] l have "newline \<notin> set (before @ uri_key @ rest)" by simp
    then show ?thesis
      using app [of "takeWhile (\<lambda>c. c \<noteq> CHR 0x22) rest"] Some l
      by (auto simp: ab rewrite_tag_uri_def Let_def dest: set_takeWhileD in_set_dropD)
  qed (simp add: rewrite_tag_uri_def l)
  moreover have "newline \<notin> set (trim_space l)" using l set_trim_space [of l] by auto
  ultimately show ?thesis using app [of "trim_space l"] l by (simp add: rewrite_playlist_line_def Let_def)
qed

lemma split_rewritten:
  "tok \<noteq> [] \<Longrightarrow> split_on newline (rewrite_playlist_tokens body tok) =
    map (\<lambda>l. rewrite_playlist_line l tok) (split_on newline body)"
  unfolding rewrite_playlist_tokens_def
  by (simp, rule split_join) (simp, use rewrite_line_no_newline split_on_no_sep_part in \<open>force\<close>)

lemma rewritten_line:
  assumes "tok \<noteq> []"
  shows "trim_space (rewrite_playlist_line l tok) = [] \<or> has_prefix (trim_space (rewrite_playlist_line l tok)) ''#'' \<or>
    contains (rewrite_playlist_line l tok) access_key"
proof (cases "trim_space l")
  case Nil
  then show ?thesis by (simp add: rewrite_playlist_line_def)
next
  case (Cons c t)
  show ?thesis
  proof (cases "c = CHR ''#''")
    case True
    with Cons tag_line_stays [of l t tok] obtain t' where "trim_space (rewrite_tag_uri l tok) = CHR ''#'' # t'" by blast
    moreover have "rewrite_playlist_line l tok = rewrite_tag_uri l tok \<or> rewrite_playlist_line l tok = l"
      unfolding rewrite_playlist_line_def Let_def Cons True by (simp add: has_prefix_def)
    ultimately show ?thesis using Cons True by (auto simp: has_prefix_def)
  next
    case False
    obtain more where "append_access_token (trim_space l) tok = trim_space l @ more"
      "contains (trim_space l @ more) access_key" using assms by (rule append_token)
    moreover have "rewrite_playlist_line l tok = append_access_token (trim_space l) tok"
      unfolding rewrite_playlist_line_def Let_def Cons using False by (simp add: has_prefix_def)
    ultimately show ?thesis by simp
  qed
qed

section \<open>Rewriting is idempotent and complete\<close>



end
