(* ===== verification/HlsSessions.thy ===== *)
theory HlsSessions
  imports HlsVariants
begin

text \<open>
  On-demand segments, \<open>internal/transcode/session.go\<close>: one rendition of one source with its directory, its encoder and
  the requests for its segments. The decisions (\<open>segmentComplete\<close>, \<open>needsRestart\<close>, the throttle, the removal of old
  segments) are functions on the directory as the code sees it. Around them an event is a request, a poll of a waiting
  request, a step of the encoder or the end of it; the lock of the rendition lets one request at a time decide and wait.
  Of ffmpeg the model assumes that it fills the segments of a run one after the other, in order.
\<close>

section \<open>State\<close>

text \<open>\<open>de_closed\<close> is not visible to the code: the muxer has finished this file.\<close>

record dir_entry =
  de_name :: string
  de_is_dir :: bool
  de_size :: nat
  de_closed :: bool

text \<open>\<open>segmentSession\<close>. \<open>se_open\<close> is the segment that ffmpeg is writing.\<close>

record segment_session =
  se_start :: int
  se_done :: bool
  se_failed :: bool
  se_last_access :: int
  se_last_requested :: int
  se_paused :: bool
  se_open :: "int option"

record rendition =
  rd_dir :: "dir_entry list"
  rd_session :: "segment_session option"
  rd_waiting :: "int option"
  rd_started :: nat
  rd_served :: "(int \<times> bool) list"

datatype segment_err = SegMetaUnavailable | SegInvalidVariant | SegOutOfRange | SegCanceled

datatype segment_decision = SegHit | SegRestart | SegWait

section \<open>What the code reads from the directory\<close>

definition entry_index :: "dir_entry \<Rightarrow> int option" where
  "entry_index e = (if de_is_dir e then None else segment_index_from_name (de_name e))"

definition highest_segment_index :: "dir_entry list \<Rightarrow> int option" where
  "highest_segment_index dir = (let h = foldl (\<lambda>h e. case entry_index e of
       Some i \<Rightarrow> if h < i then i else h | None \<Rightarrow> h) (-1) dir
     in if 0 \<le> h then Some h else None)"

definition session_live :: "segment_session option \<Rightarrow> bool" where
  "session_live s \<longleftrightarrow> (case s of None \<Rightarrow> False | Some s \<Rightarrow> \<not> se_done s)"

definition find_segment :: "int \<Rightarrow> dir_entry list \<Rightarrow> dir_entry option" where
  "find_segment i dir = find (\<lambda>e. de_name e = segment_name i) dir"

definition segment_complete :: "dir_entry list \<Rightarrow> int \<Rightarrow> segment_session option \<Rightarrow> bool" where
  "segment_complete dir i s = (case find_segment i dir of
     None \<Rightarrow> False
   | Some e \<Rightarrow>
       if de_size e = 0 then False
       else if \<not> session_live s then True
       else (case highest_segment_index dir of None \<Rightarrow> False | Some h \<Rightarrow> i < h))"

definition segment_gap_threshold :: int where "segment_gap_threshold = 4"

definition needs_restart :: "segment_session option \<Rightarrow> dir_entry list \<Rightarrow> int \<Rightarrow> bool" where
  "needs_restart so dir i = (case so of
     None \<Rightarrow> True
   | Some s \<Rightarrow>
       if se_done s then True
       else if i < se_start s then True
       else (case highest_segment_index dir of
          None \<Rightarrow> se_start s + segment_gap_threshold < i
        | Some h \<Rightarrow> h + segment_gap_threshold < i))"

definition remove_segments_from :: "int \<Rightarrow> dir_entry list \<Rightarrow> dir_entry list" where
  "remove_segments_from i dir = filter (\<lambda>e. case entry_index e of None \<Rightarrow> True | Some j \<Rightarrow> j < i) dir"

section \<open>The throttle\<close>

definition throttle_should_pause :: "int \<Rightarrow> bool \<Rightarrow> bool" where
  "throttle_should_pause gap paused = (if paused then 20 < gap else 30 < gap)"

definition session_lead :: "dir_entry list \<Rightarrow> segment_session \<Rightarrow> int" where
  "session_lead dir s = (case highest_segment_index dir of None \<Rightarrow> se_start s - 1 | Some h \<Rightarrow> h) - se_last_requested s"

text \<open>\<open>applyThrottle\<close>; \<open>signaled\<close> says whether the signal reaches the process.\<close>

definition apply_throttle :: "bool \<Rightarrow> dir_entry list \<Rightarrow> segment_session \<Rightarrow> segment_session" where
  "apply_throttle signaled dir s =
     (if se_done s then s
      else let want = throttle_should_pause (session_lead dir s) (se_paused s) in
        if want = se_paused s \<or> \<not> signaled then s else s\<lparr>se_paused := want\<rparr>)"

definition note_requested :: "int \<Rightarrow> int \<Rightarrow> segment_session \<Rightarrow> segment_session" where
  "note_requested i now s = s\<lparr>se_last_requested := i, se_last_access := now\<rparr>"

definition idle_session :: "int \<Rightarrow> segment_session \<Rightarrow> bool" where
  "idle_session now s \<longleftrightarrow> 45 * 1000000000 < now - se_last_access s"

section \<open>Requests\<close>

text \<open>The checks of \<open>ResolveSegment\<close> before the lock of the rendition is taken.\<close>

definition check_segment_request :: "source_meta option \<Rightarrow> variant \<Rightarrow> int \<Rightarrow> segment_err + unit" where
  "check_segment_request m v i = (case m of
     None \<Rightarrow> Inl SegMetaUnavailable
   | Some m \<Rightarrow> if \<not> valid_variant m v then Inl SegInvalidVariant
       else if i < 0 \<or> int (length (sm_segments m)) \<le> i then Inl SegOutOfRange else Inr ())"

definition decide_segment :: "rendition \<Rightarrow> int \<Rightarrow> segment_decision" where
  "decide_segment r i = (if segment_complete (rd_dir r) i (rd_session r) then SegHit
     else if needs_restart (rd_session r) (rd_dir r) i then SegRestart else SegWait)"

definition new_session :: "int \<Rightarrow> int \<Rightarrow> segment_session" where
  "new_session i now = \<lparr>se_start = i, se_done = False, se_failed = False, se_last_access = now, se_last_requested = i,
     se_paused = False, se_open = None\<rparr>"

text \<open>\<open>stopSession\<close>, then \<open>startSession\<close>: the old encoder is gone, the segments from \<open>i\<close> on are removed and a new run starts.\<close>

definition restart_session :: "int \<Rightarrow> int \<Rightarrow> rendition \<Rightarrow> rendition" where
  "restart_session i now r = r\<lparr>rd_dir := remove_segments_from i (rd_dir r), rd_session := Some (new_session i now),
     rd_started := rd_started r + 1\<rparr>"

definition touch_session :: "int \<Rightarrow> int \<Rightarrow> bool \<Rightarrow> rendition \<Rightarrow> rendition" where
  "touch_session i now signaled r =
     r\<lparr>rd_session := map_option (\<lambda>s. apply_throttle signaled (rd_dir r) (note_requested i now s)) (rd_session r)\<rparr>"

definition serve :: "int \<Rightarrow> rendition \<Rightarrow> rendition" where
  "serve i r = r\<lparr>rd_served := (i, case find_segment i (rd_dir r) of None \<Rightarrow> False | Some e \<Rightarrow> de_closed e) # rd_served r\<rparr>"

definition resolve_segment :: "int \<Rightarrow> int \<Rightarrow> bool \<Rightarrow> rendition \<Rightarrow> rendition" where
  "resolve_segment i now signaled r = (case decide_segment r i of
     SegHit \<Rightarrow> serve i (touch_session i now signaled r)
   | SegRestart \<Rightarrow> (restart_session i now r)\<lparr>rd_waiting := Some i\<rparr>
   | SegWait \<Rightarrow> (touch_session i now signaled r)\<lparr>rd_waiting := Some i\<rparr>)"

text \<open>One round of \<open>waitForSegment\<close>. The session the request waits for is the one it found or started.\<close>

definition poll_segment :: "int \<Rightarrow> int \<Rightarrow> bool \<Rightarrow> rendition \<Rightarrow> rendition" where
  "poll_segment i now signaled r =
     (if segment_complete (rd_dir r) i (rd_session r)
      then serve i (touch_session i now signaled r)\<lparr>rd_waiting := None\<rparr>
      else if \<not> session_live (rd_session r) then r\<lparr>rd_waiting := None\<rparr>
      else r\<lparr>rd_session := map_option (apply_throttle signaled (rd_dir r)) (rd_session r)\<rparr>)"

section \<open>The encoder\<close>

text \<open>ffmpeg writes to the open segment, and opens the next one when the open one is not empty.\<close>

definition set_file :: "int \<Rightarrow> (dir_entry \<Rightarrow> dir_entry) \<Rightarrow> dir_entry list \<Rightarrow> dir_entry list" where
  "set_file i f dir = map (\<lambda>e. if de_name e = segment_name i then f e else e) dir"

definition new_file :: "int \<Rightarrow> dir_entry" where
  "new_file i = \<lparr>de_name = segment_name i, de_is_dir = False, de_size = 0, de_closed = False\<rparr>"

definition close_open :: "segment_session \<Rightarrow> dir_entry list \<Rightarrow> dir_entry list" where
  "close_open s dir = (case se_open s of None \<Rightarrow> dir | Some i \<Rightarrow> set_file i (\<lambda>e. e\<lparr>de_closed := True\<rparr>) dir)"

definition open_size :: "segment_session \<Rightarrow> dir_entry list \<Rightarrow> nat" where
  "open_size s dir = (case se_open s of None \<Rightarrow> 1
     | Some i \<Rightarrow> (case find_segment i dir of None \<Rightarrow> 0 | Some e \<Rightarrow> de_size e))"

definition next_segment :: "segment_session \<Rightarrow> int" where
  "next_segment s = (case se_open s of None \<Rightarrow> se_start s | Some i \<Rightarrow> i + 1)"

datatype seg_event =
    Request int int bool
  | Poll int bool
  | GiveUp
  | EncOpen
  | EncWrite
  | EncExit bool
  | Kill
  | Clear
  | Throttle bool
  | Reap int

definition with_encoder :: "(segment_session \<Rightarrow> rendition \<Rightarrow> rendition) \<Rightarrow> rendition \<Rightarrow> rendition option" where
  "with_encoder f r = (case rd_session r of None \<Rightarrow> None
     | Some s \<Rightarrow> if se_done s then None else Some (f s r))"

definition finish_session :: "bool \<Rightarrow> segment_session \<Rightarrow> rendition \<Rightarrow> rendition" where
  "finish_session failed s r = r\<lparr>rd_session := Some (s\<lparr>se_done := True, se_failed := failed\<rparr>)\<rparr>"

definition seg_step :: "int \<Rightarrow> seg_event \<Rightarrow> rendition \<Rightarrow> rendition option" where
  "seg_step count e r = (case e of
     Request i now signaled \<Rightarrow> if rd_waiting r \<noteq> None \<or> i < 0 \<or> count \<le> i then None else Some (resolve_segment i now signaled r)
   | Poll now signaled \<Rightarrow> (case rd_waiting r of None \<Rightarrow> None | Some i \<Rightarrow> Some (poll_segment i now signaled r))
   | GiveUp \<Rightarrow> Some (r\<lparr>rd_waiting := None\<rparr>)
   | EncOpen \<Rightarrow> (case rd_session r of None \<Rightarrow> None
       | Some s \<Rightarrow> if se_done s \<or> se_paused s \<or> open_size s (rd_dir r) = 0 \<or> count \<le> next_segment s then None
           else Some (r\<lparr>rd_dir := close_open s (rd_dir r) @ [new_file (next_segment s)],
             rd_session := Some (s\<lparr>se_open := Some (next_segment s)\<rparr>)\<rparr>))
   | EncWrite \<Rightarrow> (case rd_session r of None \<Rightarrow> None
       | Some s \<Rightarrow> if se_done s \<or> se_paused s then None
           else (case se_open s of None \<Rightarrow> None
             | Some i \<Rightarrow> Some (r\<lparr>rd_dir := set_file i (\<lambda>e. e\<lparr>de_size := de_size e + 1\<rparr>) (rd_dir r)\<rparr>)))
   | EncExit failed \<Rightarrow> with_encoder (\<lambda>s r. finish_session failed s (r\<lparr>rd_dir := close_open s (rd_dir r)\<rparr>)) r
   | Kill \<Rightarrow> with_encoder (finish_session True) r
   | Clear \<Rightarrow> (case rd_session r of None \<Rightarrow> None
       | Some s \<Rightarrow> if se_done s then Some (r\<lparr>rd_session := None\<rparr>) else None)
   | Throttle signaled \<Rightarrow> with_encoder (\<lambda>s r. r\<lparr>rd_session := Some (apply_throttle signaled (rd_dir r) s)\<rparr>) r
   | Reap now \<Rightarrow> with_encoder (\<lambda>s r. if idle_session now s then finish_session True s r else r) r)"

fun seg_steps :: "int \<Rightarrow> seg_event list \<Rightarrow> rendition \<Rightarrow> rendition option" where
  "seg_steps count [] r = Some r"
| "seg_steps count (e # es) r = (case seg_step count e r of None \<Rightarrow> None | Some r' \<Rightarrow> seg_steps count es r')"

definition fresh_rendition :: rendition where
  "fresh_rendition = \<lparr>rd_dir = [], rd_session = None, rd_waiting = None, rd_started = 0, rd_served = []\<rparr>"

inductive produced :: "int \<Rightarrow> rendition \<Rightarrow> bool" for count where
  fresh: "produced count fresh_rendition"
| move: "produced count r \<Longrightarrow> seg_step count e r = Some r' \<Longrightarrow> produced count r'"

end
