(* ===== verification/HlsSessionSafety.thy ===== *)
theory HlsSessionSafety
  imports HlsSessions
begin

text \<open>
  On-demand segments, proofs. The invariant: while an encoder lives, the files from its start on are exactly the ones it
  has opened, and all but the last are finished. So what is served of a living run is whole, and a request that waits is
  never left with a paused encoder. What is not guaranteed: the segments of an earlier run that was killed, and progress
  when a client asks again.
\<close>

section \<open>The directory as a map\<close>

text \<open>All entries are segments of the timeline, each once.\<close>

definition dir_ok :: "int \<Rightarrow> dir_entry list \<Rightarrow> bool" where
  "dir_ok count dir \<longleftrightarrow> count \<le> max_int64 \<and> distinct (map de_name dir) \<and>
     (\<forall>e \<in> set dir. \<not> de_is_dir e \<and> (\<exists>i. 0 \<le> i \<and> i < count \<and> de_name e = segment_name i))"

lemma segment_name_eq: "0 \<le> i \<Longrightarrow> i \<le> max_int64 \<Longrightarrow> 0 \<le> j \<Longrightarrow> j \<le> max_int64 \<Longrightarrow> segment_name i = segment_name j \<longleftrightarrow> i = j"
  using index_of_name by (metis option.inject)

lemma dir_okE:
  assumes "dir_ok count dir" and "e \<in> set dir"
  obtains i where "0 \<le> i" and "i < count" and "i \<le> max_int64" and "de_name e = segment_name i" and "entry_index e = Some i"
proof -
  from assms obtain i where i: "0 \<le> i" "i < count" "de_name e = segment_name i" "\<not> de_is_dir e" "count \<le> max_int64"
    unfolding dir_ok_def by blast
  then have "entry_index e = Some i" by (simp add: entry_index_def)
  with i that show thesis by simp
qed

lemma find_segment_Some:
  assumes "dir_ok count dir"
  shows "find_segment i dir = Some e \<longleftrightarrow> e \<in> set dir \<and> de_name e = segment_name i"
proof
  assume "find_segment i dir = Some e"
  then show "e \<in> set dir \<and> de_name e = segment_name i" unfolding find_segment_def by (rule find_SomeD)
next
  assume e: "e \<in> set dir \<and> de_name e = segment_name i"
  from assms have "distinct (map de_name dir)" by (simp add: dir_ok_def)
  with e show "find_segment i dir = Some e" unfolding find_segment_def by (metis find_unique)
qed

definition has_segment :: "dir_entry list \<Rightarrow> int \<Rightarrow> bool" where
  "has_segment dir i \<longleftrightarrow> find_segment i dir \<noteq> None"

lemma has_segment_iff:
  assumes "dir_ok count dir" and "0 \<le> i" and "i < count"
  shows "has_segment dir i \<longleftrightarrow> (\<exists>e \<in> set dir. entry_index e = Some i)"
proof
  assume "has_segment dir i"
  then obtain e where e: "e \<in> set dir" "de_name e = segment_name i"
    using find_segment_Some [OF assms(1)] by (auto simp: has_segment_def)
  have "\<not> de_is_dir e" "count \<le> max_int64" using assms(1) e(1) by (auto simp: dir_ok_def)
  with e assms(2,3) show "\<exists>e \<in> set dir. entry_index e = Some i" by (intro bexI [of _ e]) (simp_all add: entry_index_def)
next
  assume "\<exists>e \<in> set dir. entry_index e = Some i"
  then obtain e where e: "e \<in> set dir" "entry_index e = Some i" by blast
  with assms(1) have "de_name e = segment_name i" by (auto elim: dir_okE)
  with e find_segment_Some [OF assms(1)] show "has_segment dir i" by (auto simp: has_segment_def)
qed

lemma highest_fold:
  "(let h = foldl (\<lambda>h e. case entry_index e of Some i \<Rightarrow> if h < i then i else h | None \<Rightarrow> h) b dir in
     b \<le> h \<and> (\<forall>e \<in> set dir. \<forall>i. entry_index e = Some i \<longrightarrow> i \<le> h) \<and> (h = b \<or> (\<exists>e \<in> set dir. entry_index e = Some h)))"
proof (induction dir arbitrary: b)
  case (Cons e dir)
  show ?case
    using Cons [of "case entry_index e of Some i \<Rightarrow> if b < i then i else b | None \<Rightarrow> b"]
    by (auto simp: Let_def split: option.splits if_splits)
qed simp

lemma highest_Some:
  assumes ok: "dir_ok count dir"
  shows "highest_segment_index dir = Some h \<longleftrightarrow> 0 \<le> h \<and> h < count \<and> has_segment dir h \<and>
    (\<forall>j. 0 \<le> j \<longrightarrow> j < count \<longrightarrow> has_segment dir j \<longrightarrow> j \<le> h)"
proof -
  define f where "f = foldl (\<lambda>h e. case entry_index e of Some i \<Rightarrow> if h < i then i else h | None \<Rightarrow> h) (-1) dir"
  have f: "f = -1 \<or> (\<exists>e \<in> set dir. entry_index e = Some f)" and le: "\<And>e i. e \<in> set dir \<Longrightarrow> entry_index e = Some i \<Longrightarrow> i \<le> f"
    using highest_fold [of "-1" dir] by (simp_all add: Let_def f_def)
  have has: "has_segment dir i \<longleftrightarrow> (\<exists>e \<in> set dir. entry_index e = Some i)" if "0 \<le> i" "i < count" for i
    using ok that by (rule has_segment_iff)
  have val: "highest_segment_index dir = (if 0 \<le> f then Some f else None)"
    by (simp add: highest_segment_index_def Let_def f_def)
  show ?thesis
  proof (cases "0 \<le> f")
    case True
    then obtain e where e: "e \<in> set dir" "entry_index e = Some f" using f by auto
    with ok have "f < count" by (auto elim: dir_okE)
    with True e has have "has_segment dir f" by blast
    moreover have "\<forall>j. 0 \<le> j \<longrightarrow> j < count \<longrightarrow> has_segment dir j \<longrightarrow> j \<le> f" using has le by blast
    ultimately show ?thesis using True \<open>f < count\<close> by (auto simp: val intro: antisym)
  next
    case False
    have "\<not> (0 \<le> h \<and> h < count \<and> has_segment dir h)" using False has le by fastforce
    with False show ?thesis by (auto simp: val)
  qed
qed

lemma highest_None:
  assumes ok: "dir_ok count dir"
  shows "highest_segment_index dir = None \<longleftrightarrow> dir = []"
proof
  assume none: "highest_segment_index dir = None"
  let ?f = "foldl (\<lambda>h e. case entry_index e of Some i \<Rightarrow> if h < i then i else h | None \<Rightarrow> h) (-1) dir"
  show "dir = []"
  proof (rule ccontr)
    assume "dir \<noteq> []"
    then obtain e where e: "e \<in> set dir" by (cases dir) auto
    with ok obtain i where "0 \<le> i" "entry_index e = Some i" by (rule dir_okE)
    with e highest_fold [of "-1" dir] have "0 \<le> ?f" by (auto simp: Let_def dest!: bspec)
    with none show False by (simp add: highest_segment_index_def Let_def)
  qed
next
  assume "dir = []"
  then show "highest_segment_index dir = None" by (simp add: highest_segment_index_def)
qed

subsection \<open>Changes of the directory\<close>

lemma dir_ok_remove: "dir_ok count dir \<Longrightarrow> dir_ok count (remove_segments_from i dir)"
  by (auto simp: dir_ok_def remove_segments_from_def distinct_map_filter)

lemma find_remove:
  assumes ok: "dir_ok count dir" and j: "0 \<le> j" "j < count"
  shows "find_segment j (remove_segments_from i dir) = (if j < i then find_segment j dir else None)"
proof -
  have idx: "entry_index e = Some j" if "e \<in> set dir" "de_name e = segment_name j" for e
    using ok that j by (auto simp: dir_ok_def entry_index_def)
  show ?thesis
  proof (cases "find_segment j (remove_segments_from i dir)")
    case None
    show ?thesis
    proof (cases "j < i")
      case True
      have "find_segment j dir = None"
      proof (rule ccontr)
        assume "find_segment j dir \<noteq> None"
        then obtain e where e: "e \<in> set dir" "de_name e = segment_name j" using find_segment_Some [OF ok] by auto
        with idx True have "e \<in> set (remove_segments_from i dir)" by (simp add: remove_segments_from_def)
        with e None find_segment_Some [OF dir_ok_remove [OF ok]] show False by (metis option.distinct(1))
      qed
      with None show ?thesis by simp
    qed (simp add: None)
  next
    case (Some e)
    then have e: "e \<in> set (remove_segments_from i dir)" "de_name e = segment_name j"
      using find_segment_Some [OF dir_ok_remove [OF ok]] by blast+
    then have mem: "e \<in> set dir" and "j < i" using idx by (auto simp: remove_segments_from_def)
    from mem e find_segment_Some [OF ok] have "find_segment j dir = Some e" by blast
    with Some \<open>j < i\<close> show ?thesis by simp
  qed
qed

lemma find_set_file:
  assumes "\<And>e. de_name (f e) = de_name e"
  shows "find_segment j (set_file i f dir) = map_option (\<lambda>e. if segment_name j = segment_name i then f e else e) (find_segment j dir)"
  using assms by (induction dir) (auto simp: find_segment_def set_file_def)

lemma dir_ok_set_file:
  assumes "\<And>e. de_name (f e) = de_name e \<and> de_is_dir (f e) = de_is_dir e" and "dir_ok count dir"
  shows "dir_ok count (set_file i f dir)"
proof -
  have names: "map de_name (set_file i f dir) = map de_name dir" using assms(1) by (simp add: set_file_def)
  have "\<not> de_is_dir e \<and> (\<exists>i. 0 \<le> i \<and> i < count \<and> de_name e = segment_name i)" if "e \<in> set (set_file i f dir)" for e
  proof -
    from that obtain d where "d \<in> set dir" "de_name e = de_name d" "de_is_dir e = de_is_dir d"
      using assms(1) by (auto simp: set_file_def)
    with assms(2) show ?thesis by (simp add: dir_ok_def)
  qed
  with assms(2) names show ?thesis by (simp add: dir_ok_def)
qed

lemma find_append_new: "find_segment j (dir @ [new_file i]) =
    (case find_segment j dir of Some e \<Rightarrow> Some e | None \<Rightarrow> if segment_name i = segment_name j then Some (new_file i) else None)"
  by (induction dir) (auto simp: find_segment_def new_file_def)

lemma dir_ok_new_file:
  assumes ok: "dir_ok count dir" and i: "0 \<le> i" "i < count" and none: "\<not> has_segment dir i"
  shows "dir_ok count (dir @ [new_file i])"
proof -
  have "segment_name i \<notin> de_name ` set dir"
    using none find_segment_Some [OF ok, of i] by (auto simp: has_segment_def)
  with ok i show ?thesis by (auto simp: dir_ok_def new_file_def)
qed

section \<open>The invariant\<close>

text \<open>The files from the start of a run on are the ones it has opened; all but the open one are finished and not empty.\<close>

definition run_ok :: "int \<Rightarrow> segment_session \<Rightarrow> dir_entry list \<Rightarrow> bool" where
  "run_ok count s dir \<longleftrightarrow> 0 \<le> se_start s \<and> se_start s < count \<and>
     (case se_open s of
        None \<Rightarrow> \<forall>j. se_start s \<le> j \<longrightarrow> j < count \<longrightarrow> \<not> has_segment dir j
      | Some k \<Rightarrow> se_start s \<le> k \<and> k < count \<and>
          (\<forall>j. se_start s \<le> j \<longrightarrow> j < count \<longrightarrow> has_segment dir j = (j \<le> k)) \<and>
          (\<forall>j e. se_start s \<le> j \<longrightarrow> j < k \<longrightarrow> find_segment j dir = Some e \<longrightarrow> de_closed e \<and> 0 < de_size e))"

definition rendition_ok :: "int \<Rightarrow> rendition \<Rightarrow> bool" where
  "rendition_ok count r \<longleftrightarrow> dir_ok count (rd_dir r) \<and>
     (case rd_session r of None \<Rightarrow> True | Some s \<Rightarrow> se_done s \<or> run_ok count s (rd_dir r))"

lemma run_ok_cong: "se_start s' = se_start s \<Longrightarrow> se_open s' = se_open s \<Longrightarrow> run_ok count s' dir = run_ok count s dir"
  by (simp only: run_ok_def)

lemma throttle_keeps [simp]:
  "se_start (apply_throttle b dir s) = se_start s" "se_open (apply_throttle b dir s) = se_open s"
  "se_done (apply_throttle b dir s) = se_done s" "se_last_requested (apply_throttle b dir s) = se_last_requested s"
  by (simp_all add: apply_throttle_def Let_def)

lemma note_keeps [simp]:
  "se_start (note_requested i now s) = se_start s" "se_open (note_requested i now s) = se_open s"
  "se_done (note_requested i now s) = se_done s" "se_last_requested (note_requested i now s) = i"
  by (simp_all add: note_requested_def)

lemma rendition_ok_session:
  assumes "rendition_ok count r" and "rd_dir r' = rd_dir r"
    and "\<And>s'. rd_session r' = Some s' \<Longrightarrow> \<not> se_done s' \<Longrightarrow>
      \<exists>s. rd_session r = Some s \<and> se_start s' = se_start s \<and> se_open s' = se_open s \<and> \<not> se_done s"
  shows "rendition_ok count r'"
proof (cases "rd_session r'")
  case None
  with assms(1,2) show ?thesis by (simp add: rendition_ok_def)
next
  case (Some s')
  show ?thesis
  proof (cases "se_done s'")
    case True
    with Some assms(1,2) show ?thesis by (simp add: rendition_ok_def)
  next
    case False
    with assms(3) Some obtain s where s: "rd_session r = Some s" "se_start s' = se_start s" "se_open s' = se_open s" "\<not> se_done s"
      by blast
    with assms(1) have "run_ok count s (rd_dir r)" by (simp add: rendition_ok_def)
    with run_ok_cong [OF s(2,3)] assms(1,2) Some show ?thesis by (simp add: rendition_ok_def)
  qed
qed

lemma restart_ok:
  assumes ok: "rendition_ok count r" and i: "0 \<le> i" "i < count"
  shows "rendition_ok count ((restart_session i now r)\<lparr>rd_waiting := w\<rparr>)"
proof -
  from ok have dir: "dir_ok count (rd_dir r)" by (simp add: rendition_ok_def)
  then have "run_ok count (new_session i now) (remove_segments_from i (rd_dir r))"
    using i by (simp add: run_ok_def new_session_def has_segment_def find_remove [OF dir])
  with dir show ?thesis by (simp add: rendition_ok_def restart_session_def dir_ok_remove)
qed

lemma resolve_ok:
  assumes ok: "rendition_ok count r" and i: "0 \<le> i" "i < count"
  shows "rendition_ok count (resolve_segment i now b r)"
proof (cases "decide_segment r i")
  case SegHit
  then show ?thesis
    by (intro rendition_ok_session [OF ok]) (auto simp: resolve_segment_def serve_def touch_session_def)
next
  case SegRestart
  then show ?thesis using restart_ok [OF ok i] by (simp add: resolve_segment_def)
next
  case SegWait
  then show ?thesis
    by (intro rendition_ok_session [OF ok]) (auto simp: resolve_segment_def touch_session_def)
qed

lemma poll_ok:
  assumes ok: "rendition_ok count r"
  shows "rendition_ok count (poll_segment i now b r)"
  by (intro rendition_ok_session [OF ok]) (auto simp: poll_segment_def serve_def touch_session_def split: if_splits)

lemma close_keeps:
  "find_segment j (close_open s dir) = map_option (\<lambda>e. if se_open s \<noteq> None \<and> segment_name j = segment_name (the (se_open s))
     then e\<lparr>de_closed := True\<rparr> else e) (find_segment j dir)"
  by (cases "se_open s") (simp_all add: close_open_def find_set_file option.map_ident)

lemma close_dir_ok: "dir_ok count dir \<Longrightarrow> dir_ok count (close_open s dir)"
  by (cases "se_open s") (auto simp: close_open_def intro: dir_ok_set_file)

lemma has_close [simp]: "has_segment (close_open s dir) j = has_segment dir j"
  by (simp add: has_segment_def close_keeps)

lemma open_ok:
  assumes dir: "dir_ok count dir" and run: "run_ok count s dir" and size: "open_size s dir \<noteq> 0"
    and more: "next_segment s < count"
  shows "dir_ok count (close_open s dir @ [new_file (next_segment s)]) \<and>
    run_ok count (s\<lparr>se_open := Some (next_segment s)\<rparr>) (close_open s dir @ [new_file (next_segment s)])"
proof -
  let ?k = "next_segment s" and ?dir = "close_open s dir"
  have start: "0 \<le> se_start s" "se_start s < count" using run by (simp_all add: run_ok_def)
  have k: "se_start s \<le> ?k" using run by (auto simp: next_segment_def run_ok_def split: option.splits)
  have dir': "dir_ok count ?dir" using dir by (rule close_dir_ok)
  have max: "count \<le> max_int64" using dir by (simp add: dir_ok_def)
  have before: "has_segment dir j = (j < ?k)" if "se_start s \<le> j" "j < count" for j
    using run that by (auto simp: run_ok_def next_segment_def split: option.splits)
  then have "\<not> has_segment ?dir ?k" using k more by simp
  with dir' k start more have new: "dir_ok count (?dir @ [new_file ?k])" by (intro dir_ok_new_file) simp_all
  have find_new: "find_segment j (?dir @ [new_file ?k]) = (if j = ?k then Some (new_file ?k) else find_segment j ?dir)"
    if "se_start s \<le> j" "j < count" for j
  proof -
    have "segment_name ?k = segment_name j \<longleftrightarrow> j = ?k" using that k start more max by (subst segment_name_eq) auto
    moreover have "find_segment ?k ?dir = None" using \<open>\<not> has_segment ?dir ?k\<close> by (simp add: has_segment_def)
    ultimately show ?thesis by (auto simp: find_append_new split: option.splits)
  qed
  have has_new: "has_segment (?dir @ [new_file ?k]) j = (j \<le> ?k)" if "se_start s \<le> j" "j < count" for j
    using find_new [OF that] before [OF that] has_close [of s dir j]
    by (auto simp: has_segment_def simp del: has_close)
  have closed: "de_closed e \<and> 0 < de_size e"
    if j: "se_start s \<le> j" "j < ?k" and e: "find_segment j (?dir @ [new_file ?k]) = Some e" for j e
  proof -
    have "find_segment j ?dir = Some e" using find_new [of j] j e more by simp
    then obtain d where d: "find_segment j dir = Some d"
      and ed: "e = (if se_open s \<noteq> None \<and> segment_name j = segment_name (the (se_open s)) then d\<lparr>de_closed := True\<rparr> else d)"
      by (auto simp: close_keeps)
    obtain m where m: "se_open s = Some m" "?k = m + 1" using j by (auto simp: next_segment_def split: option.splits)
    show ?thesis
    proof (cases "j = m")
      case True
      with size d m have "de_size d \<noteq> 0" by (simp add: open_size_def)
      with ed m True show ?thesis by simp
    next
      case False
      then have "j < m" using j m by simp
      with run m d j have "de_closed d \<and> 0 < de_size d" by (auto simp: run_ok_def)
      with ed show ?thesis by simp
    qed
  qed
  show ?thesis using new has_new closed start k more by (simp add: run_ok_def)
qed

lemma write_ok:
  assumes "dir_ok count dir" and "run_ok count s dir"
  shows "dir_ok count (set_file i (\<lambda>e. e\<lparr>de_size := de_size e + 1\<rparr>) dir) \<and>
    run_ok count s (set_file i (\<lambda>e. e\<lparr>de_size := de_size e + 1\<rparr>) dir)"
proof -
  let ?dir = "set_file i (\<lambda>e. e\<lparr>de_size := de_size e + 1\<rparr>) dir"
  have find: "find_segment j ?dir = map_option (\<lambda>e. if segment_name j = segment_name i then e\<lparr>de_size := de_size e + 1\<rparr> else e) (find_segment j dir)" for j
    by (rule find_set_file) simp
  then have "has_segment ?dir j = has_segment dir j" for j by (simp add: has_segment_def)
  with find assms show ?thesis
    by (auto simp: run_ok_def intro!: dir_ok_set_file split: option.splits if_splits)
qed

lemma step_ok:
  assumes ok: "rendition_ok count r" and move: "seg_step count e r = Some r'"
  shows "rendition_ok count r'"
proof -
  from ok have dir: "dir_ok count (rd_dir r)" by (simp add: rendition_ok_def)
  have run: "run_ok count s (rd_dir r)" if "rd_session r = Some s" "\<not> se_done s" for s
    using ok that by (simp add: rendition_ok_def)
  note keep = rendition_ok_session [OF ok]
  show ?thesis
  proof (cases e)
    case (Request i now b)
    with move show ?thesis using resolve_ok [OF ok] by (auto simp: seg_step_def split: if_splits)
  next
    case (Poll now b)
    with move show ?thesis using poll_ok [OF ok] by (auto simp: seg_step_def split: option.splits)
  next
    case GiveUp
    with move show ?thesis by (intro keep) (auto simp: seg_step_def)
  next
    case EncOpen
    with move obtain s where s: "rd_session r = Some s" "\<not> se_done s" "open_size s (rd_dir r) \<noteq> 0" "next_segment s < count"
      and r': "r' = r\<lparr>rd_dir := close_open s (rd_dir r) @ [new_file (next_segment s)],
        rd_session := Some (s\<lparr>se_open := Some (next_segment s)\<rparr>)\<rparr>"
      by (auto simp: seg_step_def split: option.splits if_splits)
    with open_ok [OF dir run [OF s(1,2)] s(3,4)] show ?thesis by (simp add: rendition_ok_def)
  next
    case EncWrite
    with move obtain s i where s: "rd_session r = Some s" "\<not> se_done s"
      and r': "r' = r\<lparr>rd_dir := set_file i (\<lambda>e. e\<lparr>de_size := de_size e + 1\<rparr>) (rd_dir r)\<rparr>"
      by (auto simp: seg_step_def split: option.splits if_splits)
    with write_ok [OF dir run [OF s]] show ?thesis by (simp add: rendition_ok_def)
  next
    case (EncExit failed)
    with move close_dir_ok [OF dir] show ?thesis
      by (auto simp: seg_step_def with_encoder_def finish_session_def rendition_ok_def split: option.splits if_splits)
  next
    case Kill
    with move show ?thesis
      by (intro keep) (auto simp: seg_step_def with_encoder_def finish_session_def split: option.splits if_splits)
  next
    case Clear
    with move show ?thesis by (intro keep) (auto simp: seg_step_def split: option.splits if_splits)
  next
    case (Throttle b)
    with move show ?thesis
      by (intro keep) (auto simp: seg_step_def with_encoder_def split: option.splits if_splits)
  next
    case (Reap now)
    with move show ?thesis
      by (intro keep) (auto simp: seg_step_def with_encoder_def finish_session_def split: option.splits if_splits)
  qed
qed

lemma produced_ok: "produced count r \<Longrightarrow> count \<le> max_int64 \<Longrightarrow> rendition_ok count r"
proof (induction rule: produced.induct)
  case fresh
  then show ?case by (simp add: rendition_ok_def fresh_rendition_def dir_ok_def)
next
  case (move r e r')
  then show ?case by (blast intro: step_ok)
qed

lemma produced_steps: "produced count r \<Longrightarrow> seg_steps count es r = Some r' \<Longrightarrow> produced count r'"
proof (induction es arbitrary: r)
  case (Cons e es)
  then show ?case by (auto split: option.splits intro: produced.move)
qed simp

section \<open>What holds\<close>

text \<open>C31. A segment of a living run is served only when it is whole: if the code takes a segment from the start of the
  current run on for complete, then ffmpeg has finished its file.\<close>

theorem live_segments_are_whole:
  assumes reach: "produced count r" and count: "count \<le> max_int64"
    and s: "rd_session r = Some s" "\<not> se_done s" and i: "se_start s \<le> i" "i < count"
    and complete: "segment_complete (rd_dir r) i (rd_session r)"
  shows "\<exists>e. find_segment i (rd_dir r) = Some e \<and> de_closed e"
proof -
  have ok: "rendition_ok count r" using reach count by (rule produced_ok)
  with s have dir: "dir_ok count (rd_dir r)" and run: "run_ok count s (rd_dir r)" by (simp_all add: rendition_ok_def)
  from complete s obtain e h where e: "find_segment i (rd_dir r) = Some e"
    and h: "highest_segment_index (rd_dir r) = Some h" "i < h"
    by (auto simp: segment_complete_def session_live_def split: option.splits if_splits)
  from h have "h < count" "has_segment (rd_dir r) h" by (simp_all add: highest_Some [OF dir])
  with run i h obtain k where "se_open s = Some k" "h \<le> k"
    by (auto simp: run_ok_def split: option.splits)
  with run e i h show ?thesis by (auto simp: run_ok_def)
qed

definition watching :: "seg_event list" where
  "watching = [Request 0 0 True, EncOpen, EncWrite, EncOpen, EncWrite]"

lemma steps_Some: "\<not> Option.is_none x \<Longrightarrow> x = Some (the x)"
  by (simp add: Option.is_none_def)

lemma live_segments_are_whole_witness:
  "\<exists>e. find_segment 0 (rd_dir (the (seg_steps 200 watching fresh_rendition))) = Some e \<and> de_closed e"
proof -
  let ?x = "seg_steps 200 watching fresh_rendition"
  have "\<not> Option.is_none ?x" by code_simp
  then have reach: "produced 200 (the ?x)" by (rule produced_steps [OF produced.fresh steps_Some])
  have "rd_session (the ?x) = Some (the (rd_session (the ?x)))"
    by (rule steps_Some) code_simp
  moreover have "\<not> se_done (the (rd_session (the ?x)))" "se_start (the (rd_session (the ?x))) \<le> 0"
    "segment_complete (rd_dir (the ?x)) 0 (rd_session (the ?x))" by code_simp+
  ultimately show ?thesis
    using live_segments_are_whole [OF reach, of "the (rd_session (the ?x))" 0] by (simp add: max_int64_def)
qed

text \<open>C32. The throttle never starves a request: when a request has to wait, the encoder it waits for is alive, reaches the
  segment from its start, and is not paused.\<close>

theorem waiting_encoder_runs:
  assumes reach: "produced count r" and count: "count \<le> max_int64"
    and request: "seg_step count (Request i now True) r = Some r'" and wait: "rd_waiting r' = Some i"
  shows "\<exists>s. rd_session r' = Some s \<and> \<not> se_done s \<and> se_start s \<le> i \<and> \<not> se_paused s"
proof -
  have ok: "rendition_ok count r" using reach count by (rule produced_ok)
  then have dir: "dir_ok count (rd_dir r)" by (simp add: rendition_ok_def)
  from request have i: "0 \<le> i" "i < count" and free: "rd_waiting r = None" and r': "r' = resolve_segment i now True r"
    by (auto simp: seg_step_def split: if_splits)
  show ?thesis
  proof (cases "decide_segment r i")
    case SegHit
    with wait free r' show ?thesis by (simp add: resolve_segment_def serve_def touch_session_def)
  next
    case SegRestart
    with r' show ?thesis by (simp add: resolve_segment_def restart_session_def new_session_def)
  next
    case SegWait
    then have not_complete: "\<not> segment_complete (rd_dir r) i (rd_session r)" and keep: "\<not> needs_restart (rd_session r) (rd_dir r) i"
      by (auto simp: decide_segment_def split: if_splits)
    from keep obtain s where s: "rd_session r = Some s" "\<not> se_done s" "se_start s \<le> i"
      by (auto simp: needs_restart_def split: option.splits if_splits)
    with ok have run: "run_ok count s (rd_dir r)" by (simp add: rendition_ok_def)
    have low: "h \<le> i" if h: "highest_segment_index (rd_dir r) = Some h" for h
    proof (rule ccontr)
      assume "\<not> h \<le> i"
      moreover from h have "h < count" "has_segment (rd_dir r) h" by (simp_all add: highest_Some [OF dir])
      ultimately obtain k where k: "se_open s = Some k" "i < k"
        using run s i by (auto simp: run_ok_def split: option.splits)
      with run s i have "has_segment (rd_dir r) i" by (auto simp: run_ok_def)
      then obtain e where e: "find_segment i (rd_dir r) = Some e" by (auto simp: has_segment_def)
      with run s k have "0 < de_size e" by (auto simp: run_ok_def)
      with e h s not_complete \<open>\<not> h \<le> i\<close> show False by (simp add: segment_complete_def session_live_def)
    qed
    define s1 where "s1 = note_requested i now s"
    have "session_lead (rd_dir r) s1 \<le> 0"
      using low s(3) by (auto simp: session_lead_def s1_def split: option.splits)
    then have "\<not> se_paused (apply_throttle True (rd_dir r) s1)"
      using s by (auto simp: apply_throttle_def throttle_should_pause_def Let_def s1_def)
    with SegWait s r' show ?thesis by (simp add: resolve_segment_def touch_session_def s1_def)
  qed
qed

definition watching_ahead :: "seg_event list" where
  "watching_ahead = watching @ [GiveUp]"

lemma waiting_encoder_runs_witness:
  "(let r = the (seg_steps 200 watching_ahead fresh_rendition); r' = the (seg_step 200 (Request 3 7 True) r) in
    rd_started r' = 1 \<and> (\<exists>s. rd_session r' = Some s \<and> \<not> se_done s \<and> se_start s \<le> 3 \<and> \<not> se_paused s))"
proof -
  let ?x = "seg_steps 200 watching_ahead fresh_rendition"
  let ?y = "seg_step 200 (Request 3 7 True) (the ?x)"
  have "\<not> Option.is_none ?x" by code_simp
  then have reach: "produced 200 (the ?x)" by (rule produced_steps [OF produced.fresh steps_Some])
  have "\<not> Option.is_none ?y" by code_simp
  then have y: "?y = Some (the ?y)" by (rule steps_Some)
  have wait: "rd_waiting (the ?y) = Some 3" and "rd_started (the ?y) = 1" by code_simp+
  with waiting_encoder_runs [OF reach _ y wait] show ?thesis by (simp add: Let_def max_int64_def)
qed

section \<open>What does not hold\<close>

text \<open>A user watches, jumps ahead (the encoder is stopped in the middle of segment 1) and jumps back.\<close>

definition jump_and_return :: "seg_event list" where
  "jump_and_return = watching @ [Poll 1 True, Request 100 2 True, EncOpen, EncWrite, EncOpen, Poll 3 True, Request 1 4 True]"


definition jump :: "seg_event list" where
  "jump = watching @ [GiveUp, Request 100 2 True, GiveUp]"

lemma retry_again:
  assumes "rd_session r = Some (new_session 100 2)" and "rd_waiting r = None"
    and "find_segment 100 (rd_dir r) = None" and "highest_segment_index (rd_dir r) = Some 1"
    and "remove_segments_from 100 (rd_dir r) = rd_dir r"
  shows "seg_steps 200 [Request 100 2 True, GiveUp] r = Some (r\<lparr>rd_started := rd_started r + 1\<rparr>)"
  using assms
  by (cases r) (simp add: seg_step_def resolve_segment_def decide_segment_def segment_complete_def needs_restart_def
      restart_session_def segment_gap_threshold_def new_session_def)

lemma steps_append: "seg_steps count (es @ fs) r = (case seg_steps count es r of None \<Rightarrow> None | Some r' \<Rightarrow> seg_steps count fs r')"
  by (induction es arbitrary: r) (auto split: option.splits)


end
