(* ===== verification/SkipMatch.thy ===== *)
theory SkipMatch
  imports GoNumbers "HOL-Library.Word"
begin

text \<open>
  The alignment of two audio fingerprints: \<open>internal/skipsegment/match.go\<close> with the constants of
  \<open>chapters.go\<close>. A fingerprint is a list of 32-bit items, one for 4096/33075 of a second. Two fingerprints are laid
  over each other at every skew, the agreement of the items is smoothed, and the longest good run is kept. A \<open>float64\<close>
  is a rational.
\<close>

unbundle bit_operations_syntax

section \<open>Constants\<close>

definition min_intro_sec :: rat where "min_intro_sec = 10"
definition max_intro_sec :: rat where "max_intro_sec = 150"
definition max_start_skew_sec :: rat where "max_start_skew_sec = 180"
definition item_duration :: rat where "item_duration = 4096 / (3 * 11025)"
definition bit_match_threshold :: rat where "bit_match_threshold = 7 / 10"
definition local_window_items :: nat where "local_window_items = 5"

section \<open>Agreement of two items\<close>

definition ones_count :: "32 word \<Rightarrow> nat" where
  "ones_count w = length (filter (bit w) [0..<32])"

definition bit_agreement :: "32 word \<Rightarrow> 32 word \<Rightarrow> rat" where
  "bit_agreement l r = of_nat (32 - ones_count (l XOR r)) / 32"

lemma ones_count_le: "ones_count w \<le> 32"
  using length_filter_le [of "bit w" "[0..<32]"] by (simp add: ones_count_def)

lemma bit_agreement_bounds: "0 \<le> bit_agreement l r" "bit_agreement l r \<le> 1"
  by (simp_all add: bit_agreement_def)

lemma bit_agreement_self [simp]: "bit_agreement x x = 1"
  by (simp add: bit_agreement_def ones_count_def)

section \<open>Smoothing\<close>

definition range_sum :: "rat list \<Rightarrow> nat \<Rightarrow> nat \<Rightarrow> rat" where
  "range_sum xs i j = sum_list (map ((!) xs) [i..<j])"

definition smooth_at :: "rat list \<Rightarrow> nat \<Rightarrow> nat \<Rightarrow> rat" where
  "smooth_at scores half i = (let start = i - half; stop = min (i + half + 1) (length scores) in
     range_sum scores start stop / of_nat (stop - start))"

definition smooth_scores :: "rat list \<Rightarrow> nat \<Rightarrow> rat list" where
  "smooth_scores scores window = (if window \<le> 1 \<or> scores = [] then scores
     else map (smooth_at scores (window div 2)) [0..<length scores])"

lemma length_smooth [simp]: "length (smooth_scores scores window) = length scores"
  by (simp add: smooth_scores_def)

lemma range_sum_bounds:
  assumes "\<And>k. i \<le> k \<Longrightarrow> k < j \<Longrightarrow> lo \<le> xs ! k" and "\<And>k. i \<le> k \<Longrightarrow> k < j \<Longrightarrow> xs ! k \<le> hi" and "i \<le> j"
  shows "of_nat (j - i) * lo \<le> range_sum xs i j \<and> range_sum xs i j \<le> of_nat (j - i) * hi"
  using assms
proof (induction j)
  case (Suc j)
  show ?case
  proof (cases "i \<le> j")
    case True
    then have "lo \<le> xs ! j" "xs ! j \<le> hi" using Suc.prems by simp_all
    moreover have "of_nat (j - i) * lo \<le> range_sum xs i j \<and> range_sum xs i j \<le> of_nat (j - i) * hi"
      using Suc True by simp
    ultimately show ?thesis using True by (simp add: range_sum_def Suc_diff_le algebra_simps)
  next
    case False
    with Suc.prems show ?thesis by (simp add: range_sum_def)
  qed
qed (simp add: range_sum_def)

lemma mean_bounds:
  assumes "\<And>k. i \<le> k \<Longrightarrow> k < j \<Longrightarrow> lo \<le> xs ! k" and "\<And>k. i \<le> k \<Longrightarrow> k < j \<Longrightarrow> xs ! k \<le> hi" and "i < j"
  shows "lo \<le> range_sum xs i j / of_nat (j - i)" and "range_sum xs i j / of_nat (j - i) \<le> hi"
proof -
  have *: "of_nat (j - i) * lo \<le> range_sum xs i j \<and> range_sum xs i j \<le> of_nat (j - i) * hi"
    by (rule range_sum_bounds) (use assms in auto)
  have "(0::rat) < of_nat (j - i)" using assms(3) by simp
  with * show "lo \<le> range_sum xs i j / of_nat (j - i)" and "range_sum xs i j / of_nat (j - i) \<le> hi"
    by (simp_all add: pos_le_divide_eq pos_divide_le_eq mult.commute)
qed

lemma nth_smooth:
  assumes "1 < window" and "i < length scores"
  shows "smooth_scores scores window ! i = smooth_at scores (window div 2) i"
  using assms by (simp add: smooth_scores_def) fastforce

text \<open>The smoothed score lies between the extremes of the scores it is made from.\<close>

lemma smooth_between:
  assumes "1 < window" and "i < length scores"
    and "\<And>k. i - window div 2 \<le> k \<Longrightarrow> k < i + window div 2 + 1 \<Longrightarrow> k < length scores \<Longrightarrow> lo \<le> scores ! k \<and> scores ! k \<le> hi"
  shows "lo \<le> smooth_scores scores window ! i \<and> smooth_scores scores window ! i \<le> hi"
proof -
  have "i - window div 2 < min (i + window div 2 + 1) (length scores)"
    unfolding min_less_iff_conj using assms(2) by linarith
  then show ?thesis
    using assms mean_bounds [of "i - window div 2" "min (i + window div 2 + 1) (length scores)" lo scores hi]
    by (simp add: nth_smooth smooth_at_def Let_def)
qed

section \<open>The best window of a long run\<close>

definition slide_step :: "rat list \<Rightarrow> nat \<Rightarrow> rat \<times> rat \<times> nat \<Rightarrow> nat \<Rightarrow> rat \<times> rat \<times> nat" where
  "slide_step scores window st start = (case st of (s, best_sum, best_start) \<Rightarrow>
     let s' = s + (scores ! (start + window - 1) - scores ! (start - 1)) in
     if best_sum < s' then (s', s', start) else (s', best_sum, best_start))"

definition best_subwindow :: "rat list \<Rightarrow> nat \<Rightarrow> nat \<Rightarrow> nat \<Rightarrow> nat \<times> nat" where
  "best_subwindow scores run_start run_end window =
     (if run_end - run_start \<le> window then (run_start, run_end)
      else let s0 = range_sum scores run_start (run_start + window) in
        case foldl (slide_step scores window) (s0, s0, run_start) [run_start + 1..<run_end - window + 1] of
          (_, _, b) \<Rightarrow> (b, b + window))"

lemma range_sum_slide:
  assumes "0 < window" and "a \<le> s"
  shows "range_sum xs s (s + window) + (xs ! (Suc s + window - 1) - xs ! (Suc s - 1)) = range_sum xs (Suc s) (Suc s + window)"
proof -
  have "[s..<s + window] = s # [Suc s..<s + window]" using assms by (simp add: upt_conv_Cons)
  moreover have "[Suc s..<Suc s + window] = [Suc s..<s + window] @ [s + window]" using assms by simp
  ultimately show ?thesis by (simp add: range_sum_def)
qed

text \<open>After the windows up to \<open>a + n\<close>, the first of the best ones is known.\<close>

lemma slide_windows:
  assumes "0 < window"
  shows "\<exists>b. foldl (slide_step xs window) (range_sum xs a (a + window), range_sum xs a (a + window), a) [a + 1..<a + n + 1]
      = (range_sum xs (a + n) (a + n + window), range_sum xs b (b + window), b) \<and> a \<le> b \<and> b \<le> a + n \<and>
      (\<forall>s. a \<le> s \<longrightarrow> s \<le> a + n \<longrightarrow> range_sum xs s (s + window) \<le> range_sum xs b (b + window)) \<and>
      (\<forall>s. a \<le> s \<longrightarrow> s < b \<longrightarrow> range_sum xs s (s + window) < range_sum xs b (b + window))"
proof (induction n)
  case 0
  show ?case by (rule exI [of _ a]) (auto dest: le_antisym)
next
  case (Suc n)
  then obtain b where run: "foldl (slide_step xs window) (range_sum xs a (a + window), range_sum xs a (a + window), a) [a + 1..<a + n + 1]
      = (range_sum xs (a + n) (a + n + window), range_sum xs b (b + window), b)"
    and b: "a \<le> b" "b \<le> a + n"
    and best: "\<And>s. a \<le> s \<Longrightarrow> s \<le> a + n \<Longrightarrow> range_sum xs s (s + window) \<le> range_sum xs b (b + window)"
    and first: "\<And>s. a \<le> s \<Longrightarrow> s < b \<Longrightarrow> range_sum xs s (s + window) < range_sum xs b (b + window)"
    by blast
  let ?w = "\<lambda>s. range_sum xs s (s + window)"
  have step: "?w (a + n) + (xs ! (a + Suc n + window - 1) - xs ! (a + Suc n - 1)) = ?w (a + Suc n)"
    using range_sum_slide [OF assms, of a "a + n" xs] by simp
  have upt: "[a + 1..<a + Suc n + 1] = [a + 1..<a + n + 1] @ [a + Suc n]" by simp
  show ?case
  proof (cases "?w b < ?w (a + Suc n)")
    case True
    have less: "?w s < ?w (a + Suc n)" if "a \<le> s" "s < a + Suc n" for s
      using best [of s] that True by simp
    show ?thesis
    proof (intro exI [of _ "a + Suc n"] conjI allI impI)
      show "foldl (slide_step xs window) (?w a, ?w a, a) [a + 1..<a + Suc n + 1] = (?w (a + Suc n), ?w (a + Suc n), a + Suc n)"
        unfolding upt foldl_append run using True step by (simp add: slide_step_def Let_def)
      fix s assume "a \<le> s" "s \<le> a + Suc n"
      then show "?w s \<le> ?w (a + Suc n)" using less [of s] by (cases "s = a + Suc n") auto
    qed (use less in auto)
  next
    case False
    show ?thesis
    proof (intro exI [of _ b] conjI allI impI)
      show "foldl (slide_step xs window) (?w a, ?w a, a) [a + 1..<a + Suc n + 1] = (?w (a + Suc n), ?w b, b)"
        unfolding upt foldl_append run using False step by (simp add: slide_step_def Let_def)
      fix s assume "a \<le> s" "s \<le> a + Suc n"
      then show "?w s \<le> ?w b" using best [of s] False by (cases "s = a + Suc n") auto
    qed (use b first in auto)
  qed
qed

text \<open>The window is the first of those with the greatest sum, although only one sum is computed from scratch.\<close>

lemma best_subwindow_greatest:
  assumes "best_subwindow xs run_start run_end window = (a, b)" and "0 < window" and "window < run_end - run_start"
  shows "b = a + window \<and> run_start \<le> a \<and> b \<le> run_end \<and>
    (\<forall>s. run_start \<le> s \<longrightarrow> s + window \<le> run_end \<longrightarrow> range_sum xs s (s + window) \<le> range_sum xs a b) \<and>
    (\<forall>s. run_start \<le> s \<longrightarrow> s < a \<longrightarrow> range_sum xs s (s + window) < range_sum xs a b)"
proof -
  define n where "n = run_end - window - run_start"
  have stop: "run_end - window + 1 = run_start + n + 1" and last: "run_start + n + window = run_end"
    using assms(3) by (simp_all add: n_def)
  show ?thesis
    using assms slide_windows [OF assms(2), of xs run_start n] last
    by (auto simp: best_subwindow_def Let_def stop split: prod.splits)
qed

section \<open>The best run at one skew\<close>

text \<open>\<open>MatchRange\<close>; the lengths of the ranges are the same, the end is exclusive.\<close>

record match_range =
  fm_start_a :: int
  fm_end_a :: int
  fm_start_b :: int
  fm_end_b :: int
  fm_offset :: int
  fm_score :: rat
  fm_duration :: rat

definition better_match :: "match_range option \<Rightarrow> match_range option \<Rightarrow> bool" where
  "better_match candidate best = (case candidate of None \<Rightarrow> False
     | Some c \<Rightarrow> (case best of None \<Rightarrow> True
        | Some b \<Rightarrow> if fm_score b < fm_score c then True
                    else fm_score c = fm_score b \<and> fm_duration b < fm_duration c))"

definition match_from_run :: "int \<Rightarrow> int \<Rightarrow> int \<Rightarrow> rat list \<Rightarrow> match_range" where
  "match_from_run offset start_a end_a scores = \<lparr>fm_start_a = start_a, fm_end_a = end_a, fm_start_b = start_a + offset,
     fm_end_b = end_a + offset, fm_offset = offset, fm_score = sum_list scores / of_nat (length scores),
     fm_duration = of_int (end_a - start_a) * item_duration\<rparr>"

text \<open>What the loop does when a run has ended.\<close>

definition close_run :: "int \<Rightarrow> int \<Rightarrow> rat list \<Rightarrow> nat \<Rightarrow> nat \<Rightarrow> nat \<Rightarrow> nat \<Rightarrow> match_range option \<Rightarrow> match_range option" where
  "close_run offset start_a smoothed min_items max_items run_start run_end best =
     (case (if max_items < run_end - run_start then best_subwindow smoothed run_start run_end max_items else (run_start, run_end)) of
        (s, e) \<Rightarrow> if min_items \<le> e - s
          then let candidate = match_from_run offset (start_a + int s) (start_a + int e) (take (e - s) (drop s smoothed)) in
            if better_match (Some candidate) best then Some candidate else best
          else best)"

definition run_step :: "int \<Rightarrow> int \<Rightarrow> rat list \<Rightarrow> nat \<Rightarrow> nat \<Rightarrow> nat option \<times> match_range option \<Rightarrow> nat
    \<Rightarrow> nat option \<times> match_range option" where
  "run_step offset start_a smoothed min_items max_items st i = (case st of (run, best) \<Rightarrow>
     if i < length smoothed \<and> bit_match_threshold \<le> smoothed ! i
     then ((case run of None \<Rightarrow> Some i | Some s \<Rightarrow> Some s), best)
     else (case run of None \<Rightarrow> (None, best)
       | Some s \<Rightarrow> (None, close_run offset start_a smoothed min_items max_items s i best)))"

definition overlap_start :: "int \<Rightarrow> int" where
  "overlap_start offset = (if offset < 0 then - offset else 0)"

definition overlap_end :: "'a list \<Rightarrow> 'a list \<Rightarrow> int \<Rightarrow> int" where
  "overlap_end left right offset = min (int (length left)) (int (length right) - offset)"

definition overlap_scores :: "32 word list \<Rightarrow> 32 word list \<Rightarrow> int \<Rightarrow> rat list" where
  "overlap_scores left right offset =
     map (\<lambda>k. bit_agreement (left ! nat (overlap_start offset + int k)) (right ! nat (overlap_start offset + int k + offset)))
       [0..<nat (overlap_end left right offset - overlap_start offset)]"

definition best_run_at_offset :: "32 word list \<Rightarrow> 32 word list \<Rightarrow> int \<Rightarrow> nat \<Rightarrow> nat \<Rightarrow> match_range option" where
  "best_run_at_offset left right offset min_items max_items =
     (if overlap_end left right offset - overlap_start offset < int min_items then None
      else let smoothed = smooth_scores (overlap_scores left right offset) local_window_items in
        snd (foldl (run_step offset (overlap_start offset) smoothed min_items max_items) (None, None) [0..<length smoothed + 1]))"

section \<open>The best alignment\<close>

definition max_skew_items :: "rat \<Rightarrow> int" where
  "max_skew_items skew = max \<lceil>skew / item_duration\<rceil> 0"

definition min_intro_items :: nat where
  "min_intro_items = max (nat \<lceil>min_intro_sec / item_duration\<rceil>) 1"

definition max_intro_items :: nat where
  "max_intro_items = max (nat \<lfloor>max_intro_sec / item_duration\<rfloor>) min_intro_items"

definition offset_step :: "32 word list \<Rightarrow> 32 word list \<Rightarrow> match_range option \<Rightarrow> int \<Rightarrow> match_range option" where
  "offset_step left right best offset =
     (let candidate = best_run_at_offset left right offset min_intro_items max_intro_items in
      if candidate = None then best else if better_match candidate best then candidate else best)"

definition longest_match :: "32 word list \<Rightarrow> 32 word list \<Rightarrow> rat \<Rightarrow> match_range option" where
  "longest_match left right skew =
     (if left = [] \<or> right = [] then None
      else foldl (offset_step left right) None [- max_skew_items skew..max_skew_items skew])"

definition item_index_to_ms :: "int \<Rightarrow> int" where
  "item_index_to_ms i = (if i \<le> 0 then 0 else \<lfloor>of_int i * item_duration * 1000 + 1 / 2\<rfloor>)"

lemma min_intro_items: "min_intro_items = 81"
  by (simp add: min_intro_items_def min_intro_sec_def item_duration_def) (code_simp)

lemma max_intro_items: "max_intro_items = 1211"
  unfolding max_intro_items_def min_intro_items by (simp add: max_intro_sec_def item_duration_def) (code_simp)

section \<open>What a match is\<close>

text \<open>A run that is good at every item, long enough and not too long, with the mean of its scores.\<close>

definition run_ok :: "int \<Rightarrow> int \<Rightarrow> rat list \<Rightarrow> nat \<Rightarrow> nat \<Rightarrow> match_range \<Rightarrow> bool" where
  "run_ok offset start_a smoothed min_items max_items c \<longleftrightarrow>
     (\<exists>s e. s \<le> e \<and> e \<le> length smoothed \<and> min_items \<le> e - s \<and> e - s \<le> max_items \<and>
       (\<forall>k. s \<le> k \<longrightarrow> k < e \<longrightarrow> bit_match_threshold \<le> smoothed ! k) \<and>
       c = match_from_run offset (start_a + int s) (start_a + int e) (take (e - s) (drop s smoothed)))"

lemma close_run_ok:
  assumes run: "s \<le> i" "i \<le> length smoothed" "\<And>k. s \<le> k \<Longrightarrow> k < i \<Longrightarrow> bit_match_threshold \<le> smoothed ! k"
    and items: "0 < min_items" "min_items \<le> max_items"
    and best: "\<And>c. best = Some c \<Longrightarrow> run_ok offset start_a smoothed min_items max_items c"
  shows "close_run offset start_a smoothed min_items max_items s i best = Some c \<Longrightarrow>
      run_ok offset start_a smoothed min_items max_items c"
    and "best \<noteq> None \<or> min_items \<le> i - s \<Longrightarrow> close_run offset start_a smoothed min_items max_items s i best \<noteq> None"
proof -
  obtain a b where ab: "(if max_items < i - s then best_subwindow smoothed s i max_items else (s, i)) = (a, b)" by fastforce
  have bounds: "s \<le> a \<and> a \<le> b \<and> b \<le> i \<and> b - a \<le> max_items \<and> (min_items \<le> i - s \<longrightarrow> min_items \<le> b - a)"
  proof (cases "max_items < i - s")
    case True
    with ab best_subwindow_greatest [of smoothed s i max_items a b] items show ?thesis by auto
  next
    case False
    with ab run show ?thesis by auto
  qed
  then have ok: "run_ok offset start_a smoothed min_items max_items
      (match_from_run offset (start_a + int a) (start_a + int b) (take (b - a) (drop a smoothed)))" if "min_items \<le> b - a"
    using run that unfolding run_ok_def by (intro exI [of _ a] exI [of _ b]) auto
  show "close_run offset start_a smoothed min_items max_items s i best = Some c \<Longrightarrow>
      run_ok offset start_a smoothed min_items max_items c"
    using ok best by (auto simp: close_run_def ab Let_def split: if_splits)
  show "best \<noteq> None \<or> min_items \<le> i - s \<Longrightarrow> close_run offset start_a smoothed min_items max_items s i best \<noteq> None"
    using bounds by (cases best) (simp_all add: close_run_def ab Let_def better_match_def)
qed

text \<open>The state of the scan before item \<open>i\<close>.\<close>

definition scan_inv :: "int \<Rightarrow> int \<Rightarrow> rat list \<Rightarrow> nat \<Rightarrow> nat \<Rightarrow> nat \<Rightarrow> nat option \<times> match_range option \<Rightarrow> bool" where
  "scan_inv offset start_a smoothed min_items max_items i st \<longleftrightarrow>
     (\<forall>c. snd st = Some c \<longrightarrow> run_ok offset start_a smoothed min_items max_items c) \<and>
     (\<forall>s. fst st = Some s \<longrightarrow> s \<le> i \<and> i \<le> length smoothed \<and> (\<forall>k. s \<le> k \<longrightarrow> k < i \<longrightarrow> bit_match_threshold \<le> smoothed ! k)) \<and>
     (\<forall>a. snd st = None \<longrightarrow> (\<forall>k. a \<le> k \<longrightarrow> k < a + min_items \<longrightarrow> k < length smoothed \<and> bit_match_threshold \<le> smoothed ! k) \<longrightarrow>
        (case fst st of None \<Rightarrow> i \<le> a | Some s \<Rightarrow> s \<le> a))"

lemma scan_inv_step:
  assumes inv: "scan_inv offset start_a smoothed min_items max_items i st" and i: "i \<le> length smoothed"
    and items: "0 < min_items" "min_items \<le> max_items"
  shows "scan_inv offset start_a smoothed min_items max_items (Suc i) (run_step offset start_a smoothed min_items max_items st i)"
proof -
  obtain run best where st: "st = (run, best)" by fastforce
  have best: "\<And>c. best = Some c \<Longrightarrow> run_ok offset start_a smoothed min_items max_items c"
    using inv by (simp add: scan_inv_def st)
  let ?good = "i < length smoothed \<and> bit_match_threshold \<le> smoothed ! i"
  let ?window = "\<lambda>a. \<forall>k. a \<le> k \<longrightarrow> k < a + min_items \<longrightarrow> k < length smoothed \<and> bit_match_threshold \<le> smoothed ! k"
  show ?thesis
  proof (cases ?good)
    case True
    then have res: "run_step offset start_a smoothed min_items max_items st i = (Some (case run of None \<Rightarrow> i | Some s \<Rightarrow> s), best)"
      by (simp add: run_step_def st split: option.splits)
    have "(case run of None \<Rightarrow> i | Some s \<Rightarrow> s) \<le> a" if "best = None" "?window a" for a
      using inv that unfolding scan_inv_def st fst_conv snd_conv by (cases run) simp_all
    with best inv True show ?thesis
      unfolding res by (cases run) (auto simp: scan_inv_def st less_Suc_eq)
  next
    case bad: False
    have avoid: "Suc i \<le> a" if "?window a" "case run of None \<Rightarrow> i \<le> a | Some s \<Rightarrow> s \<le> a \<and> i - s < min_items" for a
    proof (rule ccontr)
      assume "\<not> Suc i \<le> a"
      then have "a \<le> i" by simp
      moreover have "i < a + min_items" using that(2) items \<open>a \<le> i\<close> by (auto split: option.splits)
      ultimately show False using that(1) bad by blast
    qed
    show ?thesis
    proof (cases run)
      case None
      with bad inv best avoid show ?thesis by (auto simp: scan_inv_def st run_step_def)
    next
      case (Some s)
      have run: "s \<le> i" "\<And>k. s \<le> k \<Longrightarrow> k < i \<Longrightarrow> bit_match_threshold \<le> smoothed ! k"
        using inv Some by (auto simp: scan_inv_def st)
      note close = close_run_ok [where best = best and offset = offset and start_a = start_a, OF run(1) i run(2) items best]
      have res: "run_step offset start_a smoothed min_items max_items st i
          = (None, close_run offset start_a smoothed min_items max_items s i best)"
        using bad Some by (auto simp: run_step_def st)
      have "Suc i \<le> a" if none: "close_run offset start_a smoothed min_items max_items s i best = None" and w: "?window a" for a
      proof (rule avoid [OF w])
        have "\<not> (best \<noteq> None \<or> min_items \<le> i - s)" using close(2) none by blast
        then have "best = None" "i - s < min_items" by simp_all
        moreover have "s \<le> a" using inv w Some \<open>best = None\<close> by (simp add: scan_inv_def st)
        ultimately show "case run of None \<Rightarrow> i \<le> a | Some s \<Rightarrow> s \<le> a \<and> i - s < min_items" using Some by simp
      qed
      with close(1) show ?thesis unfolding res by (simp add: scan_inv_def)
    qed
  qed
qed

lemma scan_inv_loop:
  assumes items: "0 < min_items" "min_items \<le> max_items" and n: "n \<le> length smoothed + 1"
  shows "scan_inv offset start_a smoothed min_items max_items n
    (foldl (run_step offset start_a smoothed min_items max_items) (None, None) [0..<n])"
  using n
proof (induction n)
  case 0
  show ?case by (simp add: scan_inv_def)
next
  case (Suc n)
  then show ?case using scan_inv_step [OF _ _ items, of offset start_a smoothed n] by simp
qed

lemma length_overlap_scores [simp]:
  "length (overlap_scores left right offset) = nat (overlap_end left right offset - overlap_start offset)"
  by (simp add: overlap_scores_def)

lemma best_run_sound:
  assumes "best_run_at_offset left right offset min_items max_items = Some c" and "0 < min_items" "min_items \<le> max_items"
  shows "run_ok offset (overlap_start offset) (smooth_scores (overlap_scores left right offset) local_window_items) min_items max_items c"
  using assms scan_inv_loop [OF assms(2,3) order.refl]
  by (fastforce simp: best_run_at_offset_def Let_def scan_inv_def split: if_splits)

lemma scan_inv_finds:
  assumes inv: "scan_inv offset start_a smoothed min_items max_items (length smoothed + 1) st" and "0 < min_items"
    and window: "\<forall>k. a \<le> k \<longrightarrow> k < a + min_items \<longrightarrow> k < length smoothed \<and> bit_match_threshold \<le> smoothed ! k"
  shows "snd st \<noteq> None"
proof
  assume none: "snd st = None"
  have a: "a < length smoothed" using window assms(2) by simp
  have "case fst st of None \<Rightarrow> length smoothed + 1 \<le> a | Some s \<Rightarrow> s \<le> a"
    using inv none window unfolding scan_inv_def by blast
  moreover have "fst st = None" using inv by (cases "fst st") (simp_all add: scan_inv_def)
  ultimately show False using a by simp
qed

lemma best_run_complete:
  assumes items: "0 < min_items" "min_items \<le> max_items"
    and a: "int (a + min_items) \<le> overlap_end left right offset - overlap_start offset"
    and good: "\<And>k. a \<le> k \<Longrightarrow> k < a + min_items \<Longrightarrow>
      bit_match_threshold \<le> smooth_scores (overlap_scores left right offset) local_window_items ! k"
  shows "best_run_at_offset left right offset min_items max_items \<noteq> None"
proof -
  let ?s = "smooth_scores (overlap_scores left right offset) local_window_items"
  let ?st = "foldl (run_step offset (overlap_start offset) ?s min_items max_items) (None, None) [0..<length ?s + 1]"
  have inv: "scan_inv offset (overlap_start offset) ?s min_items max_items (length ?s + 1) ?st"
    by (rule scan_inv_loop [OF items order.refl])
  have window: "\<forall>k. a \<le> k \<longrightarrow> k < a + min_items \<longrightarrow> k < length ?s \<and> bit_match_threshold \<le> ?s ! k"
    using good a by auto
  from scan_inv_finds [OF inv items(1) window] have "snd ?st \<noteq> None" .
  then show ?thesis using a by (simp add: best_run_at_offset_def Let_def)
qed

section \<open>The best alignment, over all skews\<close>

lemma better_match_score: "better_match (Some c) (Some b) \<Longrightarrow> fm_score b \<le> fm_score c"
  by (auto simp: better_match_def split: if_splits)

lemma not_better_match_score: "\<not> better_match (Some c) (Some b) \<Longrightarrow> fm_score c \<le> fm_score b"
  by (auto simp: better_match_def split: if_splits)

definition best_among :: "(int \<Rightarrow> match_range option) \<Rightarrow> int list \<Rightarrow> match_range option \<Rightarrow> bool" where
  "best_among run offsets best \<longleftrightarrow> (case best of None \<Rightarrow> \<forall>offset \<in> set offsets. run offset = None
    | Some m \<Rightarrow> (\<exists>offset \<in> set offsets. run offset = Some m) \<and>
        (\<forall>offset \<in> set offsets. \<forall>c. run offset = Some c \<longrightarrow> fm_score c \<le> fm_score m))"

lemma best_among_snoc:
  assumes "best_among run offsets b"
  shows "best_among run (offsets @ [offset])
    (if run offset = None then b else if better_match (run offset) b then run offset else b)"
proof (cases "run offset")
  case None
  with assms show ?thesis by (auto simp: best_among_def split: option.splits)
next
  case run: (Some c)
  show ?thesis
  proof (cases b)
    case None
    with run assms show ?thesis by (simp add: best_among_def better_match_def)
  next
    case (Some m)
    have m: "\<And>o' c'. o' \<in> set offsets \<Longrightarrow> run o' = Some c' \<Longrightarrow> fm_score c' \<le> fm_score m"
      and found: "\<exists>o' \<in> set offsets. run o' = Some m"
      using assms Some by (auto simp: best_among_def)
    show ?thesis
    proof (cases "better_match (Some c) (Some m)")
      case True
      with better_match_score have "fm_score m \<le> fm_score c" by blast
      with m run Some True show ?thesis by (auto simp: best_among_def intro: order_trans)
    next
      case False
      with not_better_match_score have "fm_score c \<le> fm_score m" by blast
      with m found run Some False show ?thesis by (auto simp: best_among_def)
    qed
  qed
qed

lemma offsets_best:
  "best_among (\<lambda>offset. best_run_at_offset left right offset min_intro_items max_intro_items) offsets
    (foldl (offset_step left right) None offsets)"
proof (induction offsets rule: rev_induct)
  case Nil
  show ?case by (simp add: best_among_def)
next
  case (snoc offset offsets)
  have "offset_step left right b offset = (if best_run_at_offset left right offset min_intro_items max_intro_items = None then b
      else if better_match (best_run_at_offset left right offset min_intro_items max_intro_items) b
        then best_run_at_offset left right offset min_intro_items max_intro_items else b)" for b
    by (simp add: offset_step_def Let_def)
  with best_among_snoc [OF snoc, of offset] show ?case by (simp only: foldl_append foldl.simps)
qed

lemma overlap_scores_le: "k < length (overlap_scores left right offset) \<Longrightarrow> overlap_scores left right offset ! k \<le> 1"
  by (simp add: overlap_scores_def bit_agreement_bounds)

lemma overlap_scores_ge: "k < length (overlap_scores left right offset) \<Longrightarrow> 0 \<le> overlap_scores left right offset ! k"
  by (simp add: overlap_scores_def bit_agreement_bounds)

lemma smoothed_le:
  assumes "k < length (overlap_scores left right offset)"
  shows "smooth_scores (overlap_scores left right offset) local_window_items ! k \<le> 1"
  using smooth_between [of local_window_items k "overlap_scores left right offset" 0 1] assms overlap_scores_le overlap_scores_ge
  by (simp add: local_window_items_def)

lemma mean_of_run:
  fixes lo :: rat
  assumes "s < e" and "e \<le> length xs" and "\<And>k. s \<le> k \<Longrightarrow> k < e \<Longrightarrow> lo \<le> xs ! k \<and> xs ! k \<le> hi"
  shows "lo \<le> sum_list (take (e - s) (drop s xs)) / of_nat (length (take (e - s) (drop s xs)))"
    and "sum_list (take (e - s) (drop s xs)) / of_nat (length (take (e - s) (drop s xs))) \<le> hi"
proof -
  have "take (e - s) (drop s xs) = map ((!) xs) [s..<e]"
    using assms(1,2) by (intro nth_equalityI) auto
  then show "lo \<le> sum_list (take (e - s) (drop s xs)) / of_nat (length (take (e - s) (drop s xs)))"
    and "sum_list (take (e - s) (drop s xs)) / of_nat (length (take (e - s) (drop s xs))) \<le> hi"
    using mean_bounds [of s e lo xs hi] assms by (simp_all add: range_sum_def)
qed

lemma longest_match_run:
  assumes "longest_match left right skew = Some m"
  obtains offset where "\<bar>offset\<bar> \<le> max_skew_items skew"
    and "best_run_at_offset left right offset min_intro_items max_intro_items = Some m"
    and "\<And>o' c. \<bar>o'\<bar> \<le> max_skew_items skew \<Longrightarrow>
      best_run_at_offset left right o' min_intro_items max_intro_items = Some c \<Longrightarrow> fm_score c \<le> fm_score m"
proof -
  have "foldl (offset_step left right) None [- max_skew_items skew..max_skew_items skew] = Some m"
    using assms by (simp add: longest_match_def split: if_splits)
  then have among: "best_among (\<lambda>offset. best_run_at_offset left right offset min_intro_items max_intro_items)
      [- max_skew_items skew..max_skew_items skew] (Some m)"
    using offsets_best [of left right "[- max_skew_items skew..max_skew_items skew]"] by simp
  then obtain offset where "offset \<in> {- max_skew_items skew..max_skew_items skew}"
    and run: "best_run_at_offset left right offset min_intro_items max_intro_items = Some m"
    by (auto simp: best_among_def)
  moreover have "fm_score c \<le> fm_score m" if "\<bar>o'\<bar> \<le> max_skew_items skew"
    and "best_run_at_offset left right o' min_intro_items max_intro_items = Some c" for o' c
  proof -
    have "o' \<in> set [- max_skew_items skew..max_skew_items skew]" using that(1) by auto
    with among that(2) show ?thesis unfolding best_among_def option.case by blast
  qed
  ultimately show thesis using that [of offset] by auto
qed

lemma best_run_score:
  assumes "best_run_at_offset left right offset min_intro_items max_intro_items = Some m"
  shows "bit_match_threshold \<le> fm_score m \<and> fm_score m \<le> 1"
proof -
  let ?xs = "smooth_scores (overlap_scores left right offset) local_window_items"
  obtain s e where se: "e \<le> length ?xs" "81 \<le> e - s"
    and good: "\<And>k. s \<le> k \<Longrightarrow> k < e \<Longrightarrow> bit_match_threshold \<le> ?xs ! k"
    and m: "m = match_from_run offset (overlap_start offset + int s) (overlap_start offset + int e) (take (e - s) (drop s ?xs))"
    using best_run_sound [OF assms] unfolding min_intro_items max_intro_items run_ok_def by auto
  then show ?thesis
    using mean_of_run [of s e ?xs bit_match_threshold 1] smoothed_le [of _ left right offset]
    by (simp add: match_from_run_def)
qed

lemma longest_match_score:
  "longest_match left right skew = Some m \<Longrightarrow> bit_match_threshold \<le> fm_score m \<and> fm_score m \<le> 1"
  by (auto elim!: longest_match_run dest: best_run_score)

section \<open>A shared stretch is found\<close>

lemma longest_match_found:
  assumes "best_run_at_offset left right offset min_intro_items max_intro_items \<noteq> None"
    and "\<bar>offset\<bar> \<le> max_skew_items skew" and "left \<noteq> []" "right \<noteq> []"
  shows "longest_match left right skew \<noteq> None"
proof
  assume "longest_match left right skew = None"
  then have "foldl (offset_step left right) None [- max_skew_items skew..max_skew_items skew] = None"
    using assms(3,4) by (simp add: longest_match_def)
  then have "best_among (\<lambda>offset. best_run_at_offset left right offset min_intro_items max_intro_items)
      [- max_skew_items skew..max_skew_items skew] None"
    using offsets_best [of left right "[- max_skew_items skew..max_skew_items skew]"] by simp
  then have none: "\<forall>offset \<in> set [- max_skew_items skew..max_skew_items skew].
      best_run_at_offset left right offset min_intro_items max_intro_items = None"
    by (simp only: best_among_def option.case)
  have "offset \<in> set [- max_skew_items skew..max_skew_items skew]" using assms(2) by auto
  from bspec [OF none this] assms(1) show False by contradiction
qed

text \<open>Four items more than the shortest intro: the smoothing looks two items to each side.\<close>

lemma shared_stretch_run:
  assumes left: "i + 85 \<le> length left" and right: "0 \<le> int i + offset" "int i + offset + 85 \<le> int (length right)"
    and same: "\<And>k. k < 85 \<Longrightarrow> left ! (i + k) = right ! nat (int i + offset + int k)"
  shows "best_run_at_offset left right offset min_intro_items max_intro_items \<noteq> None"
proof (rule best_run_complete)
  define a where "a = nat (int i - overlap_start offset)"
  let ?scores = "overlap_scores left right offset"
  have start: "overlap_start offset \<le> int i" using right by (simp add: overlap_start_def)
  have stop: "int i + 85 \<le> overlap_end left right offset" using left right by (simp add: overlap_end_def)
  have len: "a + 85 \<le> length ?scores" using start stop by (simp add: a_def)
  have one: "?scores ! k = 1" if "a \<le> k" "k < a + 85" for k
  proof -
    define j where "j = k - a"
    have j: "j < 85" and k: "overlap_start offset + int k = int i + int j"
      using that start by (simp_all add: j_def a_def)
    then have "nat (overlap_start offset + int k) = i + j" by simp
    moreover have "overlap_start offset + int k + offset = int i + offset + int j" using k by simp
    ultimately show ?thesis
      using same [OF j] that len by (simp add: overlap_scores_def add.assoc add.commute add.left_commute)
  qed
  show "0 < min_intro_items" "min_intro_items \<le> max_intro_items" by (simp_all add: min_intro_items max_intro_items)
  show "int (a + 2 + min_intro_items) \<le> overlap_end left right offset - overlap_start offset"
    using start stop by (simp add: a_def min_intro_items)
  fix k
  assume k: "a + 2 \<le> k" "k < a + 2 + min_intro_items"
  have "1 \<le> smooth_scores ?scores local_window_items ! k \<and> smooth_scores ?scores local_window_items ! k \<le> 1"
    using k len one by (intro smooth_between) (simp_all add: local_window_items_def min_intro_items)
  then show "bit_match_threshold \<le> smooth_scores ?scores local_window_items ! k"
    by (simp add: bit_match_threshold_def)
qed


text \<open>An opening of ten and a half seconds that two episodes share item by item, at most the searched skew apart, leads to a match.\<close>

lemma shared_opening_found:
  assumes "i + 85 \<le> length left" and "0 \<le> int i + offset" and "int i + offset + 85 \<le> int (length right)"
    and "\<And>k. k < 85 \<Longrightarrow> left ! (i + k) = right ! nat (int i + offset + int k)"
    and "\<bar>offset\<bar> \<le> max_skew_items skew"
  shows "longest_match left right skew \<noteq> None"
proof (rule longest_match_found [OF shared_stretch_run [OF assms(1-4)] assms(5)])
  show "left \<noteq> []" "right \<noteq> []" using assms(1-3) by auto
qed
text \<open>The shortest fingerprint that can hold an intro matches itself, and only as a whole.\<close>

lemma minimal_self_match:
  assumes "length fp = 81"
  obtains m where "longest_match fp fp skew = Some m" and "fm_start_a m = 0" and "fm_end_a m = 81"
    and "fm_start_b m = 0" and "fm_end_b m = 81" and "fm_duration m = 81 * item_duration"
proof -
  let ?xs = "overlap_scores fp fp 0"
  have one: "?xs ! k = 1" if "k < 81" for k
    using that assms by (simp add: overlap_scores_def overlap_end_def overlap_start_def)
  have "best_run_at_offset fp fp 0 min_intro_items max_intro_items \<noteq> None"
  proof (rule best_run_complete [of _ _ 0])
    fix k
    assume "k < 0 + min_intro_items"
    then have "1 \<le> smooth_scores ?xs local_window_items ! k \<and> smooth_scores ?xs local_window_items ! k \<le> 1"
      using one assms by (intro smooth_between)
        (simp_all add: local_window_items_def min_intro_items overlap_end_def overlap_start_def)
    then show "bit_match_threshold \<le> smooth_scores ?xs local_window_items ! k" by (simp add: bit_match_threshold_def)
  qed (simp_all add: min_intro_items max_intro_items overlap_end_def overlap_start_def assms)
  moreover have "fp \<noteq> []" using assms by auto
  ultimately obtain m where m: "longest_match fp fp skew = Some m"
    using longest_match_found [of fp fp 0 skew] by (auto simp: max_skew_items_def)
  then obtain offset where run: "best_run_at_offset fp fp offset min_intro_items max_intro_items = Some m"
    by (rule longest_match_run)
  then have zero: "offset = 0"
    using assms by (auto simp: best_run_at_offset_def min_intro_items overlap_end_def overlap_start_def split: if_splits)
  obtain s e where "e \<le> 81" "81 \<le> e - s" and res: "m = match_from_run 0 (int s) (int e)
      (take (e - s) (drop s (smooth_scores ?xs local_window_items)))"
    using best_run_sound [OF run] assms unfolding zero min_intro_items max_intro_items run_ok_def
    by (auto simp: overlap_start_def overlap_end_def)
  then have "s = 0" "e = 81" by simp_all
  with m res that show thesis by (simp add: match_from_run_def)
qed

end
