(* ===== verification/SkipIntro.thy ===== *)
theory SkipIntro
  imports SkipMatch HlsSource "HOL-Library.List_Lexorder"
begin

text \<open>
  Where an intro is: from chapter titles (\<open>chapters.go\<close>), from the votes of a season's episodes on each other
  (\<open>consensus.go\<close>), and which of the two the player is offered (\<open>merge.go\<close>, \<open>types.go\<close>). Titles are bytes; letter case
  and word boundaries are those of ASCII, the long dash is its three bytes.
\<close>

section \<open>Types\<close>

record intro =
  in_start :: int
  in_end :: int
  in_source :: string

record chapter_cue =
  cu_start :: rat
  cu_end :: rat
  cu_title :: string

record episode_audio =
  ea_path :: string
  ea_duration :: rat
  ea_fingerprint :: "32 word list"
  ea_window :: rat

definition source_chapter :: string where "source_chapter = ''chapter''"
definition source_audio :: string where "source_audio = ''audio''"
definition kind_intro :: string where "kind_intro = ''intro''"
definition engine_version :: int where "engine_version = 1"

section \<open>Titles\<close>

definition is_word_char :: "char \<Rightarrow> bool" where
  "is_word_char c \<longleftrightarrow> (let n = of_char c :: nat in 97 \<le> n \<and> n \<le> 122 \<or> 65 \<le> n \<and> n \<le> 90 \<or> 48 \<le> n \<and> n \<le> 57 \<or> n = 95)"

text \<open>\<open>\s\<close> of a regular expression, which has no vertical tab.\<close>

definition re_space :: "char \<Rightarrow> bool" where
  "re_space c \<longleftrightarrow> (let n = of_char c :: nat in n = 9 \<or> n = 10 \<or> n = 12 \<or> n = 13 \<or> n = 32)"

text \<open>\<open>\b\<close> between what was read and what follows.\<close>

definition word_edge :: "string \<Rightarrow> string \<Rightarrow> bool" where
  "word_edge before rest \<longleftrightarrow> (before \<noteq> [] \<and> is_word_char (last before)) \<noteq> (rest \<noteq> [] \<and> is_word_char (hd rest))"

text \<open>\<open>\b(\<dots>)\b\<close>: the argument gives the lengths that the alternatives can take from a text.\<close>

definition bounded_word :: "(string \<Rightarrow> nat list) \<Rightarrow> string \<Rightarrow> bool" where
  "bounded_word alts s = list_ex (\<lambda>i. word_edge (take i s) (drop i s) \<and>
     list_ex (\<lambda>n. word_edge (take (i + n) s) (drop (i + n) s)) (alts (drop i s))) [0..<length s + 1]"

definition literals :: "string list \<Rightarrow> string \<Rightarrow> nat list" where
  "literals ws rest = map length (filter (has_prefix rest) ws)"

definition previously_on :: "string \<Rightarrow> nat list" where
  "previously_on rest = (if has_prefix rest ''previously''
     then 10 # (let sp = takeWhile re_space (drop 10 rest) in
       if sp \<noteq> [] \<and> has_prefix (drop (10 + length sp) rest) ''on'' then [12 + length sp] else [])
     else [])"

definition recap_words :: "string \<Rightarrow> nat list" where
  "recap_words rest = literals [''recap'', ''summary''] rest @ previously_on rest"

definition intro_words :: "string \<Rightarrow> nat list" where
  "intro_words rest = literals [''intro'', ''opening'', ''theme'', ''title sequence'', ''main titles''] rest"

definition em_dash :: string where "em_dash = [CHR 0xE2, CHR 0x80, CHR 0x94]"

definition op_left :: "string \<Rightarrow> bool" where
  "op_left before \<longleftrightarrow> before = [] \<or> re_space (last before) \<or> last before = CHR ''-'' \<or> last before = CHR ''('' \<or> has_suffix before em_dash"

definition op_right :: "string \<Rightarrow> bool" where
  "op_right rest \<longleftrightarrow> rest = [] \<or> re_space (hd rest) \<or> hd rest = CHR ''-'' \<or> hd rest = CHR '')'' \<or> has_prefix rest em_dash"

definition op_token :: "string \<Rightarrow> bool" where
  "op_token s = list_ex (\<lambda>i. op_left (take i s) \<and> has_prefix (drop i s) ''op'' \<and> op_right (drop (i + 2) s)) [0..<length s + 1]"

definition title_matches_intro :: "string \<Rightarrow> bool" where
  "title_matches_intro raw = (let s = to_lower (trim_space raw) in
     if s = [] then False else bounded_word intro_words s \<or> op_token s)"

definition title_matches_recap :: "string \<Rightarrow> bool" where
  "title_matches_recap raw = (let s = to_lower (trim_space raw) in
     if s = [] then False else bounded_word recap_words s)"

section \<open>Chapters\<close>

definition intro_scan_window :: "rat \<Rightarrow> rat" where
  "intro_scan_window dur = (if dur \<le> 0 then 0 else let w = dur * (3 / 10) in if 600 < w then 600 else w)"

definition seconds_to_ms :: "rat \<Rightarrow> int" where
  "seconds_to_ms s = (if s \<le> 0 then 0 else \<lfloor>s * 1000 + 1 / 2\<rfloor>)"

text \<open>The loop of \<open>IntroFromChapters\<close>; the flag is \<open>prevTitleWasIntro\<close>.\<close>

fun chapter_scan :: "rat \<Rightarrow> bool \<Rightarrow> chapter_cue list \<Rightarrow> intro option" where
  "chapter_scan window prev [] = None"
| "chapter_scan window prev (c # cs) =
     (if \<not> title_matches_intro (cu_title c) \<or> title_matches_recap (cu_title c) then chapter_scan window False cs
      else if prev then chapter_scan window prev cs
      else if cu_end c \<le> cu_start c then chapter_scan window True cs
      else if cu_end c - cu_start c < min_intro_sec \<or> max_intro_sec < cu_end c - cu_start c then chapter_scan window True cs
      else if cu_start c < 0 \<or> window < cu_start c then chapter_scan window True cs
      else Some \<lparr>in_start = seconds_to_ms (cu_start c), in_end = seconds_to_ms (cu_end c), in_source = source_chapter\<rparr>)"

definition intro_from_chapters :: "chapter_cue list \<Rightarrow> rat \<Rightarrow> intro option" where
  "intro_from_chapters chapters dur = (if chapters = [] \<or> dur \<le> 0 then None
     else chapter_scan (intro_scan_window dur) False chapters)"

definition cue_of_chapter :: "chapter_info \<Rightarrow> chapter_cue" where
  "cue_of_chapter c = \<lparr>cu_start = ch_start c, cu_end = ch_end c, cu_title = ch_title c\<rparr>"

definition intro_from_probe :: "source_info \<Rightarrow> intro option" where
  "intro_from_probe info = (if si_chapters info = [] \<or> si_duration info \<le> 0 then None
     else intro_from_chapters (map cue_of_chapter (si_chapters info)) (si_duration info))"

definition resolve_intro :: "intro option \<Rightarrow> intro option \<Rightarrow> intro option" where
  "resolve_intro chapter stored =
     (case chapter of
        Some c \<Rightarrow> if in_start c < in_end c then Some c
          else (case stored of Some s \<Rightarrow> if in_start s < in_end s then Some s else None | None \<Rightarrow> None)
      | None \<Rightarrow> (case stored of Some s \<Rightarrow> if in_start s < in_end s then Some s else None | None \<Rightarrow> None))"

section \<open>Votes of the episodes on each other\<close>

record intro_vote =
  vo_path :: string
  vo_start :: int
  vo_end :: int
  vo_score :: rat

definition valid_intro_bounds :: "int \<Rightarrow> int \<Rightarrow> rat \<Rightarrow> bool" where
  "valid_intro_bounds start stop window =
     (if stop \<le> start then False
      else if stop - start < 10000 \<or> 150000 < stop - start then False
      else if start < 0 then False
      else \<not> (0 < window \<and> window * 1000 < of_int start))"

text \<open>The votes that one pair of episodes adds: none, or one for each.\<close>

definition pair_votes :: "episode_audio \<Rightarrow> episode_audio \<Rightarrow> intro_vote list" where
  "pair_votes l r =
     (if ea_fingerprint l = [] \<or> ea_fingerprint r = [] then []
      else case longest_match (ea_fingerprint l) (ea_fingerprint r) max_start_skew_sec of
        None \<Rightarrow> []
      | Some m \<Rightarrow>
          if fm_duration m < min_intro_sec \<or> max_intro_sec < fm_duration m then []
          else let ls = item_index_to_ms (fm_start_a m); le = item_index_to_ms (fm_end_a m);
                   rs = item_index_to_ms (fm_start_b m); re = item_index_to_ms (fm_end_b m) in
            if \<not> valid_intro_bounds ls le (ea_window l) \<or> \<not> valid_intro_bounds rs re (ea_window r) then []
            else [\<lparr>vo_path = ea_path l, vo_start = ls, vo_end = le, vo_score = fm_score m\<rparr>,
                  \<lparr>vo_path = ea_path r, vo_start = rs, vo_end = re, vo_score = fm_score m\<rparr>])"

fun collect_pairwise_votes :: "episode_audio list \<Rightarrow> intro_vote list" where
  "collect_pairwise_votes [] = []"
| "collect_pairwise_votes (e # es) = concat (map (pair_votes e) es) @ collect_pairwise_votes es"

text \<open>An entry of the map \<open>votesByPath\<close>.\<close>

definition votes_for :: "string \<Rightarrow> intro_vote list \<Rightarrow> intro_vote list" where
  "votes_for path = filter (\<lambda>v. vo_path v = path)"

definition voted_paths :: "intro_vote list \<Rightarrow> string list" where
  "voted_paths votes = sort (remdups (map vo_path votes))"

definition median_range :: "intro_vote list \<Rightarrow> int \<times> int \<times> rat" where
  "median_range votes = (let mid = length votes div 2; confidence = sum_list (map vo_score votes) / of_nat (length votes) in
     (sort (map vo_start votes) ! mid, sort (map vo_end votes) ! mid, if 1 < confidence then 1 else confidence))"

record consensus_hit =
  hi_path :: string
  hi_start :: int
  hi_end :: int
  hi_confidence :: rat

definition partner_floor :: "nat \<Rightarrow> int" where
  "partner_floor n = min (max \<lceil>of_nat n * (1 / 2 :: rat)\<rceil> 1) (int n - 1)"

definition hit_of_votes :: "int \<Rightarrow> intro_vote list \<Rightarrow> string \<Rightarrow> consensus_hit list" where
  "hit_of_votes partners votes path = (let vs = votes_for path votes in
     if int (length vs) < partners then []
     else case median_range vs of (start, stop, confidence) \<Rightarrow>
       if stop - start < 10000 \<or> 150000 < stop - start then []
       else [\<lparr>hi_path = path, hi_start = start, hi_end = stop, hi_confidence = confidence\<rparr>])"

definition consensus_intros :: "episode_audio list \<Rightarrow> consensus_hit list" where
  "consensus_intros episodes =
     (if length episodes < 2 then []
      else let votes = collect_pairwise_votes episodes; paths = voted_paths votes in
        if length paths < 2 \<or> of_nat (length paths) < of_nat (length episodes) * (1 / 2 :: rat) then []
        else concat (map (hit_of_votes (partner_floor (length episodes)) votes) paths))"

section \<open>Laws of the chapter scan\<close>

lemma seconds_to_ms_diff:
  assumes "0 \<le> a" and "min_intro_sec \<le> b - a" and "b - a \<le> max_intro_sec"
  shows "10000 \<le> seconds_to_ms b - seconds_to_ms a \<and> seconds_to_ms b - seconds_to_ms a \<le> 150000"
proof -
  have b: "seconds_to_ms b = \<lfloor>b * 1000 + 1 / 2\<rfloor>" using assms by (simp add: seconds_to_ms_def min_intro_sec_def)
  have a: "seconds_to_ms a = \<lfloor>a * 1000 + 1 / 2\<rfloor>"
  proof (cases "a = 0")
    case True
    then show ?thesis by (simp add: seconds_to_ms_def floor_eq_iff)
  next
    case False
    with assms(1) show ?thesis by (simp add: seconds_to_ms_def)
  qed
  have "\<lfloor>a * 1000 + 1 / 2 + of_int 10000\<rfloor> \<le> \<lfloor>b * 1000 + 1 / 2\<rfloor>"
    using assms(2) by (intro floor_mono) (simp add: min_intro_sec_def)
  moreover have "\<lfloor>b * 1000 + 1 / 2\<rfloor> \<le> \<lfloor>a * 1000 + 1 / 2 + of_int 150000\<rfloor>"
    using assms(3) by (intro floor_mono) (simp add: max_intro_sec_def)
  ultimately show ?thesis unfolding a b floor_add_int [symmetric] by linarith
qed

definition intro_cue :: "rat \<Rightarrow> chapter_cue \<Rightarrow> bool" where
  "intro_cue window c \<longleftrightarrow> title_matches_intro (cu_title c) \<and> \<not> title_matches_recap (cu_title c) \<and>
    0 \<le> cu_start c \<and> cu_start c \<le> window \<and> min_intro_sec \<le> cu_end c - cu_start c \<and> cu_end c - cu_start c \<le> max_intro_sec"

lemma chapter_scan_Some:
  assumes "chapter_scan window prev cs = Some i"
  shows "\<exists>c \<in> set cs. intro_cue window c \<and>
    i = \<lparr>in_start = seconds_to_ms (cu_start c), in_end = seconds_to_ms (cu_end c), in_source = source_chapter\<rparr>"
  using assms
proof (induction cs arbitrary: prev)
  case (Cons c cs)
  show ?case
  proof (cases "intro_cue window c \<and> \<not> prev")
    case True
    then have "cu_start c < cu_end c" by (auto simp: intro_cue_def min_intro_sec_def)
    with True Cons.prems show ?thesis by (auto simp: intro_cue_def)
  next
    case False
    then have "\<exists>p. chapter_scan window p cs = Some i" using Cons.prems
      by (auto simp: intro_cue_def not_less not_le split: if_splits)
    with Cons.IH show ?thesis by fastforce
  qed
qed simp

text \<open>An intro that is taken from the chapters is a chapter with such a title, at the beginning, of 10 to 150 seconds.\<close>

lemma intro_from_chapters_sound:
  assumes "intro_from_chapters chapters dur = Some i"
  shows "10000 \<le> in_end i - in_start i \<and> in_end i - in_start i \<le> 150000 \<and> 0 \<le> in_start i \<and>
    (\<exists>c \<in> set chapters. title_matches_intro (cu_title c) \<and> \<not> title_matches_recap (cu_title c) \<and>
       cu_start c \<le> intro_scan_window dur \<and> in_start i = seconds_to_ms (cu_start c))"
proof -
  have "chapter_scan (intro_scan_window dur) False chapters = Some i"
    using assms by (simp add: intro_from_chapters_def split: if_splits)
  from chapter_scan_Some [OF this] obtain c where c: "c \<in> set chapters"
    "title_matches_intro (cu_title c)" "\<not> title_matches_recap (cu_title c)" "0 \<le> cu_start c" "cu_start c \<le> intro_scan_window dur"
    "min_intro_sec \<le> cu_end c - cu_start c" "cu_end c - cu_start c \<le> max_intro_sec"
    and i: "i = \<lparr>in_start = seconds_to_ms (cu_start c), in_end = seconds_to_ms (cu_end c), in_source = source_chapter\<rparr>"
    unfolding intro_cue_def by blast
  moreover have "0 \<le> seconds_to_ms (cu_start c)" using c(4) by (simp add: seconds_to_ms_def)
  ultimately show ?thesis using seconds_to_ms_diff [OF c(4,6,7)] by auto
qed

lemma intro_from_chapters_demo:
  "intro_from_chapters [\<lparr>cu_start = 0, cu_end = 30, cu_title = ''Previously on''\<rparr>,
     \<lparr>cu_start = 30, cu_end = 95, cu_title = '' Opening''\<rparr>, \<lparr>cu_start = 95, cu_end = 1200, cu_title = ''Part 1''\<rparr>] 1300
   = Some \<lparr>in_start = 30000, in_end = 95000, in_source = source_chapter\<rparr>"
  by code_simp

section \<open>Laws of the consensus\<close>

text \<open>Two episodes that match, in the order in which they are compared.\<close>

definition matching :: "episode_audio \<Rightarrow> episode_audio \<Rightarrow> bool" where
  "matching l r \<longleftrightarrow> longest_match (ea_fingerprint l) (ea_fingerprint r) max_start_skew_sec \<noteq> None"

definition partner :: "episode_audio \<Rightarrow> episode_audio \<Rightarrow> bool" where
  "partner e other \<longleftrightarrow> ea_path other \<noteq> ea_path e \<and> (matching e other \<or> matching other e)"

definition vote_ok :: "intro_vote \<Rightarrow> bool" where
  "vote_ok v \<longleftrightarrow> 0 \<le> vo_start v \<and> vo_start v < vo_end v \<and> bit_match_threshold \<le> vo_score v \<and> vo_score v \<le> 1"

lemma pair_votes_ok:
  assumes "v \<in> set (pair_votes l r)"
  shows "vote_ok v \<and> (vo_path v = ea_path l \<or> vo_path v = ea_path r) \<and> matching l r"
proof -
  from assms obtain m where m: "longest_match (ea_fingerprint l) (ea_fingerprint r) max_start_skew_sec = Some m"
    by (cases "longest_match (ea_fingerprint l) (ea_fingerprint r) max_start_skew_sec") (auto simp: pair_votes_def split: if_splits)
  have "bit_match_threshold \<le> fm_score m \<and> fm_score m \<le> 1" using longest_match_score [OF m] .
  with assms m show ?thesis
    by (auto simp: pair_votes_def Let_def vote_ok_def valid_intro_bounds_def matching_def split: if_splits)
qed

lemma pair_votes_paths:
  "map vo_path (pair_votes l r) = (if pair_votes l r = [] then [] else [ea_path l, ea_path r])"
  by (simp add: pair_votes_def Let_def split: option.splits)

lemma collected_ok:
  assumes "v \<in> set (collect_pairwise_votes es)"
  shows "vote_ok v \<and> vo_path v \<in> ea_path ` set es"
  using assms by (induction es) (auto dest: pair_votes_ok)

lemma length_votes_for: "length (votes_for p vs) = length (filter ((=) p) (map vo_path vs))"
  by (induction vs) (auto simp: votes_for_def)

lemma votes_for_append [simp]: "votes_for p (vs @ ws) = votes_for p vs @ votes_for p ws"
  by (simp add: votes_for_def)

lemma pair_votes_count:
  assumes "ea_path l \<noteq> ea_path r"
  shows "length (votes_for p (pair_votes l r)) \<le> (if matching l r \<and> (p = ea_path l \<or> p = ea_path r) then 1 else 0)"
proof (cases "pair_votes l r = []")
  case False
  then obtain v where "v \<in> set (pair_votes l r)" by (cases "pair_votes l r") auto
  then have "matching l r" using pair_votes_ok by blast
  with False assms show ?thesis by (simp add: length_votes_for pair_votes_paths)
qed (simp add: votes_for_def)

lemma no_votes: "p \<notin> ea_path ` set es \<Longrightarrow> votes_for p (collect_pairwise_votes es) = []"
  using collected_ok by (auto simp: votes_for_def filter_empty_conv)

lemma first_votes:
  assumes "ea_path e \<notin> ea_path ` set es"
  shows "length (votes_for (ea_path e) (concat (map (pair_votes e) es))) \<le> length (filter (partner e) es)"
  using assms
proof (induction es)
  case (Cons x xs)
  then have "length (votes_for (ea_path e) (pair_votes e x)) \<le> (if partner e x then 1 else 0)"
    using pair_votes_count [of e x "ea_path e"] by (auto simp: partner_def split: if_splits)
  with Cons show ?case by (auto split: if_splits)
qed (simp add: votes_for_def)

lemma other_votes:
  assumes "e \<in> set es" and "distinct (map ea_path (x # es))"
  shows "length (votes_for (ea_path e) (concat (map (pair_votes x) es))) \<le> (if partner e x then 1 else 0)"
  using assms
proof (induction es)
  case (Cons y ys)
  have x: "ea_path x \<notin> ea_path ` set (y # ys)" using Cons.prems(2) by simp
  have rest: "votes_for (ea_path e) (concat (map (pair_votes x) ys)) = []" if "ea_path e \<notin> ea_path ` set ys"
  proof -
    have "vo_path v \<noteq> ea_path e" if "z \<in> set ys" "v \<in> set (pair_votes x z)" for v z
      using pair_votes_ok [OF that(2)] that(1) x Cons.prems \<open>ea_path e \<notin> ea_path ` set ys\<close> by (auto simp: image_iff)
    then show ?thesis by (auto simp: votes_for_def filter_empty_conv)
  qed
  show ?case
  proof (cases "e = y")
    case True
    then have "votes_for (ea_path e) (concat (map (pair_votes x) ys)) = []" using rest Cons.prems(2) by simp
    moreover have "length (votes_for (ea_path e) (pair_votes x y)) \<le> (if partner e x then 1 else 0)"
      using pair_votes_count [of x y "ea_path e"] True x by (auto simp: partner_def split: if_splits)
    ultimately show ?thesis by simp
  next
    case False
    with Cons.prems have e: "e \<in> set ys" by simp
    then have "ea_path e \<noteq> ea_path y" "ea_path e \<noteq> ea_path x" using Cons.prems(2) x by (auto simp: image_iff)
    then have "votes_for (ea_path e) (pair_votes x y) = []"
      using pair_votes_ok by (fastforce simp: votes_for_def filter_empty_conv)
    with Cons.IH [OF e] Cons.prems(2) show ?thesis by simp
  qed
qed simp

text \<open>An episode has at most one vote for each other episode it matches.\<close>

lemma votes_are_partners:
  assumes "distinct (map ea_path es)" and "e \<in> set es"
  shows "length (votes_for (ea_path e) (collect_pairwise_votes es)) \<le> length (filter (partner e) es)"
  using assms
proof (induction es)
  case (Cons x xs)
  show ?case
  proof (cases "e = x")
    case True
    with Cons.prems have "ea_path e \<notin> ea_path ` set xs" by simp
    with first_votes [OF this] no_votes [OF this] True show ?thesis by simp
  next
    case False
    with Cons.prems have e: "e \<in> set xs" by simp
    with Cons other_votes [OF e Cons.prems(1)] show ?thesis by auto
  qed
qed simp

lemma median_range_ok:
  assumes "vs \<noteq> []" and "\<And>v. v \<in> set vs \<Longrightarrow> vote_ok v" and "median_range vs = (start, stop, confidence)"
  shows "0 \<le> start \<and> bit_match_threshold \<le> confidence \<and> confidence \<le> 1"
proof -
  have mid: "length vs div 2 < length vs" using assms(1) by (cases vs) auto
  have "sort (map vo_start vs) ! (length vs div 2) \<in> set (sort (map vo_start vs))"
    by (rule nth_mem) (simp add: mid)
  moreover have "start = sort (map vo_start vs) ! (length vs div 2)"
    using assms(3) by (simp add: median_range_def Let_def)
  ultimately have "start \<in> set (map vo_start vs)" by simp
  then have start: "0 \<le> start" using assms(2) by (auto simp: vote_ok_def)
  have "bit_match_threshold \<le> range_sum (map vo_score vs) 0 (length vs) / of_nat (length vs - 0)"
    using assms(1,2) by (intro mean_bounds(1) [where hi = 1]) (auto simp: vote_ok_def)
  moreover have "range_sum (map vo_score vs) 0 (length vs) = sum_list (map vo_score vs)"
    unfolding range_sum_def by (metis length_map map_nth)
  ultimately show ?thesis
    using assms(3) start by (auto simp: median_range_def Let_def bit_match_threshold_def split: if_splits)
qed

lemma hits_of_path:
  assumes "h \<in> set (hit_of_votes partners votes path)" and votes: "\<And>v. v \<in> set votes \<Longrightarrow> vote_ok v" and "0 < partners"
  shows "hi_path h = path \<and> partners \<le> int (length (votes_for path votes)) \<and> 0 \<le> hi_start h \<and>
    10000 \<le> hi_end h - hi_start h \<and> hi_end h - hi_start h \<le> 150000 \<and>
    bit_match_threshold \<le> hi_confidence h \<and> hi_confidence h \<le> 1"
proof -
  obtain start stop confidence where r: "median_range (votes_for path votes) = (start, stop, confidence)"
    using prod_cases3 by blast
  have "partners \<le> int (length (votes_for path votes))" and h: "hi_path h = path" "hi_start h = start" "hi_end h = stop"
      "hi_confidence h = confidence" "10000 \<le> stop - start" "stop - start \<le> 150000"
    using assms(1) by (auto simp: hit_of_votes_def Let_def r split: if_splits)
  moreover have "votes_for path votes \<noteq> []" using assms(3) calculation(1) by auto
  moreover have "vote_ok v" if "v \<in> set (votes_for path votes)" for v using votes that by (simp add: votes_for_def)
  ultimately show ?thesis using median_range_ok [OF _ _ r] by simp
qed

lemma hit_of_votes_path: "map hi_path (hit_of_votes partners votes path) = [] \<or> map hi_path (hit_of_votes partners votes path) = [path]"
  by (simp add: hit_of_votes_def Let_def split: prod.splits)

lemma hit_path: "h \<in> set (hit_of_votes partners votes path) \<Longrightarrow> hi_path h = path"
  by (auto simp: hit_of_votes_def Let_def split: prod.splits if_splits)

lemma partner_floor_pos: "2 \<le> n \<Longrightarrow> 0 < partner_floor n"
  by (simp add: partner_floor_def)

lemma consensus_hit_bounds:
  assumes "h \<in> set (consensus_intros episodes)"
  shows "0 \<le> hi_start h \<and> 10000 \<le> hi_end h - hi_start h \<and> hi_end h - hi_start h \<le> 150000 \<and>
    bit_match_threshold \<le> hi_confidence h \<and> hi_confidence h \<le> 1"
proof -
  let ?votes = "collect_pairwise_votes episodes"
  have two: "2 \<le> length episodes" using assms by (auto simp: consensus_intros_def split: if_splits)
  then obtain p where "h \<in> set (hit_of_votes (partner_floor (length episodes)) ?votes p)"
    using assms by (auto simp: consensus_intros_def Let_def split: if_splits)
  from hits_of_path [OF this conjunct1 [OF collected_ok [of _ episodes]] partner_floor_pos [OF two]] show ?thesis by simp
qed

lemma hits_sorted:
  assumes "sorted_wrt (<) paths"
  shows "sorted_wrt (<) (map hi_path (concat (map (hit_of_votes partners votes) paths)))"
  using assms
proof (induction paths)
  case (Cons p ps)
  have "hi_path h \<in> set ps" if "h \<in> set (concat (map (hit_of_votes partners votes) ps))" for h
    using that hit_path by fastforce
  with Cons hit_of_votes_path [of partners votes p] show ?case
    by (auto simp: sorted_wrt_append map_eq_Cons_conv simp del: set_concat)
qed simp

text \<open>C38. What a season agrees on: the intros come out sorted by path with at most one for an episode. Each of them belongs to an
  episode of the season that matches at least half of the season, rounded up (of all others when there are only two
  episodes), lasts from 10 to 150 seconds, and has a confidence between the threshold of the matching and one.\<close>

theorem consensus_needs_agreement:
  assumes "distinct (map ea_path episodes)" and "h \<in> set (consensus_intros episodes)"
  shows "sorted_wrt (<) (map hi_path (consensus_intros episodes)) \<and>
    (\<exists>e \<in> set episodes. hi_path h = ea_path e \<and>
      partner_floor (length episodes) \<le> int (length (filter (partner e) episodes))) \<and>
    0 \<le> hi_start h \<and> 10000 \<le> hi_end h - hi_start h \<and> hi_end h - hi_start h \<le> 150000 \<and>
    bit_match_threshold \<le> hi_confidence h \<and> hi_confidence h \<le> 1"
proof -
  let ?votes = "collect_pairwise_votes episodes"
  let ?hits = "concat (map (hit_of_votes (partner_floor (length episodes)) ?votes) (voted_paths ?votes))"
  have hits: "consensus_intros episodes = ?hits" and two: "2 \<le> length episodes"
    using assms(2) by (auto simp: consensus_intros_def Let_def split: if_splits)
  then obtain p where p: "p \<in> set (voted_paths ?votes)"
    and h: "h \<in> set (hit_of_votes (partner_floor (length episodes)) ?votes p)" using assms(2) by auto
  note ok = hits_of_path [OF h conjunct1 [OF collected_ok [of _ episodes]] partner_floor_pos [OF two]]
  obtain v where v: "v \<in> set ?votes" "p = vo_path v" using p by (auto simp: voted_paths_def)
  with collected_ok [OF v(1)] obtain e where e: "e \<in> set episodes" "p = ea_path e" by auto
  have "partner_floor (length episodes) \<le> int (length (filter (partner e) episodes))"
    using ok votes_are_partners [OF assms(1) e(1)] e(2) by simp
  moreover have "sorted_wrt (<) (voted_paths ?votes)"
    by (simp add: voted_paths_def strict_sorted_iff)
  ultimately show ?thesis using ok e hits_sorted hits by auto
qed

definition demo_season :: "episode_audio list" where
  "demo_season = map (\<lambda>p. \<lparr>ea_path = p, ea_duration = 1300, ea_fingerprint = replicate 81 0, ea_window = 390\<rparr>) [''s/1.mkv'', ''s/2.mkv'']"

lemma demo_season_votes:
  obtains c where "collect_pairwise_votes demo_season =
    [\<lparr>vo_path = ''s/1.mkv'', vo_start = 0, vo_end = 10031, vo_score = c\<rparr>,
     \<lparr>vo_path = ''s/2.mkv'', vo_start = 0, vo_end = 10031, vo_score = c\<rparr>]"
proof -
  obtain m where m: "longest_match (replicate 81 0) (replicate 81 0) max_start_skew_sec = Some m"
    "fm_start_a m = 0" "fm_end_a m = 81" "fm_start_b m = 0" "fm_end_b m = 81" "fm_duration m = 81 * item_duration"
    by (rule minimal_self_match [of "replicate 81 0"]) simp_all
  have ms: "item_index_to_ms 0 = 0" "item_index_to_ms 81 = 10031" by code_simp+
  have "min_intro_sec \<le> 81 * item_duration" "81 * item_duration \<le> max_intro_sec"
    by (simp_all add: min_intro_sec_def max_intro_sec_def item_duration_def)
  with m ms show thesis
    by (intro that [of "fm_score m"]) (simp add: demo_season_def pair_votes_def Let_def valid_intro_bounds_def not_less)
qed

lemma demo_season_hits:
  obtains c where "consensus_intros demo_season =
    [\<lparr>hi_path = ''s/1.mkv'', hi_start = 0, hi_end = 10031, hi_confidence = c\<rparr>,
     \<lparr>hi_path = ''s/2.mkv'', hi_start = 0, hi_end = 10031, hi_confidence = c\<rparr>]"
proof -
  obtain c where votes: "collect_pairwise_votes demo_season =
      [\<lparr>vo_path = ''s/1.mkv'', vo_start = 0, vo_end = 10031, vo_score = c\<rparr>,
       \<lparr>vo_path = ''s/2.mkv'', vo_start = 0, vo_end = 10031, vo_score = c\<rparr>]" by (rule demo_season_votes)
  have paths: "voted_paths (collect_pairwise_votes demo_season) = [''s/1.mkv'', ''s/2.mkv'']"
    unfolding votes voted_paths_def by simp
  have "partner_floor 2 = 1" by code_simp
  moreover have "length demo_season = 2" by (simp add: demo_season_def)
  ultimately show thesis
    by (intro that [of "if 1 < c then 1 else c"])
      (simp add: consensus_intros_def Let_def paths, simp add: votes hit_of_votes_def votes_for_def median_range_def Let_def)
qed

lemma consensus_needs_agreement_witness:
  "consensus_intros demo_season \<noteq> [] \<and> sorted_wrt (<) (map hi_path (consensus_intros demo_season))"
proof -
  obtain h where "h \<in> set (consensus_intros demo_season)"
    using demo_season_hits by (metis list.set_intros(1))
  moreover have "distinct (map ea_path demo_season)" by (simp add: demo_season_def)
  ultimately show ?thesis using consensus_needs_agreement [of demo_season h] by auto
qed

end
