(* ===== verification/SkipDetect.thy ===== *)
theory SkipDetect
  imports SkipIntro AccessService
begin

text \<open>
  Offline detection of intros: \<open>detect.go\<close>, \<open>fingerprint.go\<close>, the store \<open>postgres/store.go\<close> with the table of migration
  00022, and what the player is offered (\<open>resolveSkipIntro\<close> of \<open>httpapi/play_handlers.go\<close>). The Go interfaces of the service
  (catalog, probe, ffmpeg) are the fields of \<open>detector\<close>. A canceled context is a fault of the environment, looked up where
  the code asks \<open>ctx.Err()\<close>.
\<close>

section \<open>State\<close>

datatype skip_err = SkUnavailable | SkCanceled | SkDbError | SkLibrary access_err | SkCatalog

record segment =
  sg_lib :: string
  sg_path :: string
  sg_kind :: string
  sg_start :: int
  sg_end :: int
  sg_source :: string
  sg_confidence :: rat
  sg_version :: int
  sg_show :: string
  sg_season :: int
  sg_detected :: "int option"

text \<open>\<open>sg_detected\<close> is None for Go's zero time.\<close>

record skip_world = env +
  sk_access :: access_world
  sk_rows :: "segment list"

record run_summary =
  ru_seasons :: nat
  ru_episodes :: nat
  ru_hits :: nat
  ru_skipped :: nat
  ru_errors :: nat
  ru_chapter :: nat

definition no_summary :: run_summary where
  "no_summary = \<lparr>ru_seasons = 0, ru_episodes = 0, ru_hits = 0, ru_skipped = 0, ru_errors = 0, ru_chapter = 0\<rparr>"

datatype ffmpeg_result = FFmpegOk string | FFmpegFailed string

text \<open>\<open>dt_file\<close> is \<open>mediafs.FilePath\<close>, \<open>dt_source\<close> and \<open>dt_probe\<close> are None on an error.\<close>

record detector =
  dt_ready :: bool
  dt_shows :: "string \<Rightarrow> nat \<Rightarrow> nat \<Rightarrow> skip_err + (string list \<times> nat)"
  dt_agg :: "string \<Rightarrow> string \<Rightarrow> skip_err + int list option"
  dt_episodes :: "string \<Rightarrow> string \<Rightarrow> int \<Rightarrow> skip_err + string list"
  dt_file :: "string \<Rightarrow> string option"
  dt_source :: "string \<Rightarrow> source_info option"
  dt_probe :: "string \<Rightarrow> rat option"
  dt_ffmpeg :: "string list \<Rightarrow> ffmpeg_result"

section \<open>The store\<close>

definition same_segment :: "string \<Rightarrow> string \<Rightarrow> string \<Rightarrow> segment \<Rightarrow> bool" where
  "same_segment lib path kind r \<longleftrightarrow> sg_lib r = lib \<and> sg_path r = path \<and> sg_kind r = kind"

definition filled_segment :: "int \<Rightarrow> segment \<Rightarrow> segment" where
  "filled_segment now g = g\<lparr>sg_kind := (if sg_kind g = [] then kind_intro else sg_kind g),
     sg_detected := (case sg_detected g of None \<Rightarrow> Some now | Some t \<Rightarrow> Some t)\<rparr>"

definition overwrite_segment :: "segment \<Rightarrow> segment \<Rightarrow> segment" where
  "overwrite_segment n r = r\<lparr>sg_start := sg_start n, sg_end := sg_end n, sg_source := sg_source n,
     sg_confidence := sg_confidence n, sg_version := sg_version n, sg_show := sg_show n, sg_season := sg_season n,
     sg_detected := sg_detected n\<rparr>"

text \<open>The table refuses a range that is not positive, and a library that does not exist.\<close>

definition skip_upsert :: "segment \<Rightarrow> (skip_world, skip_err, unit) m" where
  "skip_upsert g = io_call SkDbError (\<lambda>w. let n = filled_segment (w_now w) g; same = same_segment (sg_lib n) (sg_path n) (sg_kind n) in
     if sg_end n \<le> sg_start n then (Inl SkDbError, w)
     else if \<exists>r \<in> set (sk_rows w). same r
     then (Inr (), w\<lparr>sk_rows := update_where same (overwrite_segment n) (sk_rows w)\<rparr>)
     else if sg_lib n \<notin> lr_id ` set (libs (sk_access w)) then (Inl SkDbError, w)
     else (Inr (), w\<lparr>sk_rows := sk_rows w @ [n]\<rparr>))"

definition skip_get :: "string \<Rightarrow> string \<Rightarrow> (skip_world, skip_err, segment option) m" where
  "skip_get lib path = io_call SkDbError (gets (\<lambda>w. find (same_segment lib path kind_intro) (sk_rows w)))"

definition skip_delete_for_path :: "string \<Rightarrow> string \<Rightarrow> (skip_world, skip_err, unit) m" where
  "skip_delete_for_path lib path = io_call SkDbError
     (modify (\<lambda>w. w\<lparr>sk_rows := delete_where (\<lambda>r. sg_lib r = lib \<and> sg_path r = path) (sk_rows w)\<rparr>))"

section \<open>What the player is offered\<close>

definition to_intro :: "segment \<Rightarrow> intro option" where
  "to_intro g = (if sg_end g \<le> sg_start g then None
     else Some \<lparr>in_start = sg_start g, in_end = sg_end g, in_source = sg_source g\<rparr>)"

definition lookup_intro :: "string \<Rightarrow> string \<Rightarrow> skip_world \<Rightarrow> intro option \<times> skip_world" where
  "lookup_intro lib path w =
     (if lib = [] \<or> path = [] then (None, w)
      else case skip_get lib path w of
        (Inl _, w') \<Rightarrow> (None, w')
      | (Inr found, w') \<Rightarrow> (case found of None \<Rightarrow> None
          | Some g \<Rightarrow> if sg_version g \<noteq> engine_version then None else to_intro g, w'))"

definition skip_intro_from_chapters :: "chapter_info list \<Rightarrow> rat \<Rightarrow> intro option" where
  "skip_intro_from_chapters chapters dur = (if chapters = [] \<or> dur \<le> 0 then None
     else intro_from_chapters (map cue_of_chapter chapters) dur)"

text \<open>\<open>resolveSkipIntro\<close>: the library that owns the path decides which stored row is meant.\<close>

definition resolve_skip_intro :: "string \<Rightarrow> chapter_info list \<Rightarrow> rat \<Rightarrow> skip_world \<Rightarrow> intro option \<times> skip_world" where
  "resolve_skip_intro path chapters dur w =
     (case library_for_rel_path path (sk_access w) of (r, a) \<Rightarrow>
        let w1 = w\<lparr>sk_access := a\<rparr> in
        case (case r of Inr (Some l) \<Rightarrow> lookup_intro (lib_id l) path w1 | _ \<Rightarrow> (None, w1)) of
          (stored, w2) \<Rightarrow> (resolve_intro (skip_intro_from_chapters chapters dur) stored, w2))"

section \<open>Fingerprints\<close>

datatype extract_err = NoAudio | ScanWindowTooShort | ChromaprintFailed string | ChromaprintRawLen

text \<open>Little-endian 32-bit items.\<close>

definition byte_word :: "char \<Rightarrow> 32 word" where
  "byte_word c = word_of_nat (of_char c)"

fun words_of_bytes :: "string \<Rightarrow> 32 word list" where
  "words_of_bytes (a # b # c # d # rest) =
     (byte_word a OR push_bit 8 (byte_word b) OR push_bit 16 (byte_word c) OR push_bit 24 (byte_word d)) # words_of_bytes rest"
| "words_of_bytes _ = []"

definition truncate_err :: "string \<Rightarrow> string" where
  "truncate_err message = take 240 (map (\<lambda>c. if c = CHR 0x0A then CHR 0x20 else c) message)"

definition chromaprint_args :: "string \<Rightarrow> rat \<Rightarrow> string list" where
  "chromaprint_args path window = [''-hide_banner'', ''-nostats'', ''-i'', path, ''-t'', fixed 3 window, ''-vn'',
     ''-map'', ''0:a:0?'', ''-ac'', ''1'', ''-ar'', ''11025'', ''-f'', ''chromaprint'', ''-fp_format'', ''raw'',
     ''-algorithm'', ''1'', ''pipe:1'']"

definition extract_fingerprint :: "detector \<Rightarrow> string \<Rightarrow> rat \<Rightarrow> extract_err + (32 word list \<times> rat)" where
  "extract_fingerprint det path dur = (let window = intro_scan_window dur in
     if window < min_intro_sec then Inl ScanWindowTooShort
     else case dt_ffmpeg det (chromaprint_args path window) of
       FFmpegFailed stderr \<Rightarrow> (let message = trim_space stderr in
         if contains message ''Output file does not contain any stream'' \<or> contains message ''matches no streams''
         then Inl NoAudio else Inl (ChromaprintFailed (truncate_err message)))
     | FFmpegOk raw \<Rightarrow>
         if length raw < 4 \<or> length raw mod 4 \<noteq> 0 then Inl ChromaprintRawLen
         else Inr (words_of_bytes raw, window))"

section \<open>Episodes and seasons\<close>

datatype extracted = ExtractOK episode_audio | ExtractChapter | ExtractSkip | ExtractError

definition duration_from_probe :: "detector \<Rightarrow> string \<Rightarrow> rat option" where
  "duration_from_probe det path =
     (case dt_source det path of
        Some info \<Rightarrow> if 0 < si_duration info then Some (si_duration info)
          else (case dt_probe det path of Some d \<Rightarrow> if d \<le> 0 then None else Some d | None \<Rightarrow> None)
      | None \<Rightarrow> (case dt_probe det path of Some d \<Rightarrow> if d \<le> 0 then None else Some d | None \<Rightarrow> None))"

definition extract_episode_audio :: "detector \<Rightarrow> string \<Rightarrow> extracted" where
  "extract_episode_audio det rel = (case dt_file det rel of
     None \<Rightarrow> ExtractError
   | Some path \<Rightarrow>
       if (case dt_source det path of None \<Rightarrow> False | Some info \<Rightarrow> intro_from_probe info \<noteq> None) then ExtractChapter
       else (case duration_from_probe det path of
         None \<Rightarrow> ExtractError
       | Some dur \<Rightarrow> (case extract_fingerprint det path dur of
           Inl NoAudio \<Rightarrow> ExtractSkip
         | Inl _ \<Rightarrow> ExtractError
         | Inr (fp, window) \<Rightarrow> ExtractOK \<lparr>ea_path = rel, ea_duration = dur, ea_fingerprint = fp, ea_window = window\<rparr>)))"

definition ctx_err :: "skip_world \<Rightarrow> bool \<times> skip_world" where
  "ctx_err w = (fault_next (w_faults w), w\<lparr>w_faults := tl (w_faults w)\<rparr>)"

fun extract_season_audio :: "detector \<Rightarrow> string list \<Rightarrow> skip_world \<Rightarrow> (episode_audio list \<times> run_summary) \<times> skip_world" where
  "extract_season_audio det [] w = (([], no_summary), w)"
| "extract_season_audio det (e # es) w = (case ctx_err w of (canceled, w1) \<Rightarrow>
     if canceled then (([], no_summary\<lparr>ru_errors := 1\<rparr>), w1)
     else case extract_season_audio det es w1 of ((audio, s), w2) \<Rightarrow>
       (case extract_episode_audio det e of
          ExtractOK item \<Rightarrow> ((item # audio, s), w2)
        | ExtractChapter \<Rightarrow> ((audio, s\<lparr>ru_chapter := ru_chapter s + 1\<rparr>), w2)
        | ExtractSkip \<Rightarrow> ((audio, s\<lparr>ru_skipped := ru_skipped s + 1\<rparr>), w2)
        | ExtractError \<Rightarrow> ((audio, s\<lparr>ru_errors := ru_errors s + 1\<rparr>), w2)))"

definition segment_of_hit :: "string \<Rightarrow> string \<Rightarrow> int \<Rightarrow> int \<Rightarrow> consensus_hit \<Rightarrow> segment" where
  "segment_of_hit lib show season now h = \<lparr>sg_lib = lib, sg_path = hi_path h, sg_kind = kind_intro, sg_start = hi_start h,
     sg_end = hi_end h, sg_source = source_audio, sg_confidence = hi_confidence h, sg_version = engine_version,
     sg_show = show, sg_season = season, sg_detected = Some now\<rparr>"

fun store_hits :: "string \<Rightarrow> string \<Rightarrow> int \<Rightarrow> int \<Rightarrow> consensus_hit list \<Rightarrow> run_summary \<Rightarrow> skip_world \<Rightarrow> run_summary \<times> skip_world" where
  "store_hits lib show season now [] s w = (s, w)"
| "store_hits lib show season now (h # hs) s w = (case skip_upsert (segment_of_hit lib show season now h) w of
     (Inl _, w') \<Rightarrow> store_hits lib show season now hs (s\<lparr>ru_errors := ru_errors s + 1\<rparr>) w'
   | (Inr _, w') \<Rightarrow> store_hits lib show season now hs (s\<lparr>ru_hits := ru_hits s + 1\<rparr>) w')"

definition detect_season :: "detector \<Rightarrow> string \<Rightarrow> string \<Rightarrow> int \<Rightarrow> skip_world \<Rightarrow> (run_summary \<times> skip_err option) \<times> skip_world" where
  "detect_season det lib show season w = (case dt_episodes det lib show season of
     Inl e \<Rightarrow> ((no_summary, Some e), w)
   | Inr episodes \<Rightarrow>
       let s0 = no_summary\<lparr>ru_episodes := length episodes\<rparr> in
       if length episodes < 2 then ((s0\<lparr>ru_skipped := length episodes\<rparr>, None), w)
       else case extract_season_audio det episodes w of ((audio, x), w1) \<Rightarrow>
         let s1 = s0\<lparr>ru_skipped := ru_skipped x, ru_errors := ru_errors x, ru_chapter := ru_chapter x\<rparr> in
         if length audio < 2 then ((s1\<lparr>ru_skipped := ru_skipped s1 + length audio\<rparr>, None), w1)
         else case store_hits lib show season (w_now w1) (consensus_intros audio) s1 w1 of (s2, w2) \<Rightarrow> ((s2, None), w2))"

section \<open>Shows and libraries\<close>

definition add_season :: "run_summary \<Rightarrow> run_summary \<times> skip_err option \<Rightarrow> run_summary" where
  "add_season s r = (case r of (x, e) \<Rightarrow>
     \<lparr>ru_seasons = ru_seasons s + 1, ru_episodes = ru_episodes s + ru_episodes x, ru_hits = ru_hits s + ru_hits x,
      ru_skipped = ru_skipped s + ru_skipped x,
      ru_errors = ru_errors s + ru_errors x + (if e = None then 0 else 1), ru_chapter = ru_chapter s + ru_chapter x\<rparr>)"

fun accumulate_seasons :: "detector \<Rightarrow> string \<Rightarrow> string \<Rightarrow> int list \<Rightarrow> run_summary \<Rightarrow> skip_world \<Rightarrow> run_summary \<times> skip_world" where
  "accumulate_seasons det lib show [] s w = (s, w)"
| "accumulate_seasons det lib show (n # ns) s w = (case detect_season det lib show n w of
     (r, w') \<Rightarrow> accumulate_seasons det lib show ns (add_season s r) w')"

definition accumulate_show :: "detector \<Rightarrow> string \<Rightarrow> string \<Rightarrow> run_summary \<Rightarrow> skip_world \<Rightarrow> run_summary \<times> skip_world" where
  "accumulate_show det lib show s w = (case dt_agg det lib show of
     Inl _ \<Rightarrow> (s\<lparr>ru_errors := ru_errors s + 1\<rparr>, w)
   | Inr None \<Rightarrow> (s, w)
   | Inr (Some seasons) \<Rightarrow> accumulate_seasons det lib show seasons s w)"

fun accumulate_shows :: "detector \<Rightarrow> string \<Rightarrow> string list \<Rightarrow> run_summary \<Rightarrow> skip_world \<Rightarrow> run_summary \<times> skip_world" where
  "accumulate_shows det lib [] s w = (s, w)"
| "accumulate_shows det lib (x # xs) s w = (case accumulate_show det lib x s w of
     (s', w') \<Rightarrow> accumulate_shows det lib xs s' w')"

text \<open>The loop over the pages of the catalog; that it ends depends on the catalog.\<close>

partial_function (option) detect_all_shows ::
    "detector \<Rightarrow> string \<Rightarrow> nat \<Rightarrow> run_summary \<Rightarrow> skip_world \<Rightarrow> ((run_summary \<times> skip_err option) \<times> skip_world) option" where
  "detect_all_shows det lib offset s w = (case ctx_err w of (canceled, w1) \<Rightarrow>
     if canceled then Some ((s, Some SkCanceled), w1)
     else case dt_shows det lib 50 offset of
       Inl e \<Rightarrow> Some ((s, Some e), w1)
     | Inr (shows_page, n) \<Rightarrow> (case accumulate_shows det lib shows_page s w1 of (s2, w2) \<Rightarrow>
         if n \<le> offset + length shows_page \<or> shows_page = [] then Some ((s2, None), w2)
         else detect_all_shows det lib (offset + length shows_page) s2 w2))"

declare detect_all_shows.simps [code]

definition detect_library :: "detector \<Rightarrow> string \<Rightarrow> skip_world \<Rightarrow> ((run_summary \<times> skip_err option) \<times> skip_world) option" where
  "detect_library det lib w =
     (if \<not> dt_ready det then Some ((no_summary, Some SkUnavailable), w)
      else case get_library lib (sk_access w) of
        (Inl e, a) \<Rightarrow> Some ((no_summary, Some (SkLibrary e)), w\<lparr>sk_access := a\<rparr>)
      | (Inr l, a) \<Rightarrow>
          if lib_type l \<noteq> TypeSeries then Some ((no_summary\<lparr>ru_skipped := 1\<rparr>, None), w\<lparr>sk_access := a\<rparr>)
          else detect_all_shows det lib 0 no_summary (w\<lparr>sk_access := a\<rparr>))"

end
