(* ===== verification/SkipSafety.thy ===== *)
theory SkipSafety
  imports SkipDetect MediaFs
begin

text \<open>
  What detection keeps and guarantees: the rows of the table, the counts of a run, the end of a run, and what a player is
  offered.
\<close>

section \<open>Step relations of a detection run\<close>

text \<open>A relation that every statement of a run respects is respected by the run.\<close>

definition segment_ok :: "segment \<Rightarrow> bool" where
  "segment_ok g \<longleftrightarrow> sg_kind g = kind_intro \<and> 0 \<le> sg_start g \<and> 10000 \<le> sg_end g - sg_start g \<and> sg_end g - sg_start g \<le> 150000"

locale detect_rel = step_rel R for R :: "skip_world \<Rightarrow> skip_world \<Rightarrow> bool" +
  assumes other: "R w (w\<lparr>w_faults := fs, sk_access := a\<rparr>)"
    and upsert: "segment_ok g \<Longrightarrow> R w (snd (skip_upsert g w))"
begin

lemma faults: "R w (w\<lparr>w_faults := fs\<rparr>)"
  using other [where w = w and fs = fs and a = "sk_access w"] by (cases w) simp

lemma access: "R w (w\<lparr>sk_access := a\<rparr>)"
  using other [where w = w and fs = "w_faults w" and a = a] by (cases w) simp

lemma extract_rel: "R w (snd (extract_season_audio det es w))"
proof (induction det es w rule: extract_season_audio.induct)
  case (2 det e es w)
  let ?w1 = "w\<lparr>w_faults := tl (w_faults w)\<rparr>"
  show ?case
  proof (cases "fault_next (w_faults w)")
    case True
    then show ?thesis using faults by (simp add: ctx_err_def)
  next
    case False
    have "snd (extract_season_audio det (e # es) w) = snd (extract_season_audio det es ?w1)"
      using False by (simp add: ctx_err_def split: prod.splits extracted.splits)
    moreover have "R ?w1 (snd (extract_season_audio det es ?w1))"
      using 2 [of False ?w1] False by (simp add: ctx_err_def)
    ultimately show ?thesis using faults trans by metis
  qed
qed (simp add: refl)

lemma store_hits_rel:
  assumes "\<And>h. h \<in> set hs \<Longrightarrow> segment_ok (segment_of_hit lib show_key season now h)"
  shows "R w (snd (store_hits lib show_key season now hs s w))"
  using assms
proof (induction hs arbitrary: s w)
  case (Cons h hs)
  let ?r = "skip_upsert (segment_of_hit lib show_key season now h) w"
  have step: "R w (snd ?r)" using Cons.prems by (intro upsert) simp
  have "R (snd ?r) (snd (store_hits lib show_key season now (h # hs) s w))"
    using Cons.IH Cons.prems by (cases ?r) (auto split: sum.splits)
  with step show ?case by (rule trans)
qed (simp add: refl)

lemma hit_segment_ok: "h \<in> set (consensus_intros audio) \<Longrightarrow> segment_ok (segment_of_hit lib show_key season now h)"
  using consensus_hit_bounds by (simp add: segment_ok_def segment_of_hit_def)

lemma season_rel: "R w (snd (detect_season det lib show_key season w))"
proof (cases "dt_episodes det lib show_key season")
  case (Inl e)
  then show ?thesis by (simp add: detect_season_def refl)
next
  case (Inr es)
  obtain audio x w1 where x: "extract_season_audio det es w = ((audio, x), w1)" by (metis surj_pair)
  then have w1: "R w w1" using extract_rel [of w det es] by simp
  have "R w1 (snd (store_hits lib show_key season (w_now w1) (consensus_intros audio) s w1))" for s
    by (rule store_hits_rel) (rule hit_segment_ok)
  then show ?thesis
    using w1 trans Inr x by (auto simp: detect_season_def Let_def refl split: prod.splits) (metis snd_conv)
qed

lemma seasons_rel: "R w (snd (accumulate_seasons det lib show_key ns s w))"
proof (induction ns arbitrary: s w)
  case (Cons n ns)
  obtain r w' where r: "detect_season det lib show_key n w = (r, w')" by fastforce
  with season_rel [of w det lib show_key n] Cons.IH [of w' "add_season s r"] show ?case by (auto intro: trans)
qed (simp add: refl)

lemma shows_rel: "R w (snd (accumulate_shows det lib xs s w))"
proof (induction xs arbitrary: s w)
  case (Cons x xs)
  obtain s' w' where r: "accumulate_show det lib x s w = (s', w')" by fastforce
  have "R w (snd (accumulate_show det lib x s w))"
    using seasons_rel by (simp add: accumulate_show_def refl split: sum.splits option.splits)
  with r Cons.IH [of w' s'] show ?case by (auto intro: trans)
qed (simp add: refl)

lemma all_shows_rel:
  assumes "detect_all_shows det lib offset s w = Some y"
  shows "R w (snd y)"
proof (rule detect_all_shows.raw_induct [where P = "\<lambda>_ _ _ _ w y. R w (snd y)", OF _ assms])
  fix run :: "detector \<Rightarrow> string \<Rightarrow> nat \<Rightarrow> run_summary \<Rightarrow> skip_world \<Rightarrow> ((run_summary \<times> skip_err option) \<times> skip_world) option"
    and det lib offset s w y
  assume IH: "\<And>det lib offset s w y. run det lib offset s w = Some y \<Longrightarrow> R w (snd y)"
    and step: "(case ctx_err w of (canceled, w1) \<Rightarrow>
     if canceled then Some ((s, Some SkCanceled), w1)
     else case dt_shows det lib 50 offset of
       Inl e \<Rightarrow> Some ((s, Some e), w1)
     | Inr (shows_page, n) \<Rightarrow> (case accumulate_shows det lib shows_page s w1 of (s2, w2) \<Rightarrow>
         if n \<le> offset + length shows_page \<or> shows_page = [] then Some ((s2, None), w2)
         else run det lib (offset + length shows_page) s2 w2)) = Some y"
  obtain canceled w1 where c: "ctx_err w = (canceled, w1)" by fastforce
  then have w1: "R w w1" using faults by (auto simp: ctx_err_def)
  show "R w (snd y)"
  proof (cases "canceled \<or> (\<exists>e. dt_shows det lib 50 offset = Inl e)")
    case True
    with step c w1 show ?thesis by (auto split: if_splits)
  next
    case False
    then obtain page n where page: "dt_shows det lib 50 offset = Inr (page, n)"
      by (cases "dt_shows det lib 50 offset") auto
    obtain s2 w2 where acc: "accumulate_shows det lib page s w1 = (s2, w2)" by fastforce
    then have w2: "R w w2" using w1 shows_rel [of w1 det lib page s] trans by fastforce
    show ?thesis
    proof (cases "n \<le> offset + length page \<or> page = []")
      case True
      with step c False page acc w2 show ?thesis by auto
    next
      case more: False
      with step c False page acc have "run det lib (offset + length page) s2 w2 = Some y" by simp
      from IH [OF this] w2 show ?thesis by (blast intro: trans)
    qed
  qed
qed

lemma library_rel:
  assumes "detect_library det lib w = Some (r, w')"
  shows "R w w'"
proof (cases "dt_ready det")
  case True
  obtain g a where g: "get_library lib (sk_access w) = (g, a)" by fastforce
  show ?thesis
  proof (cases g)
    case (Inl e)
    with assms True g access show ?thesis by (auto simp: detect_library_def)
  next
    case (Inr l)
    show ?thesis
    proof (cases "lib_type l = TypeSeries")
      case True
      then have "detect_all_shows det lib 0 no_summary (w\<lparr>sk_access := a\<rparr>) = Some (r, w')"
        using assms \<open>dt_ready det\<close> g Inr by (simp add: detect_library_def)
      from all_shows_rel [OF this] access [of w a] show ?thesis by (auto intro: trans)
    next
      case False
      with assms \<open>dt_ready det\<close> g Inr have "w' = w\<lparr>sk_access := a\<rparr>" by (simp add: detect_library_def)
      with access show ?thesis by simp
    qed
  qed
next
  case False
  with assms refl show ?thesis by (auto simp: detect_library_def)
qed

end

section \<open>The rows of the table\<close>

definition segment_key :: "segment \<Rightarrow> string \<times> string \<times> string" where
  "segment_key g = (sg_lib g, sg_path g, sg_kind g)"

definition skips_ok :: "skip_world \<Rightarrow> bool" where
  "skips_ok w \<longleftrightarrow> distinct (map segment_key (sk_rows w)) \<and> (\<forall>g \<in> set (sk_rows w). segment_ok g)"

definition keeps_keys :: "skip_world \<Rightarrow> skip_world \<Rightarrow> bool" where
  "keeps_keys w w' \<longleftrightarrow> segment_key ` set (sk_rows w) \<subseteq> segment_key ` set (sk_rows w')"

lemma overwrite_key [simp]: "segment_key (overwrite_segment n r) = segment_key r"
  by (simp add: segment_key_def overwrite_segment_def)

lemma overwrite_ok [simp]: "segment_ok n \<Longrightarrow> segment_ok r \<Longrightarrow> segment_ok (overwrite_segment n r)"
  by (simp add: segment_ok_def overwrite_segment_def)

lemma overwrite_keys [simp]: "segment_key ` set (update_where P (overwrite_segment n) rs) = segment_key ` set rs"
  by (simp only: list.set_map [symmetric] map_update_where [of segment_key, OF overwrite_key])

lemma upsert_cases:
  fixes g w
  defines "n \<equiv> filled_segment (w_now w) g" and "rows \<equiv> sk_rows (snd (skip_upsert g w))"
  shows "rows = sk_rows w \<or>
    rows = update_where (same_segment (sg_lib n) (sg_path n) (sg_kind n)) (overwrite_segment n) (sk_rows w) \<or>
    segment_key n \<notin> segment_key ` set (sk_rows w) \<and> rows = sk_rows w @ [n]"
proof -
  have "(\<exists>r \<in> set rs. same_segment (sg_lib n) (sg_path n) (sg_kind n) r) \<longleftrightarrow> segment_key n \<in> segment_key ` set rs" for rs
    by (auto simp: same_segment_def segment_key_def image_iff eq_commute)
  then show ?thesis
    unfolding n_def rows_def by (cases w) (simp add: skip_upsert_def io_call_def Let_def)
qed

lemma filled_segment_ok: "segment_ok g \<Longrightarrow> segment_ok (filled_segment now g)"
  by (simp add: segment_ok_def filled_segment_def kind_intro_def)

interpretation row_invariant: detect_rel "keeps skips_ok"
proof
  fix w fs a
  show "keeps skips_ok w (w\<lparr>w_faults := fs, sk_access := a\<rparr>)" by (simp add: keeps_def skips_ok_def)
next
  fix g w
  assume g: "segment_ok g"
  note n = filled_segment_ok [OF g, of "w_now w"]
  show "keeps skips_ok w (snd (skip_upsert g w))"
    using upsert_cases [of g w]
    by (elim disjE) (use n in \<open>auto simp: keeps_def skips_ok_def set_update_where map_update_where [of segment_key] intro: overwrite_ok\<close>)
qed

interpretation row_keys: detect_rel keeps_keys
proof
  fix w fs a
  show "keeps_keys w (w\<lparr>w_faults := fs, sk_access := a\<rparr>)" by (simp add: keeps_keys_def)
next
  fix g w
  show "keeps_keys w (snd (skip_upsert g w))"
    using upsert_cases [of g w] by (elim disjE) (auto simp: keeps_keys_def)
qed (auto simp: keeps_keys_def)

text \<open>Detection never removes a row: a segment of a file that was replaced, or of a season that no longer agrees, stays.\<close>

lemma detection_keeps_stale_rows:
  assumes "detect_library det lib w = Some (r, w')" and "g \<in> set (sk_rows w)"
  shows "\<exists>g' \<in> set (sk_rows w'). segment_key g' = segment_key g"
  using row_keys.library_rel [OF assms(1)] assms(2) by (fastforce simp: keeps_keys_def)

section \<open>What a player is offered\<close>

text \<open>Every state the table can be in: runs of the detector and their single statements, removal of a path or of a library,
  and anything that happens to the libraries, the clock and the environment.\<close>

inductive skip_state :: "skip_world \<Rightarrow> bool" where
  start: "sk_rows w = [] \<Longrightarrow> skip_state w"
| detected: "skip_state w \<Longrightarrow> detect_library det lib w = Some (r, w') \<Longrightarrow> skip_state w'"
| stored: "skip_state w \<Longrightarrow> h \<in> set (consensus_intros audio) \<Longrightarrow>
    skip_state (snd (skip_upsert (segment_of_hit lib show_key season now h) w))"
| forgotten: "skip_state w \<Longrightarrow> skip_state (snd (skip_delete_for_path lib path w))"
| dropped: "skip_state w \<Longrightarrow> skip_state (w\<lparr>sk_rows := delete_where (\<lambda>g. sg_lib g = lib) (sk_rows w)\<rparr>)"
| other: "skip_state w \<Longrightarrow> skip_state (w\<lparr>w_faults := fs, w_now := t, sk_access := a\<rparr>)"

inductive_cases skip_stateE: "skip_state w"

lemma skips_ok_delete: "skips_ok w \<Longrightarrow> skips_ok (w\<lparr>sk_rows := delete_where P (sk_rows w)\<rparr>)"
  by (auto simp: skips_ok_def delete_where_def distinct_map_filter)

lemma skip_delete_rows:
  "\<exists>P. sk_rows (snd (skip_delete_for_path lib path w)) = delete_where P (sk_rows w)"
proof (cases "fault_next (w_faults w)")
  case True
  then have "sk_rows (snd (skip_delete_for_path lib path w)) = delete_where (\<lambda>_. False) (sk_rows w)"
    by (cases w) (simp add: skip_delete_for_path_def io_call_def delete_where_def Let_def)
  then show ?thesis by blast
next
  case False
  then show ?thesis
    by (intro exI [of _ "\<lambda>r. sg_lib r = lib \<and> sg_path r = path"], cases w)
      (simp add: skip_delete_for_path_def io_call_def Let_def)
qed

lemma skip_state_ok: "skip_state w \<Longrightarrow> skips_ok w"
proof (induction rule: skip_state.induct)
  case (detected w det lib r w')
  then show ?case using row_invariant.library_rel [OF detected.hyps(2)] by (simp add: keeps_def)
next
  case (stored w h audio lib show_key season now)
  then show ?case using row_invariant.upsert [OF row_invariant.hit_segment_ok] by (simp add: keeps_def)
next
  case (forgotten w lib path)
  then show ?case using skip_delete_rows [of lib path w] by (auto simp: skips_ok_def delete_where_def distinct_map_filter)
qed (auto simp: skips_ok_def delete_where_def distinct_map_filter)

lemma lookup_intro_ok:
  assumes "skips_ok w" and "lookup_intro lib path w = (Some i, w')"
  shows "0 \<le> in_start i \<and> 10000 \<le> in_end i - in_start i \<and> in_end i - in_start i \<le> 150000"
proof -
  obtain g where "find (same_segment lib path kind_intro) (sk_rows w) = Some g" and i: "to_intro g = Some i"
    using assms(2) by (cases w)
      (auto simp: lookup_intro_def skip_get_def io_call_def Let_def split: if_splits option.splits)
  then have "segment_ok g" using assms(1) by (auto simp: skips_ok_def find_Some_iff)
  with i show ?thesis by (auto simp: segment_ok_def to_intro_def split: if_splits)
qed

lemma resolve_skip_intro_cases:
  assumes "resolve_skip_intro path chapters dur w = (Some i, w')"
  obtains "skip_intro_from_chapters chapters dur = Some i"
  | lib w1 w2 where "sk_rows w1 = sk_rows w" and "lookup_intro lib path w1 = (Some i, w2)"
proof -
  obtain r a where ra: "library_for_rel_path path (sk_access w) = (r, a)" by fastforce
  have pick: "resolve_intro c s = Some i \<Longrightarrow> c = Some i \<or> s = Some i" for c s
    by (auto simp: resolve_intro_def split: option.splits if_splits)
  show thesis
  proof (cases "\<exists>l. r = Inr (Some l)")
    case True
    then obtain l where l: "r = Inr (Some l)" by blast
    obtain s w2 where s: "lookup_intro (lib_id l) path (w\<lparr>sk_access := a\<rparr>) = (s, w2)" by fastforce
    with assms ra l have "resolve_intro (skip_intro_from_chapters chapters dur) s = Some i"
      by (simp add: resolve_skip_intro_def Let_def)
    from pick [OF this] show thesis
    proof
      assume "s = Some i"
      with s have "lookup_intro (lib_id l) path (w\<lparr>sk_access := a\<rparr>) = (Some i, w2)" by simp
      then show thesis by (rule that(2) [rotated]) (cases w, simp)
    qed (rule that(1))
  next
    case False
    with assms ra have "resolve_intro (skip_intro_from_chapters chapters dur) None = Some i"
      by (auto simp: resolve_skip_intro_def Let_def split: sum.splits option.splits)
    with that pick show thesis by blast
  qed
qed

text \<open>C39. A player is never offered to skip anything but a stretch of 10 to 150 seconds: whatever detection has stored in
  whatever order, whatever chapters the file has and however old the row is, the range that the playback answer names is
  not negative and has such a length.\<close>

theorem offered_intro_is_plausible:
  assumes "skip_state w" and "resolve_skip_intro path chapters dur w = (Some i, w')"
  shows "0 \<le> in_start i \<and> 10000 \<le> in_end i - in_start i \<and> in_end i - in_start i \<le> 150000"
  using assms(2)
proof (rule resolve_skip_intro_cases)
  assume "skip_intro_from_chapters chapters dur = Some i"
  then have "intro_from_chapters (map cue_of_chapter chapters) dur = Some i"
    by (simp add: skip_intro_from_chapters_def split: if_splits)
  from intro_from_chapters_sound [OF this] show ?thesis by simp
next
  fix lib w1 w2
  assume "sk_rows w1 = sk_rows w" and found: "lookup_intro lib path w1 = (Some i, w2)"
  moreover from this have "skips_ok w1" using skip_state_ok [OF assms(1)] by (simp add: skips_ok_def)
  ultimately show ?thesis using lookup_intro_ok by blast
qed

section \<open>The counts of a season\<close>

lemma extract_counts:
  "extract_season_audio det es w = ((audio, s), w') \<Longrightarrow>
    length audio + ru_skipped s + ru_errors s + ru_chapter s \<le> length es \<and> ru_hits s = 0"
proof (induction det es w arbitrary: audio s w' rule: extract_season_audio.induct)
  case (2 det e es w)
  obtain canceled w1 where c: "ctx_err w = (canceled, w1)" by fastforce
  show ?case
  proof (cases canceled)
    case True
    with 2(2) c show ?thesis by (auto simp: no_summary_def)
  next
    case False
    obtain audio' s' w2 where rest: "extract_season_audio det es w1 = ((audio', s'), w2)" by (metis surj_pair)
    have "length audio' + ru_skipped s' + ru_errors s' + ru_chapter s' \<le> length es \<and> ru_hits s' = 0"
      using 2(1) [OF c [symmetric] False] rest by simp
    with 2(2) c False rest show ?thesis by (auto split: extracted.splits)
  qed
qed (auto simp: no_summary_def)

lemma store_hits_counts:
  "store_hits lib show_key season now hs s w = (s', w') \<Longrightarrow>
    ru_hits s' + ru_errors s' = ru_hits s + ru_errors s + length hs \<and> ru_skipped s' = ru_skipped s \<and>
    ru_chapter s' = ru_chapter s \<and> ru_episodes s' = ru_episodes s"
  by (induction hs arbitrary: s w) (fastforce split: prod.splits sum.splits)+

lemma voted_paths_le: "length (voted_paths (collect_pairwise_votes es)) \<le> length es"
proof -
  have "set (voted_paths (collect_pairwise_votes es)) \<subseteq> ea_path ` set es"
    using collected_ok by (auto simp: voted_paths_def)
  then have "card (set (voted_paths (collect_pairwise_votes es))) \<le> length es"
    by (meson card_image_le card_length card_mono finite_imageI finite_set le_trans)
  then show ?thesis by (simp add: voted_paths_def distinct_card [symmetric])
qed

lemma consensus_le: "length (consensus_intros es) \<le> length es"
proof -
  have one: "length (hit_of_votes p vs x) \<le> 1" for p vs x by (simp add: hit_of_votes_def Let_def split: prod.splits)
  have "length (concat (map (hit_of_votes p vs) xs)) \<le> length xs" for p vs xs
  proof (induction xs)
    case (Cons x xs)
    then show ?case using one [of p vs x] by simp
  qed simp
  then show ?thesis using voted_paths_le [of es] by (auto simp: consensus_intros_def Let_def intro: le_trans)
qed

text \<open>No episode of a season is counted twice in the report of a run.\<close>

lemma season_counts_episodes_once:
  assumes "detect_season det lib show_key season w = ((s, e), w')"
  shows "ru_hits s + ru_skipped s + ru_errors s + ru_chapter s \<le> ru_episodes s"
proof (cases "dt_episodes det lib show_key season")
  case (Inl e)
  with assms show ?thesis by (auto simp: detect_season_def no_summary_def)
next
  case (Inr es)
  obtain audio x w1 where x: "extract_season_audio det es w = ((audio, x), w1)" by (metis surj_pair)
  note counts = extract_counts [OF x]
  show ?thesis
  proof (cases "length es < 2 \<or> length audio < 2")
    case True
    with assms Inr x counts show ?thesis by (auto simp: detect_season_def no_summary_def Let_def split: if_splits)
  next
    case False
    obtain s2 w2 where s2: "store_hits lib show_key season (w_now w1) (consensus_intros audio) (no_summary\<lparr>ru_episodes := length es,
        ru_skipped := ru_skipped x, ru_errors := ru_errors x, ru_chapter := ru_chapter x\<rparr>) w1 = (s2, w2)" by fastforce
    with assms Inr x False have "s = s2" by (simp add: detect_season_def Let_def)
    with store_hits_counts [OF s2] counts consensus_le [of audio] show ?thesis by (simp add: no_summary_def)
  qed
qed

section \<open>A run ends\<close>

lemma detect_all_shows_ends:
  assumes "\<And>off page n. dt_shows det lib 50 off = Inr (page, n) \<Longrightarrow> n \<le> bound"
  shows "\<exists>y. detect_all_shows det lib offset s w = Some y"
proof (induction "bound - offset" arbitrary: offset s w rule: less_induct)
  case less
  obtain canceled w1 where c: "ctx_err w = (canceled, w1)" by fastforce
  show ?case
  proof (cases "canceled \<or> (\<exists>e. dt_shows det lib 50 offset = Inl e)")
    case True
    with c show ?thesis by (subst detect_all_shows.simps) auto
  next
    case False
    then obtain page n where page: "dt_shows det lib 50 offset = Inr (page, n)"
      by (cases "dt_shows det lib 50 offset") auto
    obtain s2 w2 where acc: "accumulate_shows det lib page s w1 = (s2, w2)" by fastforce
    show ?thesis
    proof (cases "n \<le> offset + length page \<or> page = []")
      case True
      with c False page acc show ?thesis by (subst detect_all_shows.simps) auto
    next
      case more: False
      then have "bound - (offset + length page) < bound - offset" using assms [OF page] by (cases page) auto
      from less [OF this] have "\<exists>y. detect_all_shows det lib (offset + length page) s2 w2 = Some y" .
      with c False page acc more show ?thesis by (subst detect_all_shows.simps) auto
    qed
  qed
qed

text \<open>C40. A detection run returns, whatever the catalog, the probes, ffmpeg and the database answer, as long as the number of
  shows that the catalog reports stays below some bound during the run.\<close>

theorem detection_ends:
  assumes "\<And>off page n. dt_shows det lib 50 off = Inr (page, n) \<Longrightarrow> n \<le> bound"
  shows "\<exists>r w'. detect_library det lib w = Some (r, w')"
proof -
  obtain g a where "get_library lib (sk_access w) = (g, a)" by fastforce
  with detect_all_shows_ends [OF assms] show ?thesis by (cases g) (auto simp: detect_library_def)
qed

section \<open>Names with a percent sign\<close>

text \<open>\<open>mediafs.Service.FilePath\<close>; \<open>stat\<close> answers None on an error, else whether the path is a directory.\<close>

definition media_file_path :: "(string \<Rightarrow> symlink_result) \<Rightarrow> (string \<Rightarrow> bool option) \<Rightarrow> string \<Rightarrow> string \<Rightarrow> string option" where
  "media_file_path eval stat mroot raw = (case resolve eval mroot raw of
     Inl _ \<Rightarrow> None
   | Inr (full, _) \<Rightarrow> (case stat full of None \<Rightarrow> None | Some dir \<Rightarrow> if dir then None else Some full))"

text \<open>The catalog holds plain paths, but \<open>FilePath\<close> decodes them like a path of a request. An episode with a percent sign
  that is no escape is an error in every run.\<close>

lemma percent_name_never_fingerprinted:
  assumes "dt_file det = media_file_path eval stat mroot" and "path_unescape (trim_prefix rel ''/'') = None"
  shows "extract_episode_audio det rel = ExtractError"
  using assms by (simp add: extract_episode_audio_def media_file_path_def resolve_def)

lemma percent_name_demo: "path_unescape (trim_prefix ''Show/100% Wolf.mkv'' ''/'') = None"
  by code_simp

section \<open>Witnesses\<close>

definition demo_library :: access_world where
  "demo_library = \<lparr>w_faults = [], w_rand = [], w_now = 0, libs = [\<lparr>lr_id = ''s'', lr_slug = ''shows'', lr_name = ''Shows'', lr_type = TypeSeries\<rparr>],
     roots = [\<lparr>rr_lib = ''s'', rr_path = ''s''\<rparr>], grants = [], accounts = [], metas = [], watches = [], favs = []\<rparr>"

definition demo_skips :: skip_world where
  "demo_skips = \<lparr>w_faults = [], w_rand = [], w_now = 0, sk_access = demo_library, sk_rows = []\<rparr>"

definition demo_chapters :: "chapter_info list" where
  "demo_chapters = [\<lparr>ch_start = 30, ch_end = 95, ch_title = ''Opening''\<rparr>, \<lparr>ch_start = 95, ch_end = 1200, ch_title = ''Part 1''\<rparr>]"

lemma offered_intro_is_plausible_witness:
  "\<exists>i. fst (resolve_skip_intro ''s/1.mkv'' demo_chapters 1300 demo_skips) = Some i \<and> 10000 \<le> in_end i - in_start i"
proof -
  have run: "fst (resolve_skip_intro ''s/1.mkv'' demo_chapters 1300 demo_skips) =
      Some \<lparr>in_start = 30000, in_end = 95000, in_source = ''chapter''\<rparr>" by code_simp
  moreover have "skip_state demo_skips" by (rule skip_state.start) (simp add: demo_skips_def)
  ultimately show ?thesis
    using offered_intro_is_plausible [of demo_skips] by (metis prod.collapse)
qed

definition demo_detector :: detector where
  "demo_detector = \<lparr>dt_ready = True, dt_shows = (\<lambda>lib limit offset. Inr ([''show''], 1)), dt_agg = (\<lambda>_ _. Inr (Some [1])),
     dt_episodes = (\<lambda>_ _ _. Inr [''s/1.mkv'', ''s/2.mkv'']), dt_file = Some, dt_source = (\<lambda>_. None),
     dt_probe = (\<lambda>_. Some 1300), dt_ffmpeg = (\<lambda>_. FFmpegFailed ''matches no streams'')\<rparr>"

lemma detection_ends_witness: "\<exists>r w'. detect_library demo_detector ''s'' demo_skips = Some (r, w')"
  by (rule detection_ends [of demo_detector "''s''" 1]) (simp add: demo_detector_def)

end
