(* ===== verification/Spec2Isabelle.thy ===== *)
theory Spec2Isabelle
  imports AccessSafety Playback AuthRecovery WatchSafety Favorite TrashPurge MaintenanceSafety HlsRun HlsVariantsSafety HlsRewrite HlsSessionSafety SkipSafety
begin

text \<open>
  A verification library for sudostream, a media server written in Go (sources under \<open>src/internal\<close>).
  The server shows a tree of media files to users. Every request names a path. Three things must hold
  of it: the path must stay inside the media root, the user must have a grant for the library that owns
  the path, and the user must be logged in by the rules of the administrator. Around this core there are
  tables that follow the files (metadata, watch state, favourites) and a recycle bin.

  \<^bold>\<open>Conventions.\<close> Every effectful Go function is a function of the state-and-error monad \<open>m\<close> of
  \<open>Prelude\<close>: it takes a world and returns a value or an error of the component's error datatype,
  and the world afterwards. A world extends the record \<open>env\<close>: \<open>w_faults\<close> is a schedule of failures,
  one entry per call of the database, the mailer or the file system, so a statement about all worlds
  covers every \<open>if err != nil\<close> branch; \<open>w_rand\<close> is the supply of random texts (an empty
  supply is a failing \<open>rand.Read\<close>); \<open>w_now\<close> is the clock in nanoseconds, fixed within one request.
  A table is the list of its rows in insertion order with the constraints of \<open>internal/db/migrations\<close>
  written out. \<open>transaction\<close> undoes the statements of a failed body.

  \<^bold>\<open>Go's library.\<close> \<open>GoStrings\<close> has the functions of \<open>strings\<close> the code calls, \<open>GoPath\<close> has
  \<open>path.Clean\<close>, \<open>path.Join\<close>, \<open>url.PathEscape\<close> and \<open>url.PathUnescape\<close> with their laws. Text is bytes;
  case conversion is that of ASCII.

  \<^bold>\<open>Libraries and permissions\<close> (\<open>internal/access\<close>). \<open>AccessPath\<close>: path normalisation and root
  matching (\<open>path.go\<close>). \<open>AccessStore\<close>: the tables and \<open>postgres/store.go\<close>. \<open>AccessService\<close>:
  \<open>service.go\<close>. \<open>AccessRegistry\<close>: the invariant \<open>registry_ok\<close> (no two libraries claim overlapping
  roots), the abstract owner of a path, and the simulation of every operation by abstract steps
  (attach, detach, change of grants). \<open>AccessSafety\<close>: the same over request histories, and who can read
  what. The locales \<open>registry_reader\<close> and \<open>registry_contract\<close> are the interface between the two.

  \<^bold>\<open>Files\<close> (\<open>internal/mediafs\<close>). \<open>MediaFs\<close>: \<open>resolve\<close> and its confinement, links, breadcrumbs,
  paging. \<open>MediaTree\<close>: a tree of files and the \<open>os\<close> functions on it.

  \<^bold>\<open>Recycle bin\<close> (\<open>internal/trash\<close>, \<open>mediafs/trash.go\<close>, \<open>mediafs/delete.go\<close>). \<open>Trash\<close>: the operations.
  \<open>TrashSafety\<close>: moving and restoring is a round trip. \<open>TrashPurge\<close>: what the purge removes.

  \<^bold>\<open>Watch state and favourites\<close> (\<open>internal/watch\<close>, \<open>internal/favorite\<close>). \<open>Watch\<close>, \<open>Favorite\<close>: the
  operations. \<open>WatchSafety\<close>: termination of the decoding loop, what is read back.

  \<^bold>\<open>Playback\<close> (\<open>internal/playback\<close>). \<open>Playback\<close>: the decision between direct play and transcoding.

  \<^bold>\<open>Accounts\<close> (\<open>internal/auth\<close>). \<open>AuthTypes\<close>, \<open>AuthStore\<close>: data and store. \<open>AuthTwoFactor\<close>,
  \<open>AuthInvites\<close>, \<open>AuthIssuer\<close>, \<open>AuthAccounts\<close>, \<open>AuthAdmin\<close>: the operations of \<open>totp.go\<close>, \<open>invites.go\<close>
  and \<open>tokens.go\<close>, \<open>ginjwt/issuer.go\<close>, \<open>service.go\<close>, \<open>admin.go\<close> and \<open>sessions.go\<close>. \<open>AuthRules\<close>: which
  change of the tables is lawful. \<open>AuthHistory\<close>, \<open>AuthSteps\<close>: every operation makes lawful changes
  only, stated as the locale \<open>auth_history\<close>, which is interpreted twice (table invariants, spent tokens).
  \<open>AuthLogin\<close>, \<open>AuthSessions\<close>, \<open>AuthRecovery\<close>, \<open>AuthAdminSafety\<close>, \<open>AuthSafety\<close>: what a login, a refresh,
  a reset, two-factor setup and the administration guarantee.

  \<^bold>\<open>Maintenance\<close> (\<open>internal/maintenance\<close>). \<open>Maintenance\<close>: schedules, runs, their store and the tasks.
  \<open>MaintenanceRuns\<close>: the runner as a step relation. Every goroutine is a thread with a program point, an event
  is a request, a tick of the cron engine or one step of a thread, so every interleaving is an execution.
  \<open>MaintenanceLocks\<close>: the invariants of the table of locks. \<open>MaintenanceSafety\<close>: mutual exclusion, progress,
  canceling, and executions that show a deadlock, lost cancels and half-stored schedules.

  \<^bold>\<open>Transcoding\<close> (\<open>internal/transcode\<close>). \<open>GoNumbers\<close>: printing and parsing of numbers. \<open>HlsTimeline\<close>:
  the segment table, the cut times given to the encoder, file names and media playlists. \<open>HlsSource\<close>: what the
  code makes of the answers of ffprobe (packets, bit rates, tracks), with the laws in \<open>HlsSourceSafety\<close>.
  \<open>HlsVariants\<close>, \<open>HlsVariantsSafety\<close>: the ladder of renditions, play addresses, master playlist, the check of
  resource names. \<open>HlsRewrite\<close>: access tokens in playlists. \<open>HlsSettings\<close>, \<open>HlsRun\<close>: the settings and the
  arguments of one run of the encoder. \<open>HlsSessions\<close>: requests, the encoder's writing and its exit, the throttle
  and the idle sweep as events on the state of one rendition; \<open>HlsSessionSafety\<close>: what every history of
  events keeps. A second in decimals is a rational with the decimals the code prints; \<open>parse_float\<close> reads decimal
  notation without an exponent. Left out: the processes themselves, the decoding of JSON, the table of jobs with its
  cache folders, and the packaging of subtitles.
  \<^bold>\<open>Bounds and fuel.\<close> The repeated decoding of \<open>access/path.go\<close> has the code's own bound of rounds. The
  unbounded decoding loop of \<open>watch/service.go\<close> is a total function: each round shortens the text. Integers
  that only count rows or pages are \<open>int\<close> or \<open>nat\<close>; durations are nanoseconds as \<open>int\<close> (far below 63 bits
  for the values the code computes with); \<open>float64\<close> seconds are rationals.

  \<^bold>\<open>Parameters.\<close> Code that is not part of the repository is a parameter: bcrypt and AES-GCM, TOTP
  validation, the mailer, gin-jwt (fields of the record \<open>service\<close>), \<open>filepath.EvalSymlinks\<close> (an argument
  of \<open>resolve\<close>).

  \<^bold>\<open>Not modelled.\<close> HTTP routing and encoding (\<open>internal/httpapi\<close>, glue over gin), clients of web services
  (\<open>internal/provider\<close>), processes and sockets (running ffmpeg, DLNA, SOCKS), the database driver, e-mail
  bodies, metrics and logging. Symbolic links in the media tree are modelled in \<open>resolve\<close> and absent from
  \<open>MediaTree\<close>. The component list of the manifest names what is left out, part by part.
\<close>

end
